theory Spec2Isabelle
  imports Complex_Main "HOL-Library.AList" "HOL-Library.Log_Nat" "HOL-Library.Monad_Syntax"
begin

section \<open>Python string primitives used by the exporter\<close>

text \<open>
  The exporter builds its identifiers with f-strings, \<^verbatim>\<open>str.rjust\<close>,
  \<^verbatim>\<open>str.replace\<close> and \<^verbatim>\<open>str.startswith\<close>. The decimal rendering of a
  non-negative integer (\<^verbatim>\<open>f"{n}"\<close>) is \<open>str_nat\<close>.
\<close>

definition digit_char :: "nat \<Rightarrow> char" where
  "digit_char d = ''0123456789'' ! d"

fun str_nat :: "nat \<Rightarrow> string" where
  "str_nat n = (if n < 10 then [digit_char n] else str_nat (n div 10) @ [digit_char (n mod 10)])"

declare str_nat.simps [simp del]

definition str_int :: "int \<Rightarrow> string" where
  "str_int i = (if i < 0 then CHR ''-'' # str_nat (nat (- i)) else str_nat (nat i))"

definition rjust :: "nat \<Rightarrow> char \<Rightarrow> string \<Rightarrow> string" where
  "rjust w c s = replicate (w - length s) c @ s"

definition startswith :: "string \<Rightarrow> string \<Rightarrow> bool" where
  "startswith s p = (take (length p) s = p)"

fun replace :: "string \<Rightarrow> string \<Rightarrow> string \<Rightarrow> string" where
  "replace s [] new = new @ concat (map (\<lambda>c. c # new) s)"
| "replace [] (p # ps) new = []"
| "replace (c # cs) (p # ps) new =
     (if take (Suc (length ps)) (c # cs) = p # ps
      then new @ replace (drop (length ps) cs) (p # ps) new
      else c # replace cs (p # ps) new)"

text \<open>Python compares strings lexicographically by code point.\<close>

fun str_less :: "string \<Rightarrow> string \<Rightarrow> bool" where
  "str_less [] [] = False"
| "str_less [] (y # ys) = True"
| "str_less (x # xs) [] = False"
| "str_less (x # xs) (y # ys) =
     ((of_char x :: nat) < of_char y \<or> (x = y \<and> str_less xs ys))"

text \<open>The value of a string of decimal digits (\<^verbatim>\<open>int(s)\<close>).\<close>

definition digit_val :: "char \<Rightarrow> nat" where
  "digit_val c = of_char c - 48"

definition is_digit :: "char \<Rightarrow> bool" where
  "is_digit c = (48 \<le> (of_char c :: nat) \<and> (of_char c :: nat) \<le> 57)"

definition nat_of_digits :: "string \<Rightarrow> nat" where
  "nat_of_digits s = foldl (\<lambda>a c. 10 * a + digit_val c) 0 s"

section \<open>Group labels\<close>

definition group_svg_id :: "string \<Rightarrow> string" where
  "group_svg_id group_name = replace group_name ''group_'' ''nerve_feature_''"

definition is_group_svg_id :: "string \<Rightarrow> bool" where
  "is_group_svg_id name = startswith name ''nerve_feature_''"

definition group_number :: "nat \<Rightarrow> nat \<Rightarrow> string" where
  "group_number index size_of_digits = rjust size_of_digits CHR ''0'' (str_nat (index + 1))"

text \<open>\<^verbatim>\<open>size_of_digits = len(f'{len(group_list)}')\<close>\<close>

definition size_of_digits :: "nat \<Rightarrow> nat" where
  "size_of_digits group_count = length (str_nat group_count)"

text \<open>\<^verbatim>\<open>group_label = f"group_{_group_number(group_index, size_of_digits)}"\<close>\<close>

definition group_label :: "nat \<Rightarrow> nat \<Rightarrow> string" where
  "group_label group_index w = ''group_'' @ group_number group_index w"

section \<open>Data model\<close>

text \<open>
  Field values are Python lists of floats; arithmetic on them is modelled over the reals.
  An element sample is the pair \<open>(values, derivatives)\<close> evaluated at one end of an
  element, and \<^verbatim>\<open>line_path_points\<close> is the two-element list of the samples at
  xi = (0, 0.5, 0.5) and xi = (1, 0.5, 0.5).
\<close>

type_synonym vec = "real list"
type_synonym sample = "vec \<times> vec"
type_synonym line_path_points = "sample \<times> sample"

text \<open>
  The dictionary \<^verbatim>\<open>grouped_path_points\<close> holds two kinds of values: a list of
  samples under \<^verbatim>\<open>"ungrouped"\<close> and every \<^verbatim>\<open>group_NNN\<close> key, and the
  display name (a string) under the key \<^verbatim>\<open>_group_svg_id(group_label)\<close>. Python
  dictionaries keep insertion order; they are association lists here, written to with
  \<open>AList.update\<close> (replace in place, else append).
\<close>

datatype entry = Samples "line_path_points list" | DisplayName string

type_synonym path_points = "(string \<times> entry) list"

datatype error =
  KeyError | AttributeError | IndexError | UnboundLocalError | TypeError | OverflowError | ValueError

text \<open>
  The Zinc scene as the exporter reads it. \<^verbatim>\<open>_evaluate_field_data\<close> returns the
  values or \<^verbatim>\<open>None\<close>; an element carries the four results the sampler asks for.
  A group has a name, a mesh group (the identifiers of its elements) and a nodeset group
  of datapoints. Fields looked up by name are \<open>None\<close> when the field is not found
  (the handle is not valid).
\<close>

record element =
  element_id :: nat
  values_1 :: "vec option"
  values_2 :: "vec option"
  derivatives_1 :: "vec option"
  derivatives_2 :: "vec option"

text \<open>
  What \<^verbatim>\<open>evaluateReal(fc, components_count)\<close> hands back beside the result code: a
  bare float when one component is asked for, a list of floats otherwise.
\<close>

datatype zinc_values = Scalar real | Components vec

record zgroup =
  getName :: string
  mesh_group :: "nat list"
  datapoints :: "int list"

record region =
  mesh_elements :: "element list"
  group_list :: "zgroup list"
  marker_data_coordinates :: "(int \<Rightarrow> zinc_values) option"
  marker_data_name :: "(int \<Rightarrow> string) option"
  marker_data_id :: "(int \<Rightarrow> string) option"

section \<open>Field sampler: \<^verbatim>\<open>_analyze_elements\<close>\<close>

text \<open>
  \<^verbatim>\<open>if values_1 and values_2 and derivatives_1 and derivatives_2\<close>: a result is
  truthy when it is not \<^verbatim>\<open>None\<close> and not the empty list.
\<close>

definition sample_element :: "element \<Rightarrow> line_path_points option" where
  "sample_element el =
     (case (values_1 el, values_2 el, derivatives_1 el, derivatives_2 el) of
        (Some v1, Some v2, Some d1, Some d2) \<Rightarrow>
          (if v1 \<noteq> [] \<and> v2 \<noteq> [] \<and> d1 \<noteq> [] \<and> d2 \<noteq> []
           then Some ((v1, d1), (v2, d2)) else None)
      | _ \<Rightarrow> None)"

text \<open>
  The first loop over \<^verbatim>\<open>group_list\<close>: every group whose name is not
  \<^verbatim>\<open>"marker"\<close> gets the keys \<^verbatim>\<open>group_NNN\<close> and
  \<^verbatim>\<open>_group_svg_id(group_NNN)\<close>; \<^verbatim>\<open>group_index\<close> is incremented for
  every group.
\<close>

fun label_groups :: "zgroup list \<Rightarrow> nat \<Rightarrow> nat \<Rightarrow> path_points \<Rightarrow> path_points" where
  "label_groups [] group_index w gpp = gpp"
| "label_groups (g # gs) group_index w gpp =
     label_groups gs (group_index + 1) w
       (if getName g \<noteq> ''marker''
        then AList.update (group_svg_id (group_label group_index w)) (DisplayName (getName g))
               (AList.update (group_label group_index w) (Samples []) gpp)
        else gpp)"

text \<open>\<^verbatim>\<open>grouped_path_points[key].append(line_path_points)\<close>\<close>

definition dict_append :: "string \<Rightarrow> line_path_points \<Rightarrow> path_points \<Rightarrow> error + path_points" where
  "dict_append key lpp gpp =
     (case map_of gpp key of
        None \<Rightarrow> Inl KeyError
      | Some (DisplayName s) \<Rightarrow> Inl AttributeError
      | Some (Samples xs) \<Rightarrow> Inr (AList.update key (Samples (xs @ [lpp])) gpp))"

text \<open>
  The inner loop over \<^verbatim>\<open>group_list\<close> for one element; the state is the
  dictionary and the flag \<^verbatim>\<open>in_group\<close>.
\<close>

fun add_to_groups ::
  "zgroup list \<Rightarrow> nat \<Rightarrow> nat \<Rightarrow> nat \<Rightarrow> line_path_points \<Rightarrow> path_points \<Rightarrow> bool
     \<Rightarrow> error + (path_points \<times> bool)" where
  "add_to_groups [] group_index w e lpp gpp in_group = Inr (gpp, in_group)"
| "add_to_groups (g # gs) group_index w e lpp gpp in_group =
     (if e \<in> set (mesh_group g)
      then (case dict_append (group_label group_index w) lpp gpp of
              Inl err \<Rightarrow> Inl err
            | Inr gpp' \<Rightarrow> add_to_groups gs (group_index + 1) w e lpp gpp' True)
      else add_to_groups gs (group_index + 1) w e lpp gpp in_group)"

definition analyze_element ::
  "zgroup list \<Rightarrow> nat \<Rightarrow> element \<Rightarrow> path_points \<Rightarrow> error + path_points" where
  "analyze_element gl w el gpp =
     (case sample_element el of
        None \<Rightarrow> Inr gpp
      | Some lpp \<Rightarrow>
          (case add_to_groups gl 0 w (element_id el) lpp gpp False of
             Inl err \<Rightarrow> Inl err
           | Inr (gpp', in_group) \<Rightarrow>
               (if \<not> in_group then dict_append ''ungrouped'' lpp gpp' else Inr gpp')))"

fun analyze_loop ::
  "zgroup list \<Rightarrow> nat \<Rightarrow> element list \<Rightarrow> path_points \<Rightarrow> error + path_points" where
  "analyze_loop gl w [] gpp = Inr gpp"
| "analyze_loop gl w (el # els) gpp =
     (case analyze_element gl w el gpp of
        Inl err \<Rightarrow> Inl err
      | Inr gpp' \<Rightarrow> analyze_loop gl w els gpp')"

text \<open>
  A mesh of size 0 returns the empty list, which the callers iterate like an empty
  dictionary. At the end of the \<^verbatim>\<open>with\<close> block, \<^verbatim>\<open>del mesh_group\<close> and
  \<^verbatim>\<open>del group\<close> fail when the name was never bound: \<^verbatim>\<open>mesh_group\<close> is
  bound only inside the inner loop, that is, when some element gave a sample and the
  group list is not empty.
\<close>

definition analyze_elements :: "region \<Rightarrow> error + path_points" where
  "analyze_elements r =
     (if mesh_elements r = [] then Inr []
      else
        (let gl = group_list r; w = size_of_digits (length gl) in
         case analyze_loop gl w (mesh_elements r)
                (label_groups gl 0 w [(''ungrouped'', Samples [])]) of
           Inl err \<Rightarrow> Inl err
         | Inr gpp \<Rightarrow>
             (if gl = [] \<or> list_all (\<lambda>el. sample_element el = None) (mesh_elements r)
              then Inl UnboundLocalError else Inr gpp)))"

section \<open>Bezier converter\<close>

text \<open>
  \<^verbatim>\<open>add\<close>, \<^verbatim>\<open>sub\<close> and \<^verbatim>\<open>div\<close> of \<^verbatim>\<open>cmlibs.maths.vectorops\<close> work
  componentwise; \<^verbatim>\<open>v[:2]\<close> is \<open>take 2 v\<close>.
\<close>

definition add :: "vec \<Rightarrow> vec \<Rightarrow> vec" where
  "add u v = map2 (+) u v"

definition sub :: "vec \<Rightarrow> vec \<Rightarrow> vec" where
  "sub u v = map2 (-) u v"

definition div_vec :: "vec \<Rightarrow> real \<Rightarrow> vec" where
  "div_vec u f = map (\<lambda>x. x / f) u"

type_synonym curve = "vec \<times> vec \<times> vec \<times> vec"

definition calculate_bezier_curve :: "sample \<Rightarrow> sample \<Rightarrow> curve" where
  "calculate_bezier_curve pt_1 pt_2 =
     (let h0 = take 2 (fst pt_1);
          v0 = take 2 (snd pt_1);
          h1 = take 2 (fst pt_2);
          v1 = take 2 (snd pt_2);
          b0 = h0;
          b1 = add h0 (div_vec v0 3);
          b2 = sub h1 (div_vec v1 3);
          b3 = h1
      in (b0, b1, b2, b3))"

type_synonym bezier_data = "(string \<times> curve list) list"

text \<open>
  Only keys whose value is a non-empty list are converted:
  \<^verbatim>\<open>if point_data[point_group] and isinstance(point_data[point_group], list)\<close>.
\<close>

fun bezier_groups :: "string list \<Rightarrow> path_points \<Rightarrow> bezier_data \<Rightarrow> bezier_data" where
  "bezier_groups [] point_data bezier = bezier"
| "bezier_groups (point_group # ks) point_data bezier =
     bezier_groups ks point_data
       (case map_of point_data point_group of
          Some (Samples (c # cs)) \<Rightarrow>
            AList.update point_group
              (map (\<lambda>curve_pts. calculate_bezier_curve (fst curve_pts) (snd curve_pts)) (c # cs))
              bezier
        | _ \<Rightarrow> bezier)"

definition calculate_bezier_control_points :: "path_points \<Rightarrow> bezier_data" where
  "calculate_bezier_control_points point_data = bezier_groups (map fst point_data) point_data []"

section \<open>Path stitcher: \<^verbatim>\<open>UnionFind\<close> and \<^verbatim>\<open>_connected_segments\<close>\<close>

text \<open>\<^verbatim>\<open>int(x)\<close> on a float truncates towards zero.\<close>

definition py_int :: "real \<Rightarrow> int" where
  "py_int x = (if 0 \<le> x then \<lfloor>x\<rfloor> else \<lceil>x\<rceil>)"

text \<open>
  \<^verbatim>\<open>_create_key(pt)\<close> is \<^verbatim>\<open>int(pt[0] * tolerance), int(pt[1] * tolerance)\<close>
  with \<^verbatim>\<open>tolerance = 1e12\<close>. The product is a float product, so it is rounded, and
  \<^verbatim>\<open>int\<close> raises \<^verbatim>\<open>OverflowError\<close> when it is infinite: what
  \<^verbatim>\<open>int(v * tolerance)\<close> gives for a float \<open>v\<close> is the parameter \<open>q\<close>. A point
  with fewer than two components raises \<^verbatim>\<open>IndexError\<close>. The components are read
  from left to right.
\<close>

definition create_key :: "(real \<Rightarrow> error + int) \<Rightarrow> vec \<Rightarrow> error + (int \<times> int)" where
  "create_key q pt =
     (case pt of
        [] \<Rightarrow> Inl IndexError
      | x # rest \<Rightarrow>
          (case q x of
             Inl err \<Rightarrow> Inl err
           | Inr a \<Rightarrow>
               (case rest of
                  [] \<Rightarrow> Inl IndexError
                | y # rest' \<Rightarrow>
                    (case q y of Inl err \<Rightarrow> Inl err | Inr b \<Rightarrow> Inr (a, b)))))"

text \<open>
  In exact arithmetic the product is \<open>v * 10\<^sup>1\<^sup>2\<close>; the float product is the same
  whenever \<open>v * 10\<^sup>1\<^sup>2\<close> is a whole number below \<open>2\<^sup>5\<^sup>3\<close>.
\<close>

definition exact_quantize :: "real \<Rightarrow> error + int" where
  "exact_quantize v = Inr (py_int (v * 1000000000000))"

definition curve_start :: "curve \<Rightarrow> vec" where
  "curve_start c = fst c"

definition curve_end :: "curve \<Rightarrow> vec" where
  "curve_end c = snd (snd (snd c))"

type_synonym begin_hash = "(int \<times> int) \<rightharpoonup> nat"

text \<open>
  The first loop: \<^verbatim>\<open>begin_hash[key] = index\<close>; a repeated key is reported on the
  console and overwritten.
\<close>

fun build_begin_hash ::
  "(real \<Rightarrow> error + int) \<Rightarrow> curve list \<Rightarrow> nat \<Rightarrow> begin_hash \<Rightarrow> error + begin_hash" where
  "build_begin_hash q [] index h = Inr h"
| "build_begin_hash q (c # cs) index h =
     (case create_key q (curve_start c) of
        Inl err \<Rightarrow> Inl err
      | Inr key \<Rightarrow> build_begin_hash q cs (index + 1) (h(key \<mapsto> index)))"

text \<open>
  \<^verbatim>\<open>UnionFind.find\<close> with path compression, on the list \<^verbatim>\<open>parent\<close> (\<open>-1\<close>
  marks a root). The recursion follows parent links, so it returns only when they lead
  to a root; \<open>None\<close> is a call that does not return. Every index the stitcher passes
  is below the length of \<^verbatim>\<open>parent\<close>.
\<close>

partial_function (option) uf_find :: "int list \<Rightarrow> nat \<Rightarrow> (int list \<times> nat) option" where
  "uf_find parent i =
     (if parent ! i = - 1 then Some (parent, i)
      else Option.bind (uf_find parent (nat (parent ! i)))
             (\<lambda>(parent', root). Some (parent'[i := int root], root)))"

definition uf_union :: "int list \<Rightarrow> nat \<Rightarrow> nat \<Rightarrow> (int list \<times> nat) option" where
  "uf_union parent i j =
     Option.bind (uf_find parent i) (\<lambda>(parent1, root_i).
       Option.bind (uf_find parent1 j) (\<lambda>(parent2, root_j).
         if root_i \<noteq> root_j then Some (parent2[root_i := int root_j], root_j)
         else Some (parent2, root_i)))"

text \<open>
  The second loop: \<^verbatim>\<open>if y_cur in begin_hash: uf.union(begin_hash[y_cur], index)\<close>.
\<close>

fun union_ends ::
  "(real \<Rightarrow> error + int) \<Rightarrow> curve list \<Rightarrow> nat \<Rightarrow> begin_hash \<Rightarrow> int list
     \<Rightarrow> (error + int list) option" where
  "union_ends q [] index h parent = Some (Inr parent)"
| "union_ends q (c # cs) index h parent =
     (case create_key q (curve_end c) of
        Inl err \<Rightarrow> Some (Inl err)
      | Inr y_cur \<Rightarrow>
          (case h y_cur of
             None \<Rightarrow> union_ends q cs (index + 1) h parent
           | Some s \<Rightarrow>
               Option.bind (uf_union parent s index)
                 (\<lambda>(parent', root). union_ends q cs (index + 1) h parent')))"

text \<open>
  The third loop groups the indices by root; the dictionary \<^verbatim>\<open>sets\<close> keeps the
  roots in the order they are first met.
\<close>

fun collect_sets ::
  "nat list \<Rightarrow> int list \<Rightarrow> (nat \<times> nat list) list \<Rightarrow> (nat \<times> nat list) list option" where
  "collect_sets [] parent sets = Some sets"
| "collect_sets (i # rest) parent sets =
     Option.bind (uf_find parent i) (\<lambda>(parent', root).
       collect_sets rest parent'
         (AList.update root
            (case map_of sets root of None \<Rightarrow> [i] | Some members \<Rightarrow> members @ [i]) sets))"

text \<open>
  The \<^verbatim>\<open>while key in begin_hash\<close> loop of the last phase. It appends the segment
  \<^verbatim>\<open>curve[begin_hash[key]]\<close>, then stops if that segment's end key equals the key
  just followed, and otherwise goes on from its end key.
\<close>

partial_function (option) follow ::
  "(real \<Rightarrow> error + int) \<Rightarrow> begin_hash \<Rightarrow> curve list \<Rightarrow> int \<times> int \<Rightarrow> curve list
     \<Rightarrow> (error + curve list) option" where
  "follow q h curve key seg =
     (case h key of
        None \<Rightarrow> Some (Inr seg)
      | Some s \<Rightarrow>
          (case create_key q (curve_end (curve ! s)) of
             Inl err \<Rightarrow> Some (Inl err)
           | Inr key' \<Rightarrow>
               if key = key' then Some (Inr (seg @ [curve ! s]))
               else follow q h curve key' (seg @ [curve ! s])))"

fun walk_roots ::
  "(real \<Rightarrow> error + int) \<Rightarrow> nat list \<Rightarrow> begin_hash \<Rightarrow> curve list
     \<Rightarrow> (error + curve list list) option" where
  "walk_roots q [] h curve = Some (Inr [])"
| "walk_roots q (s # rest) h curve =
     (case create_key q (curve_end (curve ! s)) of
        Inl err \<Rightarrow> Some (Inl err)
      | Inr key \<Rightarrow>
          (case follow q h curve key [curve ! s] of
             None \<Rightarrow> None
           | Some (Inl err) \<Rightarrow> Some (Inl err)
           | Some (Inr seg) \<Rightarrow>
               (case walk_roots q rest h curve of
                  None \<Rightarrow> None
                | Some (Inl err) \<Rightarrow> Some (Inl err)
                | Some (Inr segments) \<Rightarrow> Some (Inr (seg # segments)))))"

definition connected_segments ::
  "(real \<Rightarrow> error + int) \<Rightarrow> curve list \<Rightarrow> (error + curve list list) option" where
  "connected_segments q curve =
     (case build_begin_hash q curve 0 Map.empty of
        Inl err \<Rightarrow> Some (Inl err)
      | Inr h \<Rightarrow>
          (case union_ends q curve 0 h (replicate (length curve) (- 1)) of
             None \<Rightarrow> None
           | Some (Inl err) \<Rightarrow> Some (Inl err)
           | Some (Inr parent) \<Rightarrow>
               (case collect_sets [0..<length curve] parent [] of
                  None \<Rightarrow> None
                | Some sets \<Rightarrow> walk_roots q (map fst sets) h curve)))"

section \<open>SVG serializer\<close>

text \<open>
  How a float is printed inside an f-string is a parameter \<open>fmt\<close>. A control point
  with fewer than two components raises \<^verbatim>\<open>IndexError\<close> (\<open>None\<close> here).
\<close>

definition pt_str :: "(real \<Rightarrow> string) \<Rightarrow> vec \<Rightarrow> string option" where
  "pt_str fmt b = (case b of x # y # rest \<Rightarrow> Some (fmt x @ '' '' @ fmt y) | _ \<Rightarrow> None)"

text \<open>
  One pass of the inner loop of \<^verbatim>\<open>_write_connected_svg_bezier_path\<close>: the text
  added for segment \<open>j\<close> of a connected path.
\<close>

definition section_svg :: "(real \<Rightarrow> string) \<Rightarrow> string \<Rightarrow> nat \<Rightarrow> curve \<Rightarrow> string option" where
  "section_svg fmt m_space j b =
     (case (if j = 0 then map_option (\<lambda>p. m_space @ ''M '' @ p) (pt_str fmt (fst b))
            else Some []) of
        None \<Rightarrow> None
      | Some m \<Rightarrow>
          (case (pt_str fmt (fst (snd b)), pt_str fmt (fst (snd (snd b))),
                 pt_str fmt (snd (snd (snd b)))) of
             (Some p1, Some p2, Some p3) \<Rightarrow> Some (m @ '' C '' @ p1 @ '', '' @ p2 @ '', '' @ p3)
           | _ \<Rightarrow> None))"

fun sections_svg :: "(real \<Rightarrow> string) \<Rightarrow> string \<Rightarrow> nat \<Rightarrow> curve list \<Rightarrow> string option" where
  "sections_svg fmt m_space j [] = Some []"
| "sections_svg fmt m_space j (b # bs) =
     (case section_svg fmt m_space j b of
        None \<Rightarrow> None
      | Some s \<Rightarrow> map_option (\<lambda>t. s @ t) (sections_svg fmt m_space (j + 1) bs))"

fun paths_svg :: "(real \<Rightarrow> string) \<Rightarrow> nat \<Rightarrow> curve list list \<Rightarrow> string option" where
  "paths_svg fmt i [] = Some []"
| "paths_svg fmt i (bezier_section # rest) =
     (case sections_svg fmt (if i = 0 then [] else '' '') 0 bezier_section of
        None \<Rightarrow> None
      | Some s \<Rightarrow> map_option (\<lambda>t. s @ t) (paths_svg fmt (i + 1) rest))"

definition write_connected_svg_bezier_path ::
  "(real \<Rightarrow> string) \<Rightarrow> curve list list \<Rightarrow> string option \<Rightarrow> error + string" where
  "write_connected_svg_bezier_path fmt bezier_path group_name =
     (let stroke = (if group_name = None then ''grey'' else ''#01136e'') in
      case paths_svg fmt 0 bezier_path of
        None \<Rightarrow> Inl IndexError
      | Some d \<Rightarrow>
          Inr (''<path d=\"'' @ d @ ''\" stroke=\"'' @ stroke @ ''\" fill=\"none\"'' @
               (case group_name of
                  None \<Rightarrow> ''/>''
                | Some g \<Rightarrow> ''><title>.centreline id('' @ group_svg_id g @ '')</title></path>'')))"

text \<open>
  The marker tuple \<^verbatim>\<open>(f"marker_{id}", values[:2], name, onto_id)\<close>.
\<close>

type_synonym marker = "string \<times> vec \<times> string \<times> string"

text \<open>
  The body of the marker loop: the \<^verbatim>\<open>IndexError\<close> of \<^verbatim>\<open>marker[1][0]\<close> or
  \<^verbatim>\<open>marker[1][1]\<close> is caught, and nothing is added for that marker.
\<close>

definition marker_svg :: "(real \<Rightarrow> string) \<Rightarrow> marker \<Rightarrow> string" where
  "marker_svg fmt marker =
     (case fst (snd marker) of
        x # y # rest \<Rightarrow>
          ''<circle cx=\"'' @ fmt x @ ''\" cy=\"'' @ fmt y @ ''\" r=\"3\" fill-opacity=\"0.0\">'' @
          ''<title>.id('' @ fst marker @ '')</title>'' @ ''</circle>''
      | _ \<Rightarrow> [])"

text \<open>
  The loop over \<^verbatim>\<open>bezier_data\<close>: one \<^verbatim>\<open><path>\<close> element for each key, in order.
\<close>

fun group_paths_svg ::
  "(real \<Rightarrow> error + int) \<Rightarrow> (real \<Rightarrow> string) \<Rightarrow> bezier_data \<Rightarrow> (error + string list) option" where
  "group_paths_svg q fmt [] = Some (Inr [])"
| "group_paths_svg q fmt ((group_name, curves) # rest) =
     (case connected_segments q curves of
        None \<Rightarrow> None
      | Some (Inl err) \<Rightarrow> Some (Inl err)
      | Some (Inr connected_paths) \<Rightarrow>
          (case write_connected_svg_bezier_path fmt connected_paths
                  (if group_name \<noteq> ''ungrouped'' then Some group_name else None) of
             Inl err \<Rightarrow> Some (Inl err)
           | Inr p \<Rightarrow>
               (case group_paths_svg q fmt rest of
                  None \<Rightarrow> None
                | Some (Inl err) \<Rightarrow> Some (Inl err)
                | Some (Inr ps) \<Rightarrow> Some (Inr (p # ps)))))"

definition svg_open :: string where
  "svg_open = ''<svg width=\"1000\" height=\"1000\" viewBox=\"WWW XXX YYY ZZZ\" xmlns=\"http://www.w3.org/2000/svg\">''"

definition write_into_svg_format ::
  "(real \<Rightarrow> error + int) \<Rightarrow> (real \<Rightarrow> string) \<Rightarrow> bezier_data \<Rightarrow> marker list
     \<Rightarrow> (error + string) option" where
  "write_into_svg_format q fmt bezier_data markers =
     (case group_paths_svg q fmt bezier_data of
        None \<Rightarrow> None
      | Some (Inl err) \<Rightarrow> Some (Inl err)
      | Some (Inr ps) \<Rightarrow>
          Some (Inr (svg_open @ concat ps @ concat (map (marker_svg fmt) markers) @ ''</svg>'')))"

section \<open>Marker extractor: \<^verbatim>\<open>_calculate_markers\<close>\<close>

text \<open>
  \<^verbatim>\<open>f"{rand_num:0=5}"\<close>: width 5, filled with zeros after the sign.
\<close>

definition format_0eq5 :: "int \<Rightarrow> string" where
  "format_0eq5 n =
     (if n < 0 then CHR ''-'' # rjust 4 CHR ''0'' (str_nat (nat (- n)))
      else rjust 5 CHR ''0'' (str_nat (nat n)))"

text \<open>
  The group looked up under the names \<^verbatim>\<open>'marker'\<close> and then \<^verbatim>\<open>'markers'\<close>.
\<close>

definition find_markers_group :: "region \<Rightarrow> zgroup option" where
  "find_markers_group r =
     (case List.find (\<lambda>g. getName g = ''marker'') (group_list r) of
        Some g \<Rightarrow> Some g
      | None \<Rightarrow> List.find (\<lambda>g. getName g = ''markers'') (group_list r))"

text \<open>
  \<^verbatim>\<open>coordinate_field.evaluateReal(fc, components_count)\<close> returns a result code,
  which \<^verbatim>\<open>_calculate_markers\<close> does not look at, and the values. What the values
  are when the field \<^verbatim>\<open>marker_data_coordinates\<close> was not found is the parameter
  \<open>invalid_values\<close>; Zinc gives such a handle zero components and so returns the
  empty list.
\<close>

definition evaluateReal :: "zinc_values \<Rightarrow> (int \<Rightarrow> zinc_values) option \<Rightarrow> int \<Rightarrow> zinc_values" where
  "evaluateReal invalid_values field p = (case field of None \<Rightarrow> invalid_values | Some f \<Rightarrow> f p)"

text \<open>\<^verbatim>\<open>values[:2]\<close>: a bare float cannot be sliced.\<close>

definition slice2 :: "zinc_values \<Rightarrow> error + vec" where
  "slice2 v = (case v of Scalar x \<Rightarrow> Inl TypeError | Components xs \<Rightarrow> Inr (take 2 xs))"

text \<open>
  The marker loop, with \<open>i\<close> the loop counter. \<open>rand k\<close> is the result of the
  \<open>k\<close>-th call of \<^verbatim>\<open>random.randint(1, 99999)\<close>; whether the identifier field is
  valid does not change during the loop, so marker \<open>i\<close> takes draw \<open>i\<close>.
\<close>

fun marker_loop ::
  "zinc_values \<Rightarrow> region \<Rightarrow> (nat \<Rightarrow> int) \<Rightarrow> nat \<Rightarrow> int list \<Rightarrow> error + marker list" where
  "marker_loop iv r rand i [] = Inr []"
| "marker_loop iv r rand i (p # ps) =
     (let vals = evaluateReal iv (marker_data_coordinates r) p;
          name = (case marker_data_name r of
                    Some f \<Rightarrow> f p
                  | None \<Rightarrow> ''Unnamed marker '' @ str_nat (i + 1));
          onto_id = (case marker_data_id r of
                       Some f \<Rightarrow> f p
                     | None \<Rightarrow> ''UBERON:99'' @ format_0eq5 (rand i))
      in case slice2 vals of
           Inl err \<Rightarrow> Inl err
         | Inr xy \<Rightarrow>
             (case marker_loop iv r rand (i + 1) ps of
                Inl err \<Rightarrow> Inl err
              | Inr ms \<Rightarrow> Inr ((''marker_'' @ str_int p, xy, name, onto_id) # ms)))"

definition calculate_markers :: "zinc_values \<Rightarrow> region \<Rightarrow> (nat \<Rightarrow> int) \<Rightarrow> error + marker list" where
  "calculate_markers iv r rand =
     (case find_markers_group r of
        None \<Rightarrow> Inr []
      | Some g \<Rightarrow> marker_loop iv r rand 0 (datapoints g))"

section \<open>Annotation CSV\<close>

text \<open>A CSV file is the list of rows \<^verbatim>\<open>csv.reader\<close> yields, each a list of fields.\<close>

fun rows_have_two_columns :: "string list list \<Rightarrow> bool" where
  "rows_have_two_columns [] = True"
| "rows_have_two_columns (row # rows) = (if length row \<noteq> 2 then False else rows_have_two_columns rows)"

definition is_annotation_csv_file :: "string list list \<Rightarrow> bool" where
  "is_annotation_csv_file csv_reader =
     (case csv_reader of
        [] \<Rightarrow> True
      | row # rows \<Rightarrow>
          (if length row = 2 \<and> row ! 0 = ''Term ID'' \<and> row ! 1 = ''Group name''
           then rows_have_two_columns rows else False))"

text \<open>\<^verbatim>\<open>reverse_map[row[1]] = row[0]\<close> for every row after the first.\<close>

fun reverse_rows :: "string list list \<Rightarrow> (string \<times> string) list \<Rightarrow> error + (string \<times> string) list" where
  "reverse_rows [] reverse_map = Inr reverse_map"
| "reverse_rows (row # rows) reverse_map =
     (case row of
        a # b # rest \<Rightarrow> reverse_rows rows (AList.update b a reverse_map)
      | _ \<Rightarrow> Inl IndexError)"

definition reverse_map_annotations :: "string list list \<Rightarrow> error + (string \<times> string) list" where
  "reverse_map_annotations csv_reader = reverse_rows (tl csv_reader) []"

definition label_has_annotations :: "string \<Rightarrow> (string \<times> string) list \<Rightarrow> bool" where
  "label_has_annotations entry annotation_map =
     (case map_of annotation_map entry of None \<Rightarrow> False | Some v \<Rightarrow> v \<noteq> [])"

section \<open>The export: view box and properties\<close>

type_synonym bbox = "real \<times> real \<times> real \<times> real"

text \<open>
  The bounding boxes \<^verbatim>\<open>(xmin, xmax, ymin, ymax)\<close> of the parsed paths are folded
  into \<^verbatim>\<open>bbox\<close>, which starts at \<^verbatim>\<open>[999999999, -999999999, 999999999, -999999999]\<close>.
\<close>

fun fold_bbox :: "bbox list \<Rightarrow> bbox \<Rightarrow> bbox" where
  "fold_bbox [] bbox = bbox"
| "fold_bbox ((p0, p1, p2, p3) # paths) (b0, b1, b2, b3) =
     fold_bbox paths (min p0 b0, max p1 b1, min p2 b2, max p3 b3)"

definition view_margin :: int where
  "view_margin = 10"

text \<open>
  The sums and differences in \<^verbatim>\<open>int(bbox[0] + 0.5)\<close> and
  \<^verbatim>\<open>int(bbox[1] - bbox[0] + 0.5)\<close> are float operations, which round their exact
  result: \<open>fadd\<close> and \<open>fsub\<close> are the float addition and subtraction.
\<close>

definition view_box ::
  "(real \<Rightarrow> real \<Rightarrow> real) \<Rightarrow> (real \<Rightarrow> real \<Rightarrow> real) \<Rightarrow> bbox \<Rightarrow> int \<times> int \<times> int \<times> int" where
  "view_box fadd fsub bbox =
     (case bbox of (b0, b1, b2, b3) \<Rightarrow>
        (py_int (fadd b0 0.5) - view_margin,
         py_int (fadd b2 0.5) - view_margin,
         py_int (fadd (fsub b1 b0) 0.5) + 2 * view_margin,
         py_int (fadd (fsub b3 b2) 0.5) + 2 * view_margin))"

definition view_box_of_paths ::
  "(real \<Rightarrow> real \<Rightarrow> real) \<Rightarrow> (real \<Rightarrow> real \<Rightarrow> real) \<Rightarrow> bbox list \<Rightarrow> int \<times> int \<times> int \<times> int" where
  "view_box_of_paths fadd fsub paths =
     view_box fadd fsub (fold_bbox paths (999999999, - 999999999, 999999999, - 999999999))"

definition view_box_attribute :: "int \<times> int \<times> int \<times> int \<Rightarrow> string" where
  "view_box_attribute vb =
     (case vb of (a, b, c, d) \<Rightarrow>
        ''viewBox=\"'' @ str_int a @ '' '' @ str_int b @ '' '' @ str_int c @ '' '' @ str_int d @ ''\"'')"

text \<open>
  A feature of \<^verbatim>\<open>properties.json\<close>: \<^verbatim>\<open>{"label", "type": "centreline"}\<close> with an
  optional \<^verbatim>\<open>"models"\<close>, or \<^verbatim>\<open>{"name", "models", "colour"}\<close> for a marker.
\<close>

datatype feature =
  Centreline (label: entry) (centreline_models: "string option")
| MarkerFeature (marker_name: string) (marker_models: string) (colour: string)

type_synonym features = "(string \<times> feature) list"

text \<open>
  The feature written for one key that \<^verbatim>\<open>_is_group_svg_id\<close> accepts. The label is
  whatever the dictionary holds under the key; \<^verbatim>\<open>entry in annotation_map\<close> needs a
  hashable entry, which a list is not.
\<close>

definition centreline_feature :: "entry \<Rightarrow> (string \<times> string) list option \<Rightarrow> error + feature" where
  "centreline_feature e reversed_map =
     (case reversed_map of
        None \<Rightarrow> Inr (Centreline e None)
      | Some m \<Rightarrow>
          (case e of
             Samples xs \<Rightarrow> Inl TypeError
           | DisplayName name \<Rightarrow>
               Inr (Centreline e (if label_has_annotations name m then map_of m name else None))))"

fun centreline_features ::
  "string list \<Rightarrow> path_points \<Rightarrow> (string \<times> string) list option \<Rightarrow> features \<Rightarrow> error + features" where
  "centreline_features [] path_points reversed_map features = Inr features"
| "centreline_features (path_key # ks) path_points reversed_map features =
     (if is_group_svg_id path_key
      then (case map_of path_points path_key of
              None \<Rightarrow> Inl KeyError
            | Some e \<Rightarrow>
                (case centreline_feature e reversed_map of
                   Inl err \<Rightarrow> Inl err
                 | Inr f \<Rightarrow>
                     centreline_features ks path_points reversed_map
                       (AList.update path_key f features)))
      else centreline_features ks path_points reversed_map features)"

fun marker_features :: "marker list \<Rightarrow> features \<Rightarrow> features" where
  "marker_features [] features = features"
| "marker_features (marker # ms) features =
     marker_features ms
       (AList.update (fst marker)
          (MarkerFeature (fst (snd (snd marker))) (snd (snd (snd marker))) ''orange'') features)"

text \<open>
  What lies outside the repository is a parameter of the export: the float format, the
  float addition and subtraction, \<^verbatim>\<open>int(v * 1e12)\<close> on floats, the bounding boxes
  \<^verbatim>\<open>svg2paths\<close> and \<^verbatim>\<open>Path.bbox\<close> find in the SVG text, the pretty printer,
  and the values Zinc returns for a field that was not found.
\<close>

record ext =
  fmt :: "real \<Rightarrow> string"
  float_add :: "real \<Rightarrow> real \<Rightarrow> real"
  float_sub :: "real \<Rightarrow> real \<Rightarrow> real"
  quantize :: "real \<Rightarrow> error + int"
  svg2paths_bbox :: "string \<Rightarrow> bbox list"
  toprettyxml :: "string \<Rightarrow> string"
  invalid_values :: zinc_values

record artifacts =
  svg_file :: string
  properties_features :: features
  properties_networks :: "string list list"

text \<open>
  \<^verbatim>\<open>reversed_map\<close> stays \<^verbatim>\<open>None\<close> unless a file was set and
  \<^verbatim>\<open>_is_annotation_csv_file\<close> accepts it.
\<close>

definition load_reversed_map :: "string list list option \<Rightarrow> error + (string \<times> string) list option" where
  "load_reversed_map annotations_csv_file =
     (case annotations_csv_file of
        None \<Rightarrow> Inr None
      | Some rows \<Rightarrow>
          (if is_annotation_csv_file rows
           then (case reverse_map_annotations rows of Inl err \<Rightarrow> Inl err | Inr m \<Rightarrow> Inr (Some m))
           else Inr None))"

definition build_output ::
  "ext \<Rightarrow> path_points \<Rightarrow> marker list \<Rightarrow> string list list option \<Rightarrow> string \<Rightarrow> error + artifacts" where
  "build_output x path_points markers annotations_csv_file svg_string =
     (let vb = view_box_of_paths (float_add x) (float_sub x) (svg2paths_bbox x svg_string);
          svg_string' = toprettyxml x
            (replace svg_string ''viewBox=\"WWW XXX YYY ZZZ\"'' (view_box_attribute vb))
      in case load_reversed_map annotations_csv_file of
           Inl err \<Rightarrow> Inl err
         | Inr reversed_map \<Rightarrow>
             (case centreline_features (map fst path_points) path_points reversed_map [] of
                Inl err \<Rightarrow> Inl err
              | Inr features \<Rightarrow>
                  Inr \<lparr>svg_file = svg_string',
                       properties_features = marker_features markers features,
                       properties_networks = []\<rparr>))"

definition export_flatmapsvg_from_scene ::
  "ext \<Rightarrow> region \<Rightarrow> string list list option \<Rightarrow> (nat \<Rightarrow> int) \<Rightarrow> (error + artifacts) option" where
  "export_flatmapsvg_from_scene x r annotations_csv_file rand =
     (case analyze_elements r of
        Inl err \<Rightarrow> Some (Inl err)
      | Inr path_points \<Rightarrow>
          (let bezier = calculate_bezier_control_points path_points in
           case calculate_markers (invalid_values x) r rand of
             Inl err \<Rightarrow> Some (Inl err)
           | Inr markers \<Rightarrow>
               (case write_into_svg_format (quantize x) (fmt x) bezier markers of
                  None \<Rightarrow> None
                | Some (Inl err) \<Rightarrow> Some (Inl err)
                | Some (Inr svg_string) \<Rightarrow>
                    Some (build_output x path_points markers annotations_csv_file svg_string))))"

section \<open>Auxiliary notions\<close>

text \<open>
  Two dictionaries have the same keys and the same display names: what the element loop
  of the sampler keeps of the dictionary built by the group loop.
\<close>

definition keeps_names :: "path_points \<Rightarrow> path_points \<Rightarrow> bool" where
  "keeps_names gpp gpp' =
     (dom (map_of gpp') = dom (map_of gpp) \<and>
      (\<forall>k n. (map_of gpp' k = Some (DisplayName n)) = (map_of gpp k = Some (DisplayName n))))"

section \<open>Example scenes\<close>

text \<open>
  A mesh of one element that belongs to the group \<^verbatim>\<open>vagus\<close>; a group
  \<^verbatim>\<open>marker\<close> with one datapoint and a group \<^verbatim>\<open>branch\<close> with no element.
  The fields \<^verbatim>\<open>marker_data_coordinates\<close>, \<^verbatim>\<open>marker_data_name\<close> and
  \<^verbatim>\<open>marker_data_id\<close> are not defined.
\<close>

definition example_element :: element where
  "example_element =
     \<lparr>element_id = 1,
      values_1 = Some [0, 0, 0], values_2 = Some [3, 0, 0],
      derivatives_1 = Some [3, 0, 0], derivatives_2 = Some [3, 0, 0]\<rparr>"

definition example_region :: region where
  "example_region =
     \<lparr>mesh_elements = [example_element],
      group_list =
        [\<lparr>getName = ''vagus'', mesh_group = [1], datapoints = []\<rparr>,
         \<lparr>getName = ''marker'', mesh_group = [], datapoints = [5]\<rparr>,
         \<lparr>getName = ''branch'', mesh_group = [], datapoints = []\<rparr>],
      marker_data_coordinates = None,
      marker_data_name = None,
      marker_data_id = None\<rparr>"

definition example_path_points :: path_points where
  "example_path_points =
     [(''ungrouped'', Samples []),
      (''group_1'', Samples [(([0, 0, 0], [3, 0, 0]), ([3, 0, 0], [3, 0, 0]))]),
      (''nerve_feature_1'', DisplayName ''vagus''),
      (''group_3'', Samples []),
      (''nerve_feature_3'', DisplayName ''branch'')]"

text \<open>An annotation file with the header and one row.\<close>

definition example_csv :: "string list list" where
  "example_csv = [[''Term ID'', ''Group name''], [''UBERON:0001255'', ''ureter'']]"

text \<open>
  External functions for the example scene: floats are printed as their integer part,
  the float operations are the exact ones (every number of the examples and every sum,
  difference and product formed from them is a float, so nothing is rounded), the one
  path of the scene has the bounding box \<open>[0, 3] \<times> [0, 0]\<close>, the pretty printer
  leaves the text as it is, and a field that was not found yields no values.
\<close>

definition example_ext :: ext where
  "example_ext =
     \<lparr>fmt = (\<lambda>v. str_int \<lfloor>v\<rfloor>),
      float_add = (+),
      float_sub = (-),
      quantize = exact_quantize,
      svg2paths_bbox = (\<lambda>s. [(0, 3, 0, 0)]),
      toprettyxml = (\<lambda>s. s),
      invalid_values = Components []\<rparr>"

definition example_svg_text :: string where
  "example_svg_text =
     svg_open @
     ''<path d=\"M 0 0 C 1 0, 2 0, 3 0\" stroke=\"#01136e\" fill=\"none\">'' @
     ''<title>.centreline id(nerve_feature_1)</title></path>'' @
     ''</svg>''"

definition example_artifacts :: artifacts where
  "example_artifacts =
     \<lparr>svg_file =
        ''<svg width=\"1000\" height=\"1000\" viewBox=\"-10 -10 23 20\" xmlns=\"http://www.w3.org/2000/svg\">'' @
        ''<path d=\"M 0 0 C 1 0, 2 0, 3 0\" stroke=\"#01136e\" fill=\"none\">'' @
        ''<title>.centreline id(nerve_feature_1)</title></path>'' @
        ''</svg>'',
      properties_features =
        [(''nerve_feature_1'', Centreline (DisplayName ''vagus'') None),
         (''nerve_feature_3'', Centreline (DisplayName ''branch'') None),
         (''marker_5'', MarkerFeature ''Unnamed marker 1'' ''UBERON:9900042'' ''orange'')],
      properties_networks = []\<rparr>"

text \<open>A sequence of draws of \<^verbatim>\<open>random.randint(1, 99999)\<close>.\<close>

definition example_rand :: "nat \<Rightarrow> int" where
  "example_rand j = 42"

text \<open>
  The example scene with a field \<^verbatim>\<open>marker_data_coordinates\<close> of one component, for
  which \<^verbatim>\<open>evaluateReal\<close> returns a bare float.
\<close>

definition scalar_region :: region where
  "scalar_region = example_region\<lparr>marker_data_coordinates := Some (\<lambda>p. Scalar 1)\<rparr>"
section \<open>Notions for the path stitcher\<close>

text \<open>
  The link the stitcher follows from segment \<open>i\<close>: the last segment whose start key
  equals the end key of \<open>i\<close>, if there is one. \<open>links\<close> is the graph of these
  links on the indices of the sequence.
\<close>

fun last_index_of :: "'a \<Rightarrow> 'a list \<Rightarrow> nat option" where
  "last_index_of k [] = None"
| "last_index_of k (x # xs) =
     (case last_index_of k xs of
        Some j \<Rightarrow> Some (Suc j)
      | None \<Rightarrow> if x = k then Some 0 else None)"

definition start_keys :: "(real \<Rightarrow> error + int) \<Rightarrow> curve list \<Rightarrow> (error + int \<times> int) list" where
  "start_keys q curve = map (\<lambda>c. create_key q (curve_start c)) curve"

definition successor :: "(real \<Rightarrow> error + int) \<Rightarrow> curve list \<Rightarrow> nat \<Rightarrow> nat option" where
  "successor q curve i =
     (case create_key q (curve_end (curve ! i)) of
        Inl err \<Rightarrow> None
      | Inr k \<Rightarrow> last_index_of (Inr k) (start_keys q curve))"

definition links :: "(real \<Rightarrow> error + int) \<Rightarrow> curve list \<Rightarrow> (nat \<times> nat) set" where
  "links q curve = {(i, s). i < length curve \<and> successor q curve i = Some s}"











section \<open>Facts about decimal rendering\<close>

lemma digit_char_code: "d < 10 \<Longrightarrow> (of_char (digit_char d) :: nat) = 48 + d"
proof -
  assume "d < 10"
  then have "d \<in> {0, 1, 2, 3, 4, 5, 6, 7, 8, 9}" by auto
  then show ?thesis by (auto simp: digit_char_def)
qed

lemma digit_val_digit_char: "d < 10 \<Longrightarrow> digit_val (digit_char d) = d"
  by (simp add: digit_val_def digit_char_code)

lemma is_digit_digit_char: "d < 10 \<Longrightarrow> is_digit (digit_char d)"
  by (simp add: is_digit_def digit_char_code)

lemma str_nat_digits: "\<forall>c \<in> set (str_nat n). is_digit c"
proof (induction n rule: str_nat.induct)
  case (1 n)
  show ?case
  proof (cases "n < 10")
    case True
    then show ?thesis by (subst str_nat.simps) (simp add: is_digit_digit_char)
  next
    case False
    with "1.IH" have "\<forall>c \<in> set (str_nat (n div 10)). is_digit c" by simp
    with False show ?thesis by (subst str_nat.simps) (simp add: is_digit_digit_char)
  qed
qed

lemma str_nat_nonempty: "str_nat n \<noteq> []"
  by (subst str_nat.simps) simp

lemma nat_of_digits_snoc: "nat_of_digits (s @ [c]) = 10 * nat_of_digits s + digit_val c"
  by (simp add: nat_of_digits_def)

lemma nat_of_digits_str_nat: "nat_of_digits (str_nat n) = n"
proof (induction n rule: str_nat.induct)
  case (1 n)
  show ?case
  proof (cases "n < 10")
    case True
    then show ?thesis
      by (subst str_nat.simps) (simp add: nat_of_digits_def digit_val_digit_char)
  next
    case False
    with "1.IH" have "nat_of_digits (str_nat (n div 10)) = n div 10" by simp
    with False show ?thesis
      by (subst str_nat.simps) (simp add: nat_of_digits_snoc digit_val_digit_char)
  qed
qed

lemma str_nat_bounds:
  "0 < n \<Longrightarrow> 10 ^ (length (str_nat n) - 1) \<le> n \<and> n < 10 ^ length (str_nat n)"
proof (induction n rule: str_nat.induct)
  case (1 n)
  show ?case
  proof (cases "n < 10")
    case True
    with "1.prems" show ?thesis by (subst (1 2) str_nat.simps) simp
  next
    case False
    then have pos: "0 < n div 10" by simp
    with "1.IH" False
    have IH: "10 ^ (length (str_nat (n div 10)) - 1) \<le> n div 10"
      "n div 10 < 10 ^ length (str_nat (n div 10))" by simp_all
    have len: "length (str_nat n) = Suc (length (str_nat (n div 10)))"
      using False by (subst str_nat.simps) simp
    have ne: "0 < length (str_nat (n div 10))" using str_nat_nonempty by simp
    then obtain k where k: "length (str_nat (n div 10)) = Suc k" by (cases "length (str_nat (n div 10))") auto
    from IH k have "10 * 10 ^ k \<le> n" by simp
    moreover from IH(2) have "n < 10 * 10 ^ length (str_nat (n div 10))" by simp
    ultimately show ?thesis using len k by simp
  qed
qed

lemma str_nat_upper: "n < 10 ^ length (str_nat n)"
proof (cases "n = 0")
  case True
  then show ?thesis by simp
next
  case False
  then show ?thesis using str_nat_bounds [of n] by simp
qed

lemma str_nat_length_mono: "m \<le> n \<Longrightarrow> length (str_nat m) \<le> length (str_nat n)"
proof (cases "m = 0")
  case True
  have "Suc 0 \<le> length (str_nat n)"
    using str_nat_nonempty [of n] by (cases "str_nat n") simp_all
  moreover have "length (str_nat (0::nat)) = 1" by (subst str_nat.simps) simp
  ultimately show ?thesis using True by simp
next
  case False
  assume mn: "m \<le> n"
  from False have "(10::nat) ^ (length (str_nat m) - 1) \<le> m" using str_nat_bounds [of m] by simp
  also have "m \<le> n" by (rule mn)
  also have "n < 10 ^ length (str_nat n)" by (rule str_nat_upper)
  finally have "length (str_nat m) - 1 < length (str_nat n)" by simp
  then show ?thesis by simp
qed


lemma nat_of_digits_Cons:
  "nat_of_digits (c # s) = digit_val c * 10 ^ length s + nat_of_digits s"
proof (induction s rule: rev_induct)
  case Nil
  then show ?case by (simp add: nat_of_digits_def)
next
  case (snoc x xs)
  have "nat_of_digits (c # xs @ [x]) = 10 * nat_of_digits (c # xs) + digit_val x"
    using nat_of_digits_snoc [of "c # xs" x] by simp
  then show ?case using snoc by (simp add: nat_of_digits_snoc algebra_simps)
qed

lemma digit_val_less: "is_digit c \<Longrightarrow> digit_val c < 10"
  by (auto simp: is_digit_def digit_val_def)

lemma nat_of_digits_less:
  "\<forall>c \<in> set s. is_digit c \<Longrightarrow> nat_of_digits s < 10 ^ length s"
proof (induction s)
  case Nil
  then show ?case by (simp add: nat_of_digits_def)
next
  case (Cons c s)
  then have "nat_of_digits s < 10 ^ length s" and "digit_val c < 10"
    by (simp_all add: digit_val_less)
  then have "digit_val c * 10 ^ length s + nat_of_digits s < 10 * 10 ^ length s"
  proof -
    assume a: "nat_of_digits s < 10 ^ length s" and b: "digit_val c < 10"
    from b have "digit_val c + 1 \<le> 10" by simp
    then have m: "(digit_val c + 1) * 10 ^ length s \<le> 10 * 10 ^ length s"
      by (rule mult_le_mono1)
    have "digit_val c * 10 ^ length s + nat_of_digits s
        < digit_val c * 10 ^ length s + 10 ^ length s" using a by simp
    also have "\<dots> = (digit_val c + 1) * 10 ^ length s" by (simp add: algebra_simps)
    also note m
    finally show ?thesis .
  qed
  then show ?case by (simp add: nat_of_digits_Cons)
qed

lemma digit_code_less:
  assumes "is_digit c" "is_digit d" "digit_val c < digit_val d"
  shows "(of_char c :: nat) < of_char d"
  using assms by (auto simp: is_digit_def digit_val_def)

lemma digit_val_inj:
  assumes "is_digit c" "is_digit d" "digit_val c = digit_val d"
  shows "c = d"
proof -
  from assms have "(of_char c :: nat) = of_char d"
    unfolding is_digit_def digit_val_def by linarith
  then show ?thesis by simp
qed

lemma str_less_digits:
  assumes "length s = length t"
    and "\<forall>c \<in> set s. is_digit c" and "\<forall>c \<in> set t. is_digit c"
    and "nat_of_digits s < nat_of_digits t"
  shows "str_less s t"
  using assms
proof (induction s t rule: list_induct2)
  case Nil
  then show ?case by simp
next
  case (Cons c s d t)
  let ?k = "length s"
  have vs: "nat_of_digits s < 10 ^ ?k" using Cons.prems by (simp add: nat_of_digits_less)
  have vt: "nat_of_digits t < 10 ^ ?k"
    using Cons.prems Cons.hyps nat_of_digits_less [of t] by simp
  have lt: "digit_val c * 10 ^ ?k + nat_of_digits s < digit_val d * 10 ^ ?k + nat_of_digits t"
    using Cons.prems Cons.hyps by (simp add: nat_of_digits_Cons)
  have dc: "is_digit c" and dd: "is_digit d" using Cons.prems by simp_all
  show ?case
  proof (cases "digit_val c = digit_val d")
    case True
    then have "c = d" using dc dd by (simp add: digit_val_inj)
    moreover from True lt have "nat_of_digits s < nat_of_digits t" by simp
    then have "str_less s t" using Cons.IH Cons.prems by simp
    ultimately show ?thesis by simp
  next
    case False
    have "digit_val c < digit_val d"
    proof (rule ccontr)
      assume "\<not> digit_val c < digit_val d"
      with False have "digit_val d + 1 \<le> digit_val c" by simp
      then have "(digit_val d + 1) * 10 ^ ?k \<le> digit_val c * 10 ^ ?k"
        by (rule mult_le_mono1)
      then have "digit_val d * 10 ^ ?k + 10 ^ ?k \<le> digit_val c * 10 ^ ?k"
        by (simp add: algebra_simps)
      with vt lt show False by linarith
    qed
    then show ?thesis using dc dd by (simp add: digit_code_less)
  qed
qed

lemma str_less_prefix: "str_less (p @ s) (p @ t) = str_less s t"
  by (induction p) simp_all

lemma nat_of_digits_zeros: "nat_of_digits (replicate k CHR ''0'' @ s) = nat_of_digits s"
proof (induction k)
  case 0
  then show ?case by simp
next
  case (Suc k)
  then show ?case by (simp add: nat_of_digits_Cons digit_val_def)
qed

lemma group_number_value: "nat_of_digits (group_number i w) = i + 1"
  by (simp add: group_number_def rjust_def nat_of_digits_zeros nat_of_digits_str_nat)

lemma is_digit_zero: "is_digit CHR ''0''"
  by (simp add: is_digit_def)

lemma group_number_digits: "\<forall>c \<in> set (group_number i w). is_digit c"
proof
  fix c
  assume "c \<in> set (group_number i w)"
  then have "c \<in> set (replicate (w - length (str_nat (i + 1))) CHR ''0'') \<or> c \<in> set (str_nat (i + 1))"
    unfolding group_number_def rjust_def by (simp only: set_append Un_iff)
  then show "is_digit c"
  proof
    assume "c \<in> set (replicate (w - length (str_nat (i + 1))) CHR ''0'')"
    then have "c = CHR ''0''" by (simp only: in_set_replicate)
    then show ?thesis by (simp only: is_digit_zero)
  next
    assume "c \<in> set (str_nat (i + 1))"
    then show ?thesis using str_nat_digits by blast
  qed
qed

lemma group_number_length:
  "i < n \<Longrightarrow> length (group_number i (size_of_digits n)) = size_of_digits n"
  using str_nat_length_mono [of "i + 1" n]
  by (simp add: group_number_def rjust_def size_of_digits_def)

lemma group_number_inj:
  assumes "group_number i w = group_number j w"
  shows "i = j"
proof -
  have "i + 1 = nat_of_digits (group_number i w)" by (simp only: group_number_value)
  also have "\<dots> = nat_of_digits (group_number j w)" by (simp only: assms)
  also have "\<dots> = j + 1" by (simp only: group_number_value)
  finally show ?thesis by simp
qed

lemma size_of_digits_log:
  assumes "0 < n"
  shows "int (size_of_digits n) = \<lceil>log 10 (real (n + 1))\<rceil>"
proof -
  obtain k where k: "length (str_nat n) = Suc k"
    using str_nat_nonempty [of n] by (cases "str_nat n") auto
  from assms k have "10 ^ k \<le> n" "n < 10 ^ Suc k"
    using str_nat_bounds [of n] by simp_all
  then have "(10::nat) ^ k < n + 1" "n + 1 \<le> 10 ^ (k + 1)" by simp_all
  then have "\<lceil>log (real (10::nat)) (real (n + 1))\<rceil> = int k + 1"
    by (rule ceiling_log_nat_eq_if) simp
  then show ?thesis using k by (simp add: size_of_digits_def)
qed

section \<open>Facts about group labels and SVG identifiers\<close>

lemma replace_absent: "p \<notin> set s \<Longrightarrow> replace s (p # ps) new = s"
  by (induction s) auto

lemma g_not_digit: "is_digit c \<Longrightarrow> c \<noteq> CHR ''g''"
  by (auto simp: is_digit_def)

lemma group_svg_id_label: "group_svg_id (group_label i w) = ''nerve_feature_'' @ group_number i w"
proof -
  have "CHR ''g'' \<notin> set (group_number i w)"
    using group_number_digits [of i w] g_not_digit by blast
  then have "replace (group_number i w) ''group_'' ''nerve_feature_'' = group_number i w"
    by (rule replace_absent)
  then show ?thesis by (simp add: group_svg_id_def group_label_def)
qed

lemma group_label_inj: "group_label i w = group_label j w \<Longrightarrow> i = j"
  by (simp add: group_label_def group_number_inj)

lemma group_svg_id_inj: "group_svg_id (group_label i w) = group_svg_id (group_label j w) \<Longrightarrow> i = j"
  by (simp add: group_svg_id_label group_number_inj)

lemma label_neq_svg_id: "group_label i w \<noteq> group_svg_id (group_label j w)"
  by (simp only: group_svg_id_label) (simp add: group_label_def)

lemma label_neq_ungrouped: "group_label i w \<noteq> ''ungrouped''"
  by (simp add: group_label_def)

lemma svg_id_neq_ungrouped: "group_svg_id (group_label i w) \<noteq> ''ungrouped''"
  by (simp add: group_svg_id_label)

lemma is_group_svg_id_label: "is_group_svg_id (group_svg_id (group_label i w))"
  by (simp add: group_svg_id_label is_group_svg_id_def startswith_def)

lemma not_is_group_svg_id_label: "\<not> is_group_svg_id (group_label i w)"
  by (simp add: group_label_def is_group_svg_id_def startswith_def)

section \<open>Facts about the field sampler\<close>

lemma label_groups_other:
  assumes "\<forall>i < length gs. getName (gs ! i) \<noteq> ''marker'' \<longrightarrow>
             key \<noteq> group_label (k + i) w \<and> key \<noteq> group_svg_id (group_label (k + i) w)"
  shows "map_of (label_groups gs k w gpp) key = map_of gpp key"
  using assms
proof (induction gs arbitrary: k gpp)
  case Nil
  then show ?case by simp
next
  case (Cons g gs)
  have rest: "\<forall>i < length gs. getName (gs ! i) \<noteq> ''marker'' \<longrightarrow>
             key \<noteq> group_label (Suc k + i) w \<and> key \<noteq> group_svg_id (group_label (Suc k + i) w)"
  proof (intro allI impI)
    fix i assume "i < length gs" and "getName (gs ! i) \<noteq> ''marker''"
    then show "key \<noteq> group_label (Suc k + i) w \<and> key \<noteq> group_svg_id (group_label (Suc k + i) w)"
      using Cons.prems [rule_format, of "Suc i"] by simp
  qed
  have here: "getName g \<noteq> ''marker'' \<Longrightarrow>
      key \<noteq> group_label k w \<and> key \<noteq> group_svg_id (group_label k w)"
    using Cons.prems [rule_format, of 0] by simp
  show ?case
    using Cons.IH [OF rest] here by (simp add: update_conv')
qed

lemma label_groups_named:
  assumes "i < length gs" and "getName (gs ! i) \<noteq> ''marker''"
  shows "map_of (label_groups gs k w gpp) (group_svg_id (group_label (k + i) w))
           = Some (DisplayName (getName (gs ! i)))
       \<and> map_of (label_groups gs k w gpp) (group_label (k + i) w) = Some (Samples [])"
  using assms
proof (induction gs arbitrary: k gpp i)
  case Nil
  then show ?case by simp
next
  case (Cons g gs)
  show ?case
  proof (cases i)
    case 0
    let ?gpp = "AList.update (group_svg_id (group_label k w)) (DisplayName (getName g))
               (AList.update (group_label k w) (Samples []) gpp)"
    have a: "map_of (label_groups gs (Suc k) w ?gpp) (group_svg_id (group_label k w))
           = map_of ?gpp (group_svg_id (group_label k w))"
      by (rule label_groups_other) (auto dest: group_svg_id_inj simp: label_neq_svg_id [symmetric])
    have b: "map_of (label_groups gs (Suc k) w ?gpp) (group_label k w)
           = map_of ?gpp (group_label k w)"
      by (rule label_groups_other) (auto dest: group_label_inj simp: label_neq_svg_id)
    from 0 Cons.prems a b show ?thesis
      by (simp add: update_conv' label_neq_svg_id)
  next
    case (Suc j)
    with Cons.prems have "j < length gs" "getName (gs ! j) \<noteq> ''marker''" by simp_all
    from Cons.IH [OF this, of "Suc k"] Suc show ?thesis by simp
  qed
qed

lemma keeps_names_refl: "keeps_names gpp gpp"
  by (simp add: keeps_names_def)

lemma keeps_names_trans: "keeps_names a b \<Longrightarrow> keeps_names b c \<Longrightarrow> keeps_names a c"
  by (simp add: keeps_names_def)

lemma dict_append_keeps:
  assumes "dict_append key lpp gpp = Inr gpp'"
  shows "keeps_names gpp gpp'"
proof -
  from assms obtain xs where xs: "map_of gpp key = Some (Samples xs)"
    and gpp': "gpp' = AList.update key (Samples (xs @ [lpp])) gpp"
    by (auto simp: dict_append_def split: option.splits entry.splits)
  show ?thesis
    unfolding keeps_names_def gpp'
    using xs by (auto simp: update_conv' split: if_splits)
qed

lemma add_to_groups_keeps:
  "add_to_groups gs k w e lpp gpp b = Inr (gpp', b') \<Longrightarrow> keeps_names gpp gpp'"
proof (induction gs arbitrary: k gpp b)
  case Nil
  then show ?case by (simp add: keeps_names_refl)
next
  case (Cons g gs)
  show ?case
  proof (cases "e \<in> set (mesh_group g)")
    case True
    with Cons.prems obtain gpp1 where 1: "dict_append (group_label k w) lpp gpp = Inr gpp1"
      and 2: "add_to_groups gs (k + 1) w e lpp gpp1 True = Inr (gpp', b')"
      by (auto split: sum.splits)
    from dict_append_keeps [OF 1] Cons.IH [OF 2] show ?thesis by (rule keeps_names_trans)
  next
    case False
    with Cons.prems have "add_to_groups gs (k + 1) w e lpp gpp b = Inr (gpp', b')" by simp
    then show ?thesis by (rule Cons.IH)
  qed
qed

lemma analyze_element_keeps:
  assumes "analyze_element gl w el gpp = Inr gpp'"
  shows "keeps_names gpp gpp'"
proof (cases "sample_element el")
  case None
  with assms show ?thesis by (simp add: analyze_element_def keeps_names_refl)
next
  case (Some lpp)
  with assms obtain gpp1 b where 1: "add_to_groups gl 0 w (element_id el) lpp gpp False = Inr (gpp1, b)"
    and 2: "(if \<not> b then dict_append ''ungrouped'' lpp gpp1 else Inr gpp1) = Inr gpp'"
    by (auto simp: analyze_element_def split: sum.splits)
  have "keeps_names gpp1 gpp'"
  proof (cases b)
    case True
    with 2 show ?thesis by (simp add: keeps_names_refl)
  next
    case False
    with 2 show ?thesis by (simp add: dict_append_keeps)
  qed
  with add_to_groups_keeps [OF 1] show ?thesis by (rule keeps_names_trans)
qed

lemma analyze_loop_keeps:
  "analyze_loop gl w els gpp = Inr gpp' \<Longrightarrow> keeps_names gpp gpp'"
proof (induction els arbitrary: gpp)
  case Nil
  then show ?case by (simp add: keeps_names_refl)
next
  case (Cons el els)
  then obtain gpp1 where 1: "analyze_element gl w el gpp = Inr gpp1"
    and 2: "analyze_loop gl w els gpp1 = Inr gpp'"
    by (auto split: sum.splits)
  from analyze_element_keeps [OF 1] Cons.IH [OF 2] show ?case by (rule keeps_names_trans)
qed

lemma analyze_elements_keeps:
  assumes "analyze_elements r = Inr d" and "mesh_elements r \<noteq> []"
  shows "keeps_names
           (label_groups (group_list r) 0 (size_of_digits (length (group_list r)))
              [(''ungrouped'', Samples [])]) d"
  using assms
  by (auto simp: analyze_elements_def Let_def analyze_loop_keeps split: sum.splits if_splits)

lemma analyze_elements_name:
  assumes "analyze_elements r = Inr d" and "mesh_elements r \<noteq> []"
    and "i < length (group_list r)" and "getName (group_list r ! i) \<noteq> ''marker''"
  shows "map_of d (group_svg_id (group_label i (size_of_digits (length (group_list r)))))
           = Some (DisplayName (getName (group_list r ! i)))"
proof -
  let ?w = "size_of_digits (length (group_list r))"
  let ?d0 = "label_groups (group_list r) 0 ?w [(''ungrouped'', Samples [])]"
  have "map_of ?d0 (group_svg_id (group_label (0 + i) ?w)) = Some (DisplayName (getName (group_list r ! i)))"
    using label_groups_named [OF assms(3,4)] by blast
  moreover have "keeps_names ?d0 d" using assms(1,2) by (rule analyze_elements_keeps)
  ultimately show ?thesis by (simp add: keeps_names_def)
qed

lemma analyze_elements_samples_key:
  assumes "analyze_elements r = Inr d" and "mesh_elements r \<noteq> []"
    and "i < length (group_list r)" and "getName (group_list r ! i) \<noteq> ''marker''"
  shows "\<exists>xs. map_of d (group_label i (size_of_digits (length (group_list r)))) = Some (Samples xs)"
proof -
  let ?w = "size_of_digits (length (group_list r))"
  let ?d0 = "label_groups (group_list r) 0 ?w [(''ungrouped'', Samples [])]"
  have 0: "map_of ?d0 (group_label (0 + i) ?w) = Some (Samples [])"
    using label_groups_named [OF assms(3,4)] by blast
  have k: "keeps_names ?d0 d" using assms(1,2) by (rule analyze_elements_keeps)
  from 0 have "group_label i ?w \<in> dom (map_of ?d0)" by auto
  with k have "group_label i ?w \<in> dom (map_of d)" by (simp add: keeps_names_def)
  then obtain e where e: "map_of d (group_label i ?w) = Some e" by auto
  show ?thesis
  proof (cases e)
    case (Samples xs)
    with e show ?thesis by simp
  next
    case (DisplayName n)
    with e k have "map_of ?d0 (group_label i ?w) = Some (DisplayName n)"
      by (simp add: keeps_names_def)
    with 0 show ?thesis by simp
  qed
qed

lemma analyze_elements_marker:
  assumes "analyze_elements r = Inr d"
    and "i < length (group_list r)" and "getName (group_list r ! i) = ''marker''"
  shows "map_of d (group_label i (size_of_digits (length (group_list r)))) = None
       \<and> map_of d (group_svg_id (group_label i (size_of_digits (length (group_list r))))) = None"
proof (cases "mesh_elements r = []")
  case True
  with assms(1) have "d = []" by (simp add: analyze_elements_def)
  then show ?thesis by simp
next
  case False
  let ?w = "size_of_digits (length (group_list r))"
  let ?d0 = "label_groups (group_list r) 0 ?w [(''ungrouped'', Samples [])]"
  have k: "keeps_names ?d0 d" using assms(1) False by (rule analyze_elements_keeps)
  have a: "map_of ?d0 (group_label i ?w) = map_of [(''ungrouped'', Samples [])] (group_label i ?w)"
    by (rule label_groups_other) (use assms(3) in \<open>auto dest: group_label_inj simp: label_neq_svg_id\<close>)
  have b: "map_of ?d0 (group_svg_id (group_label i ?w))
             = map_of [(''ungrouped'', Samples [])] (group_svg_id (group_label i ?w))"
    by (rule label_groups_other)
      (use assms(3) in \<open>auto dest: group_svg_id_inj simp: label_neq_svg_id [symmetric]\<close>)
  from a b have "group_label i ?w \<notin> dom (map_of ?d0)" "group_svg_id (group_label i ?w) \<notin> dom (map_of ?d0)"
    by (auto simp: label_neq_ungrouped svg_id_neq_ungrouped)
  with k show ?thesis by (auto simp: keeps_names_def)
qed

lemma str_nat_small: "n < 10 \<Longrightarrow> str_nat n = [digit_char n]"
  by (subst str_nat.simps) simp

lemma example_analysis: "analyze_elements example_region = Inr example_path_points"
  by (simp add: analyze_elements_def example_region_def example_element_def example_path_points_def
      size_of_digits_def str_nat_small digit_char_def group_label_def group_number_def rjust_def
      group_svg_id_def analyze_element_def sample_element_def dict_append_def)

lemma label_groups_dom:
  assumes "key \<in> dom (map_of (label_groups gs k w gpp))" and "key \<notin> dom (map_of gpp)"
  shows "\<exists>i < length gs. getName (gs ! i) \<noteq> ''marker'' \<and>
           (key = group_label (k + i) w \<or> key = group_svg_id (group_label (k + i) w))"
proof (rule ccontr)
  assume "\<not> ?thesis"
  then have "\<forall>i < length gs. getName (gs ! i) \<noteq> ''marker'' \<longrightarrow>
             key \<noteq> group_label (k + i) w \<and> key \<noteq> group_svg_id (group_label (k + i) w)"
    by blast
  then have "map_of (label_groups gs k w gpp) key = map_of gpp key"
    by (rule label_groups_other)
  with assms show False by (simp add: dom_def)
qed

lemma analyze_elements_svg_key:
  assumes "analyze_elements r = Inr d" and "key \<in> dom (map_of d)" and "is_group_svg_id key"
  shows "\<exists>i < length (group_list r). getName (group_list r ! i) \<noteq> ''marker'' \<and>
           key = group_svg_id (group_label i (size_of_digits (length (group_list r)))) \<and>
           map_of d key = Some (DisplayName (getName (group_list r ! i)))"
proof -
  let ?w = "size_of_digits (length (group_list r))"
  let ?d0 = "label_groups (group_list r) 0 ?w [(''ungrouped'', Samples [])]"
  have ne: "mesh_elements r \<noteq> []"
  proof
    assume "mesh_elements r = []"
    with assms(1) have "d = []" by (simp add: analyze_elements_def)
    with assms(2) show False by simp
  qed
  have k: "keeps_names ?d0 d" using assms(1) ne by (rule analyze_elements_keeps)
  with assms(2) have 1: "key \<in> dom (map_of ?d0)" by (simp add: keeps_names_def)
  have 2: "key \<notin> dom (map_of [(''ungrouped'', Samples [])])"
    using assms(3) by (auto simp: is_group_svg_id_def startswith_def)
  from label_groups_dom [OF 1 2] obtain i where i: "i < length (group_list r)"
    "getName (group_list r ! i) \<noteq> ''marker''"
    and key: "key = group_label i ?w \<or> key = group_svg_id (group_label i ?w)" by auto
  from key assms(3) have key': "key = group_svg_id (group_label i ?w)"
    by (auto simp: not_is_group_svg_id_label)
  have "map_of d key = Some (DisplayName (getName (group_list r ! i)))"
    unfolding key' using assms(1) ne i by (rule analyze_elements_name)
  with i key' show ?thesis by blast
qed

lemma example_width: "size_of_digits (length (group_list example_region)) = 1"
  by (simp add: example_region_def size_of_digits_def str_nat_small)

lemma example_labels:
  "group_label (Suc 0) (size_of_digits (length (group_list example_region))) = ''group_2''"
  "group_svg_id (group_label (Suc 0) (size_of_digits (length (group_list example_region)))) = ''nerve_feature_2''"
  "group_svg_id (group_label 2 (size_of_digits (length (group_list example_region)))) = ''nerve_feature_3''"
  "group_number 2 (size_of_digits (length (group_list example_region))) = ''3''"
  "group_svg_id ''group_2'' = ''nerve_feature_2''"
  by (simp_all add: group_svg_id_label)
     (simp_all add: example_width group_label_def group_number_def rjust_def str_nat_small
        digit_char_def group_svg_id_def)

section \<open>Facts about the converter and the marker extractor\<close>

lemma take_2_long: "2 \<le> length xs \<Longrightarrow> take 2 xs = [xs ! 0, xs ! 1]"
proof -
  assume "2 \<le> length xs"
  then obtain a b rest where "xs = a # b # rest"
    by (cases xs; cases "tl xs") auto
  then show ?thesis by simp
qed

lemma marker_loop_returns:
  assumes "\<forall>p \<in> set ps. \<exists>xs. evaluateReal iv (marker_data_coordinates r) p = Components xs"
  shows "\<exists>ms. marker_loop iv r rand i ps = Inr ms"
  using assms
proof (induction ps arbitrary: i)
  case Nil
  then show ?case by simp
next
  case (Cons p ps)
  then obtain xs where xs: "evaluateReal iv (marker_data_coordinates r) p = Components xs"
    by auto
  from Cons obtain ms where "marker_loop iv r rand (i + 1) ps = Inr ms" by auto
  with xs show ?case by (simp add: Let_def slice2_def)
qed

lemma marker_loop_raises:
  assumes "p \<in> set ps" and "evaluateReal iv (marker_data_coordinates r) p = Scalar v"
  shows "marker_loop iv r rand i ps = Inl TypeError"
  using assms(1)
proof (induction ps arbitrary: i)
  case Nil
  then show ?case by simp
next
  case (Cons a ps)
  show ?case
  proof (cases "evaluateReal iv (marker_data_coordinates r) a")
    case (Scalar w)
    then show ?thesis by (simp add: Let_def slice2_def)
  next
    case (Components xs)
    with assms(2) have "p \<noteq> a" by auto
    with Cons.prems have "p \<in> set ps" by simp
    then have "marker_loop iv r rand (i + 1) ps = Inl TypeError" by (rule Cons.IH)
    with Components show ?thesis by (simp add: Let_def slice2_def)
  qed
qed

lemma marker_loop_length: "marker_loop iv r rand i ps = Inr ms \<Longrightarrow> length ms = length ps"
proof (induction ps arbitrary: i ms)
  case Nil
  then show ?case by simp
next
  case (Cons p ps)
  then show ?case by (auto simp: Let_def split: sum.splits)
qed

lemma marker_loop_nth:
  assumes "marker_loop iv r rand i ps = Inr ms" and "k < length ps"
  shows "\<exists>xs. evaluateReal iv (marker_data_coordinates r) (ps ! k) = Components xs \<and>
     ms ! k =
       (''marker_'' @ str_int (ps ! k), take 2 xs,
        (case marker_data_name r of
           Some f \<Rightarrow> f (ps ! k)
         | None \<Rightarrow> ''Unnamed marker '' @ str_nat (i + k + 1)),
        (case marker_data_id r of
           Some f \<Rightarrow> f (ps ! k)
         | None \<Rightarrow> ''UBERON:99'' @ format_0eq5 (rand (i + k))))"
  using assms
proof (induction ps arbitrary: i k ms)
  case Nil
  then show ?case by simp
next
  case (Cons p ps)
  from Cons.prems(1) obtain xs ms' where xs: "evaluateReal iv (marker_data_coordinates r) p = Components xs"
    and ms': "marker_loop iv r rand (i + 1) ps = Inr ms'"
    and ms: "ms = (''marker_'' @ str_int p, take 2 xs,
        (case marker_data_name r of Some f \<Rightarrow> f p | None \<Rightarrow> ''Unnamed marker '' @ str_nat (i + 1)),
        (case marker_data_id r of Some f \<Rightarrow> f p | None \<Rightarrow> ''UBERON:99'' @ format_0eq5 (rand i)))
        # ms'"
    by (auto simp: Let_def slice2_def split: sum.splits zinc_values.splits)
  show ?case
  proof (cases k)
    case 0
    with xs ms show ?thesis by (simp split: option.splits)
  next
    case (Suc j)
    with Cons.prems(2) have "j < length ps" by simp
    from Cons.IH [OF ms' this] Suc ms show ?thesis by (simp split: option.splits)
  qed
qed

lemma format_0eq5_digits:
  assumes "1 \<le> n" and "n \<le> 99999"
  shows "length (format_0eq5 n) = 5 \<and> (\<forall>c \<in> set (format_0eq5 n). is_digit c)
       \<and> nat_of_digits (format_0eq5 n) = nat n"
proof -
  let ?s = "str_nat (nat n)"
  have pos: "0 < nat n" using assms by simp
  have "10 ^ (length ?s - 1) \<le> nat n" using str_nat_bounds [OF pos] by simp
  also have "nat n < 10 ^ 5" using assms by simp
  finally have "length ?s - 1 < 5" by (simp only: power_strict_increasing_iff [of 10] one_less_numeral_iff semiring_norm)
  then have len: "length ?s \<le> 5" by simp
  have f: "format_0eq5 n = replicate (5 - length ?s) CHR ''0'' @ ?s"
    using assms by (simp add: format_0eq5_def rjust_def)
  have "\<forall>c \<in> set (format_0eq5 n). is_digit c"
    unfolding f using str_nat_digits [of "nat n"] is_digit_zero by auto
  moreover have "length (format_0eq5 n) = 5" unfolding f using len by simp
  moreover have "nat_of_digits (format_0eq5 n) = nat n"
    unfolding f by (simp add: nat_of_digits_zeros nat_of_digits_str_nat)
  ultimately show ?thesis by simp
qed

lemma example_markers_group:
  "find_markers_group example_region
     = Some \<lparr>getName = ''marker'', mesh_group = [], datapoints = [5]\<rparr>"
  by (simp add: find_markers_group_def example_region_def)

lemma format_0eq5_42: "format_0eq5 42 = ''00042''"
proof -
  have "str_nat 42 = ''42''" by (simp add: str_nat.simps digit_char_def)
  moreover have "replicate 3 CHR ''0'' = ''000''" by (simp add: numeral_3_eq_3)
  ultimately show ?thesis by (simp add: format_0eq5_def rjust_def)
qed

lemma example_markers:
  "calculate_markers (Components []) example_region (\<lambda>j. 42)
     = Inr [(''marker_5'', [], ''Unnamed marker 1'', ''UBERON:9900042'')]"
proof -
  have "str_int 5 = ''5''" by (simp add: str_int_def str_nat_small digit_char_def)
  moreover have "str_nat (0 + 1) = ''1''" by (simp add: str_nat_small digit_char_def)
  ultimately show ?thesis
    by (simp add: calculate_markers_def example_markers_group)
       (simp add: example_region_def evaluateReal_def slice2_def format_0eq5_42)
qed

section \<open>Facts about the annotation CSV\<close>

lemma rows_have_two_columns_iff: "rows_have_two_columns rows = (\<forall>row \<in> set rows. length row = 2)"
  by (induction rows) auto

lemma two_columns: "length row = 2 \<Longrightarrow> row = [row ! 0, row ! 1]"
proof -
  assume "length row = 2"
  then obtain a b where "row = [a, b]"
    by (cases row; cases "tl row") auto
  then show ?thesis by simp
qed

lemma is_annotation_csv_file_iff:
  "rows \<noteq> [] \<Longrightarrow>
   is_annotation_csv_file rows =
     (hd rows = [''Term ID'', ''Group name''] \<and> (\<forall>row \<in> set (tl rows). length row = 2))"
proof (cases rows)
  case Nil
  assume "rows \<noteq> []"
  with Nil show ?thesis by simp
next
  case (Cons row rest)
  have "(length row = 2 \<and> row ! 0 = ''Term ID'' \<and> row ! 1 = ''Group name'')
        = (row = [''Term ID'', ''Group name''])"
    using two_columns [of row] by auto
  with Cons show ?thesis
    by (simp add: is_annotation_csv_file_def rows_have_two_columns_iff)
qed

lemma reverse_rows_map:
  assumes "\<forall>row \<in> set rows. length row = 2"
  shows "\<exists>m. reverse_rows rows acc = Inr m
           \<and> map_of m = map_of (rev (map (\<lambda>row. (row ! 1, row ! 0)) rows) @ acc)"
  using assms
proof (induction rows arbitrary: acc)
  case Nil
  then show ?case by simp
next
  case (Cons row rows)
  then have "length row = 2" by simp
  then obtain a b where row: "row = [a, b]"
    by (cases row; cases "tl row") auto
  from Cons.prems have "\<forall>row \<in> set rows. length row = 2" by simp
  from Cons.IH [OF this, of "AList.update b a acc"]
  obtain m where m: "reverse_rows rows (AList.update b a acc) = Inr m"
    and mm: "map_of m = map_of (rev (map (\<lambda>row. (row ! 1, row ! 0)) rows) @ AList.update b a acc)"
    by blast
  have "map_of m = map_of (rev (map (\<lambda>row. (row ! 1, row ! 0)) (row # rows)) @ acc)"
    unfolding mm row by (simp add: update_conv' map_add_def fun_eq_iff split: option.splits)
  with m row show ?case by simp
qed

lemma load_reversed_map_accepted:
  assumes "is_annotation_csv_file rows"
  shows "\<exists>m. load_reversed_map (Some rows) = Inr (Some m)
           \<and> map_of m = map_of (rev (map (\<lambda>row. (row ! 1, row ! 0)) (tl rows)))"
proof -
  have "\<forall>row \<in> set (tl rows). length row = 2"
  proof (cases rows)
    case Nil
    then show ?thesis by simp
  next
    case (Cons row rest)
    with assms show ?thesis
      by (simp add: is_annotation_csv_file_def rows_have_two_columns_iff split: if_splits)
  qed
  from reverse_rows_map [OF this, of "[]"] assms show ?thesis
    by (auto simp: load_reversed_map_def reverse_map_annotations_def)
qed

lemma example_csv_accepted: "is_annotation_csv_file example_csv"
  by (simp add: is_annotation_csv_file_def example_csv_def)

lemma example_csv_map:
  "load_reversed_map (Some example_csv) = Inr (Some [(''ureter'', ''UBERON:0001255'')])"
  by (simp add: load_reversed_map_def is_annotation_csv_file_def example_csv_def
      reverse_map_annotations_def)

section \<open>Facts about the view box\<close>

lemma py_int_lower: "z - 1 < real_of_int (py_int z)"
  by (simp add: py_int_def) linarith

lemma py_int_upper: "real_of_int (py_int z) < z + 1"
  by (simp add: py_int_def) linarith

lemma py_int_nonneg: "0 \<le> z \<Longrightarrow> real_of_int (py_int z) \<le> z"
  by (simp add: py_int_def)

lemma Min_insert_min:
  "finite S \<Longrightarrow> Min (insert (min a b) S) = Min (insert b (insert a S))"
  by (cases "S = {}") (auto simp: min.commute min.left_commute)

lemma Max_insert_max:
  "finite S \<Longrightarrow> Max (insert (max a b) S) = Max (insert b (insert a S))"
  by (cases "S = {}") (auto simp: max.commute max.left_commute)

lemma fold_bbox_eq:
  "fold_bbox paths (b0, b1, b2, b3) =
     (Min (insert b0 (fst ` set paths)),
      Max (insert b1 ((fst \<circ> snd) ` set paths)),
      Min (insert b2 ((fst \<circ> snd \<circ> snd) ` set paths)),
      Max (insert b3 ((snd \<circ> snd \<circ> snd) ` set paths)))"
proof (induction paths arbitrary: b0 b1 b2 b3)
  case Nil
  then show ?case by simp
next
  case (Cons p paths)
  obtain p0 p1 p2 p3 where p: "p = (p0, p1, p2, p3)" by (cases p) auto
  show ?case
    unfolding p by (simp add: Cons.IH Min_insert_min Max_insert_max del: Min_insert Max_insert)
qed


lemma fold_bbox_true:
  assumes "paths \<noteq> []"
    and "Min (fst ` set paths) \<le> 999999999"
    and "- 999999999 \<le> Max ((fst \<circ> snd) ` set paths)"
    and "Min ((fst \<circ> snd \<circ> snd) ` set paths) \<le> 999999999"
    and "- 999999999 \<le> Max ((snd \<circ> snd \<circ> snd) ` set paths)"
  shows "fold_bbox paths (999999999, - 999999999, 999999999, - 999999999) =
     (Min (fst ` set paths), Max ((fst \<circ> snd) ` set paths),
      Min ((fst \<circ> snd \<circ> snd) ` set paths), Max ((snd \<circ> snd \<circ> snd) ` set paths))"
proof -
  have ne: "set paths \<noteq> {}" using assms(1) by simp
  have "Min (insert 999999999 (fst ` set paths)) = min 999999999 (Min (fst ` set paths))"
    using ne by (intro Min_insert) simp_all
  then have "Min (insert 999999999 (fst ` set paths)) = Min (fst ` set paths)"
    using assms(2) by (simp only: min_absorb2)
  moreover have "Max (insert (- 999999999) ((fst \<circ> snd) ` set paths))
      = max (- 999999999) (Max ((fst \<circ> snd) ` set paths))"
    using ne by (intro Max_insert) simp_all
  then have "Max (insert (- 999999999) ((fst \<circ> snd) ` set paths)) = Max ((fst \<circ> snd) ` set paths)"
    using assms(3) by (simp only: max_absorb2)
  moreover have "Min (insert 999999999 ((fst \<circ> snd \<circ> snd) ` set paths))
      = min 999999999 (Min ((fst \<circ> snd \<circ> snd) ` set paths))"
    using ne by (intro Min_insert) simp_all
  then have "Min (insert 999999999 ((fst \<circ> snd \<circ> snd) ` set paths))
      = Min ((fst \<circ> snd \<circ> snd) ` set paths)"
    using assms(4) by (simp only: min_absorb2)
  moreover have "Max (insert (- 999999999) ((snd \<circ> snd \<circ> snd) ` set paths))
      = max (- 999999999) (Max ((snd \<circ> snd \<circ> snd) ` set paths))"
    using ne by (intro Max_insert) simp_all
  then have "Max (insert (- 999999999) ((snd \<circ> snd \<circ> snd) ` set paths))
      = Max ((snd \<circ> snd \<circ> snd) ` set paths)"
    using assms(5) by (simp only: max_absorb2)
  ultimately show ?thesis by (simp only: fold_bbox_eq)
qed

lemma py_int_floor: "0 \<le> z \<Longrightarrow> py_int z = \<lfloor>z\<rfloor>"
  by (simp add: py_int_def)

lemma left_edge_bounds:
  fixes lo s d :: real
  assumes "\<bar>s - (lo + 0.5)\<bar> \<le> d" and "0 \<le> s"
  shows "real_of_int (py_int s - view_margin) \<le> lo - 9.5 + d"
    and "lo - 10.5 - d < real_of_int (py_int s - view_margin)"
proof -
  have f: "py_int s = \<lfloor>s\<rfloor>" using assms(2) by (rule py_int_floor)
  have 1: "real_of_int \<lfloor>s\<rfloor> \<le> s" by simp
  have 2: "s - 1 < real_of_int \<lfloor>s\<rfloor>" by linarith
  from assms(1) have 3: "s \<le> lo + 0.5 + d" and 4: "lo + 0.5 - d \<le> s" by (simp_all add: abs_le_iff)
  have 5: "real_of_int (py_int s - view_margin) = real_of_int \<lfloor>s\<rfloor> - 10"
    unfolding f by (simp add: view_margin_def)
  from 1 3 show "real_of_int (py_int s - view_margin) \<le> lo - 9.5 + d"
    unfolding 5 by linarith
  from 2 4 show "lo - 10.5 - d < real_of_int (py_int s - view_margin)"
    unfolding 5 by linarith
qed

lemma right_edge_bound:
  fixes lo hi s w t d :: real
  assumes "\<bar>s - (lo + 0.5)\<bar> \<le> d" and "0 \<le> s"
    and "\<bar>w - (hi - lo)\<bar> \<le> d" and "\<bar>t - (w + 0.5)\<bar> \<le> d" and "0 \<le> t"
  shows "hi + 9 - 3 * d < real_of_int (py_int s - view_margin + (py_int t + 2 * view_margin))"
proof -
  have fs: "py_int s = \<lfloor>s\<rfloor>" using assms(2) by (rule py_int_floor)
  have ft: "py_int t = \<lfloor>t\<rfloor>" using assms(5) by (rule py_int_floor)
  have 1: "s - 1 < real_of_int \<lfloor>s\<rfloor>" by linarith
  have 2: "t - 1 < real_of_int \<lfloor>t\<rfloor>" by linarith
  from assms(1) have 3: "lo + 0.5 - d \<le> s" by (simp add: abs_le_iff)
  from assms(3) have 4: "hi - lo - d \<le> w" by (simp add: abs_le_iff)
  from assms(4) have 5: "w + 0.5 - d \<le> t" by (simp add: abs_le_iff)
  have 6: "real_of_int (py_int s - view_margin + (py_int t + 2 * view_margin))
      = real_of_int \<lfloor>s\<rfloor> + real_of_int \<lfloor>t\<rfloor> + 10"
    unfolding fs ft by (simp add: view_margin_def)
  from 1 2 3 4 5 show ?thesis unfolding 6 by linarith
qed

lemma example_view_box:
  "view_box_of_paths (+) (-) [(3/4, 19/4, 3/4, 19/4)] = (- 9, - 9, 24, 24)"
  by (simp add: view_box_of_paths_def view_box_def py_int_def view_margin_def)

section \<open>Facts about the serializer and the properties\<close>

lemma bezier_groups_keys:
  "key \<in> fst ` set (bezier_groups ks pd bz) \<Longrightarrow>
   key \<in> fst ` set bz \<or> (\<exists>c cs. map_of pd key = Some (Samples (c # cs)))"
proof (induction ks arbitrary: bz)
  case Nil
  then show ?case by simp
next
  case (Cons k ks)
  let ?bz = "case map_of pd k of
          Some (Samples (c # cs)) \<Rightarrow>
            AList.update k
              (map (\<lambda>curve_pts. calculate_bezier_curve (fst curve_pts) (snd curve_pts)) (c # cs))
              bz
        | _ \<Rightarrow> bz"
  from Cons.prems have "key \<in> fst ` set (bezier_groups ks pd ?bz)" by simp
  from Cons.IH [OF this]
  show ?case
  proof
    assume "key \<in> fst ` set ?bz"
    then show ?thesis
      by (auto simp: dom_update split: option.splits entry.splits list.splits)
  next
    assume "\<exists>c cs. map_of pd key = Some (Samples (c # cs))"
    then show ?thesis by blast
  qed
qed

lemma empty_group_not_converted:
  "map_of d key = Some (Samples []) \<Longrightarrow> key \<notin> fst ` set (calculate_bezier_control_points d)"
  using bezier_groups_keys [of key "map fst d" d "[]"]
  by (auto simp: calculate_bezier_control_points_def)

lemma group_paths_svg_length:
  "group_paths_svg q f bz = Some (Inr ps) \<Longrightarrow> length ps = length bz"
proof (induction bz arbitrary: ps)
  case Nil
  then show ?case by simp
next
  case (Cons a bz)
  obtain g cs where a: "a = (g, cs)" by (cases a) auto
  from Cons.prems obtain p ps' where "group_paths_svg q f bz = Some (Inr ps')" and "ps = p # ps'"
    unfolding a by (auto split: option.splits sum.splits)
  with Cons.IH show ?case by simp
qed

lemma centreline_features_total:
  assumes "\<forall>key \<in> set ks. is_group_svg_id key \<longrightarrow> (\<exists>n. map_of pp key = Some (DisplayName n))"
  shows "\<exists>f. centreline_features ks pp rm f0 = Inr f"
  using assms
proof (induction ks arbitrary: f0)
  case Nil
  then show ?case by simp
next
  case (Cons k ks)
  then have rest: "\<forall>key \<in> set ks. is_group_svg_id key \<longrightarrow> (\<exists>n. map_of pp key = Some (DisplayName n))"
    by simp
  show ?case
  proof (cases "is_group_svg_id k")
    case True
    with Cons.prems obtain n where n: "map_of pp k = Some (DisplayName n)" by auto
    obtain ft where ft: "centreline_feature (DisplayName n) rm = Inr ft"
      by (cases rm) (simp_all add: centreline_feature_def)
    from Cons.IH [OF rest, of "AList.update k ft f0"] True n ft show ?thesis by simp
  next
    case False
    with Cons.IH [OF rest, of f0] show ?thesis by simp
  qed
qed

lemma centreline_features_lookup:
  assumes "centreline_features ks pp rm f0 = Inr f"
    and "is_group_svg_id key" and "map_of pp key = Some (DisplayName n)"
    and "key \<in> set ks \<or> (\<exists>m. map_of f0 key = Some (Centreline (DisplayName n) m))"
  shows "\<exists>m. map_of f key = Some (Centreline (DisplayName n) m)"
  using assms
proof (induction ks arbitrary: f0)
  case Nil
  then show ?case by simp
next
  case (Cons k ks)
  show ?case
  proof (cases "is_group_svg_id k")
    case False
    with Cons.prems have 1: "centreline_features ks pp rm f0 = Inr f" by simp
    from False Cons.prems(2,4) have "key \<in> set ks \<or> (\<exists>m. map_of f0 key = Some (Centreline (DisplayName n) m))"
      by auto
    from Cons.IH [OF 1 Cons.prems(2,3) this] show ?thesis .
  next
    case True
    with Cons.prems(1) obtain e ft where e: "map_of pp k = Some e"
      and ft: "centreline_feature e rm = Inr ft"
      and 1: "centreline_features ks pp rm (AList.update k ft f0) = Inr f"
      by (auto split: option.splits sum.splits)
    have "key \<in> set ks \<or> (\<exists>m. map_of (AList.update k ft f0) key = Some (Centreline (DisplayName n) m))"
    proof (cases "k = key")
      case True
      with e Cons.prems(3) have "e = DisplayName n" by simp
      with ft have "\<exists>m. ft = Centreline (DisplayName n) m"
        by (cases rm) (auto simp: centreline_feature_def)
      with True show ?thesis by (auto simp: update_conv')
    next
      case False
      with Cons.prems(4) show ?thesis by (auto simp: update_conv')
    qed
    from Cons.IH [OF 1 Cons.prems(2,3) this] show ?thesis .
  qed
qed

lemma marker_features_other:
  "key \<notin> fst ` set ms \<Longrightarrow> map_of (marker_features ms f) key = map_of f key"
  by (induction ms arbitrary: f) (auto simp: update_conv')

lemma marker_features_marker:
  assumes "key \<in> fst ` set ms \<or> (\<exists>n mo. map_of f key = Some (MarkerFeature n mo ''orange''))"
  shows "\<exists>n mo. map_of (marker_features ms f) key = Some (MarkerFeature n mo ''orange'')"
  using assms
proof (induction ms arbitrary: f)
  case Nil
  then show ?case by simp
next
  case (Cons m ms)
  let ?f = "AList.update (fst m)
          (MarkerFeature (fst (snd (snd m))) (snd (snd (snd m))) ''orange'') f"
  have "key \<in> fst ` set ms \<or> (\<exists>n mo. map_of ?f key = Some (MarkerFeature n mo ''orange''))"
    using Cons.prems by (auto simp: update_conv')
  from Cons.IH [OF this] show ?case by simp
qed

lemma marker_loop_keys:
  "marker_loop iv r rand i ps = Inr ms \<Longrightarrow> m \<in> set ms \<Longrightarrow> \<exists>s. fst m = ''marker_'' @ s"
proof (induction ps arbitrary: i ms)
  case Nil
  then show ?case by simp
next
  case (Cons p ps)
  from Cons.prems(1) obtain xy ms' where ms': "marker_loop iv r rand (i + 1) ps = Inr ms'"
    and ms: "\<exists>a b. ms = (''marker_'' @ str_int p, xy, a, b) # ms'"
    by (auto simp: Let_def split: sum.splits)
  from ms Cons.prems(2) have "fst m = ''marker_'' @ str_int p \<or> m \<in> set ms'" by auto
  then show ?case
  proof
    assume "fst m = ''marker_'' @ str_int p"
    then show ?thesis by blast
  next
    assume "m \<in> set ms'"
    from Cons.IH [OF ms' this] show ?thesis .
  qed
qed

lemma calculate_markers_keys:
  assumes "calculate_markers iv r rand = Inr ms" and "m \<in> set ms"
  shows "\<not> is_group_svg_id (fst m)"
proof -
  have "\<exists>s. fst m = ''marker_'' @ s"
  proof (cases "find_markers_group r")
    case None
    with assms show ?thesis by (simp add: calculate_markers_def)
  next
    case (Some g)
    with assms(1) have "marker_loop iv r rand 0 (datapoints g) = Inr ms"
      by (simp add: calculate_markers_def)
    from marker_loop_keys [OF this assms(2)] show ?thesis .
  qed
  then show ?thesis by (auto simp: is_group_svg_id_def startswith_def)
qed

lemma marker_svg_short: "length xy < 2 \<Longrightarrow> marker_svg f (a, xy, b, c) = []"
  by (cases xy; cases "tl xy") (auto simp: marker_svg_def)

lemma marker_loop_short:
  assumes "length v < 2" and "marker_data_coordinates r = None"
    and "marker_loop (Components v) r rand i ps = Inr ms"
  shows "concat (map (marker_svg f) ms) = []"
  using assms(3)
proof (induction ps arbitrary: i ms)
  case Nil
  then show ?case by simp
next
  case (Cons p ps)
  from Cons.prems obtain ms' a b where ms': "marker_loop (Components v) r rand (i + 1) ps = Inr ms'"
    and ms: "ms = (a, take 2 v, b) # ms'"
    using assms(2) by (auto simp: Let_def evaluateReal_def slice2_def split: sum.splits)
  have "marker_svg f (a, take 2 v, b) = []"
    using assms(1) marker_svg_short [of "take 2 v" f a "fst b" "snd b"] by simp
  with Cons.IH [OF ms'] ms show ?case by simp
qed

lemma load_reversed_map_total: "\<exists>rm. load_reversed_map csv = Inr rm"
proof (cases csv)
  case None
  then show ?thesis by (simp add: load_reversed_map_def)
next
  case (Some rows)
  show ?thesis
  proof (cases "is_annotation_csv_file rows")
    case True
    from load_reversed_map_accepted [OF this] Some show ?thesis by blast
  next
    case False
    with Some show ?thesis by (simp add: load_reversed_map_def)
  qed
qed

lemma analyze_elements_names:
  assumes "analyze_elements r = Inr d"
  shows "\<forall>key \<in> set (map fst d). is_group_svg_id key \<longrightarrow> (\<exists>n. map_of d key = Some (DisplayName n))"
proof (intro ballI impI)
  fix key assume "key \<in> set (map fst d)" and s: "is_group_svg_id key"
  then have "key \<in> dom (map_of d)" by (simp add: dom_map_of_conv_image_fst)
  from analyze_elements_svg_key [OF assms this s] show "\<exists>n. map_of d key = Some (DisplayName n)"
    by blast
qed

lemma example_bezier:
  "calculate_bezier_control_points example_path_points
     = [(''group_1'', [([0, 0], [1, 0], [2, 0], [3, 0])])]"
  by (simp add: calculate_bezier_control_points_def example_path_points_def
      calculate_bezier_curve_def add_def sub_def div_vec_def)

lemma example_connected:
  "connected_segments exact_quantize [([0, 0], [1, 0], [2, 0], [3, 0])]
     = Some (Inr [[([0, 0], [1, 0], [2, 0], [3, 0])]])"
  by (simp add: connected_segments_def curve_start_def curve_end_def create_key_def py_int_def
      exact_quantize_def uf_find.simps follow.simps)

lemma example_fmt: "fmt example_ext 0 = ''0''" "fmt example_ext 1 = ''1''"
  "fmt example_ext 2 = ''2''" "fmt example_ext 3 = ''3''"
  by (simp_all add: example_ext_def str_int_def str_nat_small digit_char_def)

lemma example_quantize: "quantize example_ext = exact_quantize"
  by (simp add: example_ext_def)

lemma example_group_paths:
  "group_paths_svg exact_quantize (fmt example_ext) [(''group_1'', [([0, 0], [1, 0], [2, 0], [3, 0])])]
     = Some (Inr [''<path d=\"M 0 0 C 1 0, 2 0, 3 0\" stroke=\"#01136e\" fill=\"none\">'' @
        ''<title>.centreline id(nerve_feature_1)</title></path>''])"
  by (simp add: example_connected write_connected_svg_bezier_path_def section_svg_def
      pt_str_def example_fmt group_svg_id_def)

lemma example_view_box_attribute:
  "view_box_attribute (view_box_of_paths (+) (-) [(0, 3, 0, 0)]) = ''viewBox=\"-10 -10 23 20\"''"
proof -
  have "view_box_of_paths (+) (-) [(0, 3, 0, 0)] = (- 10, - 10, 23, 20)"
    by (simp add: view_box_of_paths_def view_box_def py_int_def view_margin_def)
  moreover have "str_int (- 10) = ''-10''" "str_int 23 = ''23''" "str_int 20 = ''20''"
    by (simp_all add: str_int_def str_nat.simps digit_char_def)
  ultimately show ?thesis by (simp add: view_box_attribute_def)
qed

lemma example_rand_fun: "example_rand = (\<lambda>j. 42)"
  by (simp add: fun_eq_iff example_rand_def)

lemma example_export_markers:
  "calculate_markers (invalid_values example_ext) example_region example_rand
     = Inr [(''marker_5'', [], ''Unnamed marker 1'', ''UBERON:9900042'')]"
proof -
  have "invalid_values example_ext = Components []" by (simp add: example_ext_def)
  then show ?thesis by (simp add: example_rand_fun example_markers)
qed

lemma example_export:
  "export_flatmapsvg_from_scene example_ext example_region None example_rand
     = Some (Inr example_artifacts)"
proof -
  note m = example_export_markers
  have w: "write_into_svg_format exact_quantize (fmt example_ext)
             [(''group_1'', [([0, 0], [1, 0], [2, 0], [3, 0])])]
             [(''marker_5'', [], ''Unnamed marker 1'', ''UBERON:9900042'')]
     = Some (Inr example_svg_text)"
    unfolding write_into_svg_format_def example_group_paths
    by (simp add: marker_svg_def example_svg_text_def)
  have b: "svg2paths_bbox example_ext s = [(0, 3, 0, 0)]" for s
    by (simp add: example_ext_def)
  have p: "toprettyxml example_ext s = s" for s by (simp add: example_ext_def)
  have a: "float_add example_ext = (+)" "float_sub example_ext = (-)"
    by (simp_all add: example_ext_def)
  have r: "replace example_svg_text ''viewBox=\"WWW XXX YYY ZZZ\"'' ''viewBox=\"-10 -10 23 20\"''
             = svg_file example_artifacts"
    by (simp add: example_svg_text_def svg_open_def example_artifacts_def)
  have f: "centreline_features (map fst example_path_points) example_path_points None []
     = Inr [(''nerve_feature_1'', Centreline (DisplayName ''vagus'') None),
         (''nerve_feature_3'', Centreline (DisplayName ''branch'') None)]"
    by (simp add: example_path_points_def is_group_svg_id_def startswith_def centreline_feature_def)
  show ?thesis
    by (simp add: export_flatmapsvg_from_scene_def example_analysis example_bezier m w
        example_quantize build_output_def a b p example_view_box_attribute r f load_reversed_map_def)
       (simp add: example_artifacts_def)
qed

lemma export_result:
  assumes "export_flatmapsvg_from_scene x r csv rand = Some (Inr out)"
    and "analyze_elements r = Inr d"
  shows "\<exists>ps ms rm feats.
           group_paths_svg (quantize x) (fmt x) (calculate_bezier_control_points d) = Some (Inr ps)
         \<and> calculate_markers (invalid_values x) r rand = Inr ms
         \<and> load_reversed_map csv = Inr rm
         \<and> centreline_features (map fst d) d rm [] = Inr feats
         \<and> properties_features out = marker_features ms feats"
  using assms
  by (auto simp: export_flatmapsvg_from_scene_def build_output_def write_into_svg_format_def Let_def
      split: option.splits sum.splits)

lemma export_succeeds:
  assumes "analyze_elements r = Inr d"
    and "group_paths_svg (quantize x) (fmt x) (calculate_bezier_control_points d) = Some (Inr ps)"
    and "calculate_markers (invalid_values x) r rand = Inr ms"
  shows "\<exists>out. export_flatmapsvg_from_scene x r csv rand = Some (Inr out)
         \<and> svg_file out =
             toprettyxml x
               (replace (svg_open @ concat ps @ concat (map (marker_svg (fmt x)) ms) @ ''</svg>'')
                  ''viewBox=\"WWW XXX YYY ZZZ\"''
                  (view_box_attribute (view_box_of_paths (float_add x) (float_sub x)
                     (svg2paths_bbox x
                        (svg_open @ concat ps @ concat (map (marker_svg (fmt x)) ms) @
                         ''</svg>'')))))"
proof -
  obtain rm where rm: "load_reversed_map csv = Inr rm"
    using load_reversed_map_total by blast
  obtain feats where feats: "centreline_features (map fst d) d rm [] = Inr feats"
    using centreline_features_total [OF analyze_elements_names [OF assms(1)]] by blast
  show ?thesis
    using assms rm feats
    by (simp add: export_flatmapsvg_from_scene_def build_output_def write_into_svg_format_def Let_def)
qed

section \<open>Facts about the path stitcher\<close>



















lemma links_successor: "(r, s) \<in> links q curve \<Longrightarrow> successor q curve r = Some s"
  by (simp add: links_def)








section \<open>The path stitcher on small inputs\<close>















section \<open>Facts about titles and feature keys\<close>

lemma analyze_elements_samples_is_label:
  assumes "analyze_elements r = Inr d" and "map_of d key = Some (Samples xs)"
  shows "key = ''ungrouped'' \<or>
         (\<exists>i < length (group_list r). getName (group_list r ! i) \<noteq> ''marker'' \<and>
            key = group_label i (size_of_digits (length (group_list r))))"
proof -
  let ?w = "size_of_digits (length (group_list r))"
  let ?d0 = "label_groups (group_list r) 0 ?w [(''ungrouped'', Samples [])]"
  have ne: "mesh_elements r \<noteq> []"
  proof
    assume "mesh_elements r = []"
    with assms(1) have "d = []" by (simp add: analyze_elements_def)
    with assms(2) show False by simp
  qed
  have k: "keeps_names ?d0 d" using assms(1) ne by (rule analyze_elements_keeps)
  from assms(2) have "key \<in> dom (map_of d)" by auto
  with k have 1: "key \<in> dom (map_of ?d0)" by (simp add: keeps_names_def)
  show ?thesis
  proof (cases "key = ''ungrouped''")
    case True
    then show ?thesis by simp
  next
    case False
    then have 2: "key \<notin> dom (map_of [(''ungrouped'', Samples [])])" by simp
    from label_groups_dom [OF 1 2] obtain i where i: "i < length (group_list r)"
      "getName (group_list r ! i) \<noteq> ''marker''"
      and key: "key = group_label i ?w \<or> key = group_svg_id (group_label i ?w)" by auto
    have "key \<noteq> group_svg_id (group_label i ?w)"
    proof
      assume "key = group_svg_id (group_label i ?w)"
      with analyze_elements_name [OF assms(1) ne i] assms(2) show False by simp
    qed
    with key i show ?thesis by blast
  qed
qed

lemma bezier_groups_keep:
  "key \<in> fst ` set bz \<Longrightarrow> key \<in> fst ` set (bezier_groups ks pd bz)"
proof (induction ks arbitrary: bz)
  case Nil
  then show ?case by simp
next
  case (Cons k ks)
  let ?bz = "case map_of pd k of
          Some (Samples (c # cs)) \<Rightarrow>
            AList.update k
              (map (\<lambda>curve_pts. calculate_bezier_curve (fst curve_pts) (snd curve_pts)) (c # cs))
              bz
        | _ \<Rightarrow> bz"
  from Cons.prems have "key \<in> fst ` set ?bz"
    by (auto simp: dom_update split: option.splits entry.splits list.splits)
  from Cons.IH [OF this] show ?case by simp
qed

lemma bezier_groups_has_key:
  "key \<in> set ks \<Longrightarrow> map_of pd key = Some (Samples (c # cs)) \<Longrightarrow>
   key \<in> fst ` set (bezier_groups ks pd bz)"
proof (induction ks arbitrary: bz)
  case Nil
  then show ?case by simp
next
  case (Cons k ks)
  show ?case
  proof (cases "k = key")
    case True
    let ?bz = "AList.update key
              (map (\<lambda>curve_pts. calculate_bezier_curve (fst curve_pts) (snd curve_pts)) (c # cs))
              bz"
    have "key \<in> fst ` set ?bz" by (simp add: dom_update)
    then have "key \<in> fst ` set (bezier_groups ks pd ?bz)" by (rule bezier_groups_keep)
    with True Cons.prems(2) show ?thesis by simp
  next
    case False
    with Cons.prems have "key \<in> set ks" by simp
    from Cons.IH [OF this Cons.prems(2)] show ?thesis by simp
  qed
qed

lemma sampled_group_converted:
  assumes "map_of d key = Some (Samples (c # cs))"
  shows "key \<in> fst ` set (calculate_bezier_control_points d)"
proof -
  from assms have "key \<in> set (map fst d)"
    by (metis domI dom_map_of_conv_image_fst set_map)
  then show ?thesis
    unfolding calculate_bezier_control_points_def using assms by (rule bezier_groups_has_key)
qed

lemma converted_group_sampled:
  assumes "key \<in> fst ` set (calculate_bezier_control_points d)"
  shows "\<exists>c cs. map_of d key = Some (Samples (c # cs))"
  using bezier_groups_keys [of key "map fst d" d "[]"] assms
  by (simp add: calculate_bezier_control_points_def)

lemma group_paths_svg_nth:
  "group_paths_svg q f bz = Some (Inr ps) \<Longrightarrow> t < length bz \<Longrightarrow>
   \<exists>cp. connected_segments q (snd (bz ! t)) = Some (Inr cp) \<and>
     write_connected_svg_bezier_path f cp
       (if fst (bz ! t) \<noteq> ''ungrouped'' then Some (fst (bz ! t)) else None) = Inr (ps ! t)"
proof (induction bz arbitrary: ps t)
  case Nil
  then show ?case by simp
next
  case (Cons a bz)
  obtain g cs where a: "a = (g, cs)" by (cases a) auto
  from Cons.prems(1) obtain cp p ps' where cp: "connected_segments q cs = Some (Inr cp)"
    and p: "write_connected_svg_bezier_path f cp (if g \<noteq> ''ungrouped'' then Some g else None) = Inr p"
    and ps': "group_paths_svg q f bz = Some (Inr ps')" and ps: "ps = p # ps'"
    unfolding a by (auto split: option.splits sum.splits)
  show ?case
  proof (cases t)
    case 0
    with cp p ps a show ?thesis by (auto split: if_splits)
  next
    case (Suc u)
    with Cons.prems(2) have "u < length bz" by simp
    from Cons.IH [OF ps' this] Suc ps show ?thesis by (auto split: if_splits)
  qed
qed

lemma write_connected_titled:
  "write_connected_svg_bezier_path f cp (Some g) = Inr p \<Longrightarrow>
   \<exists>dd. p = ''<path d=\"'' @ dd @ ''\" stroke=\"#01136e\" fill=\"none\"><title>.centreline id('' @
            group_svg_id g @ '')</title></path>''"
  by (auto simp: write_connected_svg_bezier_path_def split: option.splits)

lemma write_connected_untitled:
  "write_connected_svg_bezier_path f cp None = Inr p \<Longrightarrow>
   \<exists>dd. p = ''<path d=\"'' @ dd @ ''\" stroke=\"grey\" fill=\"none\"/>''"
  by (auto simp: write_connected_svg_bezier_path_def split: option.splits)

lemma centreline_features_keys:
  "centreline_features ks pp rm f0 = Inr f \<Longrightarrow> key \<in> fst ` set f \<Longrightarrow>
   key \<in> fst ` set f0 \<or> (key \<in> set ks \<and> is_group_svg_id key)"
proof (induction ks arbitrary: f0)
  case Nil
  then show ?case by simp
next
  case (Cons k ks)
  show ?case
  proof (cases "is_group_svg_id k")
    case False
    with Cons.prems have "centreline_features ks pp rm f0 = Inr f" by simp
    from Cons.IH [OF this Cons.prems(2)] show ?thesis by auto
  next
    case True
    with Cons.prems(1) obtain ft where
      1: "centreline_features ks pp rm (AList.update k ft f0) = Inr f"
      by (auto split: option.splits sum.splits)
    from Cons.IH [OF 1 Cons.prems(2)] True show ?thesis by (auto simp: dom_update)
  qed
qed

lemma marker_features_keys:
  "key \<in> fst ` set (marker_features ms f) \<Longrightarrow> key \<in> fst ` set f \<or> key \<in> fst ` set ms"
proof (induction ms arbitrary: f)
  case Nil
  then show ?case by simp
next
  case (Cons m ms)
  let ?f = "AList.update (fst m)
          (MarkerFeature (fst (snd (snd m))) (snd (snd (snd m))) ''orange'') f"
  from Cons.prems have "key \<in> fst ` set (marker_features ms ?f)" by simp
  from Cons.IH [OF this] show ?case by (auto simp: dom_update)
qed

section \<open>Facts about marker identifiers and marker features\<close>

lemma str_nat_inj: "str_nat m = str_nat n \<Longrightarrow> m = n"
  by (metis nat_of_digits_str_nat)

lemma minus_not_digit: "\<not> is_digit CHR ''-''"
  by (simp add: is_digit_def)

lemma str_nat_no_minus: "CHR ''-'' # s \<noteq> str_nat n"
proof
  assume "CHR ''-'' # s = str_nat n"
  then have "CHR ''-'' \<in> set (str_nat n)" by (metis list.set_intros(1))
  with str_nat_digits [of n] have "is_digit CHR ''-''" by blast
  with minus_not_digit show False by simp
qed

lemma str_int_inj: "str_int a = str_int b \<Longrightarrow> a = b"
proof -
  assume e: "str_int a = str_int b"
  consider "a < 0" "b < 0" | "a < 0" "0 \<le> b" | "0 \<le> a" "b < 0" | "0 \<le> a" "0 \<le> b"
    by linarith
  then show "a = b"
  proof cases
    case 1
    with e have "str_nat (nat (- a)) = str_nat (nat (- b))" by (simp add: str_int_def)
    then have "nat (- a) = nat (- b)" by (rule str_nat_inj)
    with 1 show ?thesis by simp
  next
    case 2
    with e have "CHR ''-'' # str_nat (nat (- a)) = str_nat (nat b)" by (simp add: str_int_def)
    with str_nat_no_minus show ?thesis by blast
  next
    case 3
    with e have "CHR ''-'' # str_nat (nat (- b)) = str_nat (nat a)" by (simp add: str_int_def)
    with str_nat_no_minus show ?thesis by blast
  next
    case 4
    with e have "str_nat (nat a) = str_nat (nat b)" by (simp add: str_int_def)
    then have "nat a = nat b" by (rule str_nat_inj)
    with 4 show ?thesis by simp
  qed
qed

lemma marker_loop_ids:
  "marker_loop iv r rand i ps = Inr ms \<Longrightarrow> map fst ms = map (\<lambda>p. ''marker_'' @ str_int p) ps"
proof (induction ps arbitrary: i ms)
  case Nil
  then show ?case by simp
next
  case (Cons p ps)
  from Cons.prems obtain xy ms' where ms': "marker_loop iv r rand (i + 1) ps = Inr ms'"
    and ms: "\<exists>a b. ms = (''marker_'' @ str_int p, xy, a, b) # ms'"
    by (auto simp: Let_def split: sum.splits)
  from Cons.IH [OF ms'] ms show ?case by auto
qed

lemma marker_loop_distinct:
  assumes "marker_loop iv r rand i ps = Inr ms" and "distinct ps"
  shows "distinct (map fst ms)"
proof -
  have "inj_on (\<lambda>p. ''marker_'' @ str_int p) (set ps)"
    by (rule inj_onI) (simp add: str_int_inj)
  with assms(2) have "distinct (map (\<lambda>p. ''marker_'' @ str_int p) ps)"
    by (simp add: distinct_map)
  then show ?thesis by (simp only: marker_loop_ids [OF assms(1)])
qed

lemma marker_features_distinct:
  "distinct (map fst ms) \<Longrightarrow> k < length ms \<Longrightarrow>
   map_of (marker_features ms f) (fst (ms ! k))
     = Some (MarkerFeature (fst (snd (snd (ms ! k)))) (snd (snd (snd (ms ! k)))) ''orange'')"
proof (induction ms arbitrary: f k)
  case Nil
  then show ?case by simp
next
  case (Cons m ms)
  let ?f = "AList.update (fst m)
          (MarkerFeature (fst (snd (snd m))) (snd (snd (snd m))) ''orange'') f"
  show ?case
  proof (cases k)
    case 0
    from Cons.prems(1) have "fst m \<notin> fst ` set ms" by simp
    then have "map_of (marker_features ms ?f) (fst m) = map_of ?f (fst m)"
      by (rule marker_features_other)
    with 0 show ?thesis by (simp add: update_conv')
  next
    case (Suc j)
    with Cons.prems have "distinct (map fst ms)" "j < length ms" by simp_all
    from Cons.IH [OF this, of ?f] Suc show ?thesis by simp
  qed
qed

lemma marker_features_present:
  assumes "k < length ms"
  shows "\<exists>n mo. map_of (marker_features ms f) (fst (ms ! k)) = Some (MarkerFeature n mo ''orange'')"
proof -
  have "fst (ms ! k) \<in> fst ` set ms" using assms by simp
  then show ?thesis by (intro marker_features_marker) simp
qed

section \<open>The order of the keys in the sampler's output\<close>

lemma update_present_keys: "k \<in> fst ` set al \<Longrightarrow> map fst (AList.update k v al) = map fst al"
  by (simp add: update_keys)

lemma update_absent_keys: "k \<notin> fst ` set al \<Longrightarrow> map fst (AList.update k v al) = map fst al @ [k]"
  by (simp add: update_keys)

lemma dict_append_keys:
  assumes "dict_append key lpp gpp = Inr gpp'"
  shows "map fst gpp' = map fst gpp"
proof -
  from assms obtain xs where xs: "map_of gpp key = Some (Samples xs)"
    and gpp': "gpp' = AList.update key (Samples (xs @ [lpp])) gpp"
    by (auto simp: dict_append_def split: option.splits entry.splits)
  from xs have "key \<in> fst ` set gpp" by (metis domI dom_map_of_conv_image_fst)
  then show ?thesis unfolding gpp' by (rule update_present_keys)
qed

lemma add_to_groups_keys:
  "add_to_groups gs k w e lpp gpp b = Inr (gpp', b') \<Longrightarrow> map fst gpp' = map fst gpp"
proof (induction gs arbitrary: k gpp b)
  case Nil
  then show ?case by simp
next
  case (Cons g gs)
  show ?case
  proof (cases "e \<in> set (mesh_group g)")
    case True
    with Cons.prems obtain gpp1 where 1: "dict_append (group_label k w) lpp gpp = Inr gpp1"
      and 2: "add_to_groups gs (k + 1) w e lpp gpp1 True = Inr (gpp', b')"
      by (auto split: sum.splits)
    from dict_append_keys [OF 1] Cons.IH [OF 2] show ?thesis by simp
  next
    case False
    with Cons.prems have "add_to_groups gs (k + 1) w e lpp gpp b = Inr (gpp', b')" by simp
    then show ?thesis by (rule Cons.IH)
  qed
qed

lemma analyze_element_keys:
  assumes "analyze_element gl w el gpp = Inr gpp'"
  shows "map fst gpp' = map fst gpp"
proof (cases "sample_element el")
  case None
  with assms show ?thesis by (simp add: analyze_element_def)
next
  case (Some lpp)
  with assms obtain gpp1 b where 1: "add_to_groups gl 0 w (element_id el) lpp gpp False = Inr (gpp1, b)"
    and 2: "(if \<not> b then dict_append ''ungrouped'' lpp gpp1 else Inr gpp1) = Inr gpp'"
    by (auto simp: analyze_element_def split: sum.splits)
  have "map fst gpp' = map fst gpp1"
  proof (cases b)
    case True
    with 2 show ?thesis by simp
  next
    case False
    with 2 show ?thesis by (simp add: dict_append_keys)
  qed
  with add_to_groups_keys [OF 1] show ?thesis by simp
qed

lemma analyze_loop_keys:
  "analyze_loop gl w els gpp = Inr gpp' \<Longrightarrow> map fst gpp' = map fst gpp"
proof (induction els arbitrary: gpp)
  case Nil
  then show ?case by simp
next
  case (Cons el els)
  then obtain gpp1 where 1: "analyze_element gl w el gpp = Inr gpp1"
    and 2: "analyze_loop gl w els gpp1 = Inr gpp'"
    by (auto split: sum.splits)
  from analyze_element_keys [OF 1] Cons.IH [OF 2] show ?case by simp
qed

lemma analyze_elements_keys:
  assumes "analyze_elements r = Inr d" and "mesh_elements r \<noteq> []"
  shows "map fst d = map fst
           (label_groups (group_list r) 0 (size_of_digits (length (group_list r)))
              [(''ungrouped'', Samples [])])"
  using assms
  by (auto simp: analyze_elements_def Let_def analyze_loop_keys split: sum.splits if_splits)

lemma analyze_elements_groups:
  assumes "analyze_elements r = Inr d" and "mesh_elements r \<noteq> []"
  shows "group_list r \<noteq> []"
  using assms
  by (auto simp: analyze_elements_def Let_def split: sum.splits if_splits)

lemma named_indices_Cons:
  "concat (map (\<lambda>i. [group_label (k + i) w, group_svg_id (group_label (k + i) w)])
     (filter (\<lambda>i. getName ((g # gs) ! i) \<noteq> ''marker'') [0..<length (g # gs)]))
   = (if getName g \<noteq> ''marker'' then [group_label k w, group_svg_id (group_label k w)] else [])
     @ concat (map (\<lambda>i. [group_label (Suc k + i) w, group_svg_id (group_label (Suc k + i) w)])
         (filter (\<lambda>i. getName (gs ! i) \<noteq> ''marker'') [0..<length gs]))"
proof -
  have u: "[0..<length (g # gs)] = 0 # map Suc [0..<length gs]"
    by (simp add: upt_conv_Cons map_Suc_upt del: upt_Suc)
  show ?thesis
    unfolding u by (simp add: filter_map o_def)
qed

lemma label_groups_keys:
  assumes "\<forall>i < length gs. getName (gs ! i) \<noteq> ''marker'' \<longrightarrow>
             group_label (k + i) w \<notin> fst ` set gpp \<and>
             group_svg_id (group_label (k + i) w) \<notin> fst ` set gpp"
  shows "map fst (label_groups gs k w gpp) = map fst gpp @
           concat (map (\<lambda>i. [group_label (k + i) w, group_svg_id (group_label (k + i) w)])
             (filter (\<lambda>i. getName (gs ! i) \<noteq> ''marker'') [0..<length gs]))"
  using assms
proof (induction gs arbitrary: k gpp)
  case Nil
  then show ?case by simp
next
  case (Cons g gs)
  let ?gpp = "if getName g \<noteq> ''marker''
        then AList.update (group_svg_id (group_label k w)) (DisplayName (getName g))
               (AList.update (group_label k w) (Samples []) gpp)
        else gpp"
  have keys: "fst ` set ?gpp \<subseteq> fst ` set gpp \<union> {group_label k w, group_svg_id (group_label k w)}"
    by (auto simp: dom_update)
  have rest: "\<forall>i < length gs. getName (gs ! i) \<noteq> ''marker'' \<longrightarrow>
             group_label (Suc k + i) w \<notin> fst ` set ?gpp \<and>
             group_svg_id (group_label (Suc k + i) w) \<notin> fst ` set ?gpp"
  proof (intro allI impI)
    fix i assume i: "i < length gs" and n: "getName (gs ! i) \<noteq> ''marker''"
    from Cons.prems [rule_format, of "Suc i"] i n
    have a: "group_label (Suc k + i) w \<notin> fst ` set gpp"
      "group_svg_id (group_label (Suc k + i) w) \<notin> fst ` set gpp" by simp_all
    have b: "group_label (Suc k + i) w \<noteq> group_label k w"
      "group_svg_id (group_label (Suc k + i) w) \<noteq> group_svg_id (group_label k w)"
      by (auto dest: group_label_inj group_svg_id_inj)
    have c: "group_label (Suc k + i) w \<noteq> group_svg_id (group_label k w)"
      "group_svg_id (group_label (Suc k + i) w) \<noteq> group_label k w"
      using label_neq_svg_id [of "Suc k + i" w k] label_neq_svg_id [of k w "Suc k + i"] by auto
    from a b c keys show "group_label (Suc k + i) w \<notin> fst ` set ?gpp \<and>
             group_svg_id (group_label (Suc k + i) w) \<notin> fst ` set ?gpp"
      by blast
  qed
  have here: "map fst ?gpp = map fst gpp @
      (if getName g \<noteq> ''marker'' then [group_label k w, group_svg_id (group_label k w)] else [])"
  proof (cases "getName g \<noteq> ''marker''")
    case False
    then show ?thesis by simp
  next
    case True
    with Cons.prems [rule_format, of 0] have a: "group_label k w \<notin> fst ` set gpp"
      "group_svg_id (group_label k w) \<notin> fst ` set gpp" by simp_all
    have 1: "map fst (AList.update (group_label k w) (Samples []) gpp)
        = map fst gpp @ [group_label k w]"
      using a(1) by (rule update_absent_keys)
    have "group_svg_id (group_label k w)
        \<notin> fst ` set (AList.update (group_label k w) (Samples []) gpp)"
      using a(2) label_neq_svg_id [of k w k] by (auto simp: dom_update)
    then have "map fst (AList.update (group_svg_id (group_label k w)) (DisplayName (getName g))
               (AList.update (group_label k w) (Samples []) gpp))
        = map fst (AList.update (group_label k w) (Samples []) gpp) @ [group_svg_id (group_label k w)]"
      by (rule update_absent_keys)
    with 1 True show ?thesis by simp
  qed
  have "map fst (label_groups (g # gs) k w gpp) = map fst (label_groups gs (Suc k) w ?gpp)"
    by simp
  also have "\<dots> = map fst ?gpp @
           concat (map (\<lambda>i. [group_label (Suc k + i) w, group_svg_id (group_label (Suc k + i) w)])
             (filter (\<lambda>i. getName (gs ! i) \<noteq> ''marker'') [0..<length gs]))"
    using rest by (rule Cons.IH)
  finally show ?case
    unfolding here named_indices_Cons by simp
qed

lemma analyze_elements_key_order:
  assumes "analyze_elements r = Inr d" and "mesh_elements r \<noteq> []"
  shows "map fst d = ''ungrouped'' #
           concat (map (\<lambda>i. [group_label i (size_of_digits (length (group_list r))),
                              group_svg_id (group_label i (size_of_digits (length (group_list r))))])
             (filter (\<lambda>i. getName (group_list r ! i) \<noteq> ''marker'') [0..<length (group_list r)]))"
proof -
  let ?w = "size_of_digits (length (group_list r))"
  have "\<forall>i < length (group_list r). getName (group_list r ! i) \<noteq> ''marker'' \<longrightarrow>
             group_label (0 + i) ?w \<notin> fst ` set [(''ungrouped'', Samples [])] \<and>
             group_svg_id (group_label (0 + i) ?w) \<notin> fst ` set [(''ungrouped'', Samples [])]"
    using label_neq_ungrouped svg_id_neq_ungrouped by simp
  from label_groups_keys [OF this] analyze_elements_keys [OF assms]
  show ?thesis by simp
qed

lemma group_labels_sorted:
  assumes "i < j" and "j < n"
  shows "str_less (group_label i (size_of_digits n)) (group_label j (size_of_digits n))"
proof -
  let ?w = "size_of_digits n"
  have "i < n" using assms by simp
  then have "length (group_number i ?w) = length (group_number j ?w)"
    using assms(2) by (simp add: group_number_length)
  moreover have "nat_of_digits (group_number i ?w) < nat_of_digits (group_number j ?w)"
    using assms(1) by (simp add: group_number_value)
  ultimately have "str_less (group_number i ?w) (group_number j ?w)"
    using group_number_digits by (intro str_less_digits)
  then show ?thesis by (simp only: group_label_def str_less_prefix)
qed

section \<open>Claims\<close>




text \<open>
  Claim C2 (as amended). The identifier under which a group appears in the SVG
  \<^verbatim>\<open><title>\<close> and in the features object is \<^verbatim>\<open>_group_svg_id\<close> of its label
  \<^verbatim>\<open>group_NNN\<close>, which replaces \<^verbatim>\<open>group_\<close> by \<^verbatim>\<open>nerve_feature_\<close>: it has
  the form \<^verbatim>\<open>nerve_feature_NNN\<close>, not \<^verbatim>\<open>nerve_feature_group_NNN\<close>.

  \<^item> Every key of the sampler's output that \<^verbatim>\<open>_is_group_svg_id\<close> accepts is the
    identifier of a group whose name is not \<^verbatim>\<open>marker\<close>, and the output maps it to
    that group's display name.
  \<^item> When the mesh is not empty every such group has its identifier in the output, with
    \<open>NNN\<close> a string of decimal digits of the common width.
  \<^item> When the serializer returns, it has written one \<^verbatim>\<open><path>\<close> for each key of the
    converted data: the one for \<^verbatim>\<open>ungrouped\<close> has no title, every other one
    belongs to a group and ends with the title
    \<^verbatim>\<open>.centreline id(nerve_feature_NNN)\<close> of that group, and every group with a
    sample has such a path.
  \<^item> When the export returns, the features object maps the identifier of every such group
    to a centreline whose label is the display name (if the mesh is not empty), and
    every key of the features object that \<^verbatim>\<open>_is_group_svg_id\<close> accepts is the
    identifier of such a group.
\<close>

theorem svg_identifier_form:
  assumes "analyze_elements r = Inr d"
  shows "(\<forall>key. key \<in> dom (map_of d) \<and> is_group_svg_id key \<longrightarrow>
            (\<exists>i < length (group_list r). getName (group_list r ! i) \<noteq> ''marker'' \<and>
               key = group_svg_id (group_label i (size_of_digits (length (group_list r)))) \<and>
               key = ''nerve_feature_'' @ group_number i (size_of_digits (length (group_list r))) \<and>
               map_of d key = Some (DisplayName (getName (group_list r ! i)))))
       \<and> (mesh_elements r \<noteq> [] \<longrightarrow>
            (\<forall>i < length (group_list r). getName (group_list r ! i) \<noteq> ''marker'' \<longrightarrow>
               group_svg_id (group_label i (size_of_digits (length (group_list r)))) = ''nerve_feature_'' @ group_number i (size_of_digits (length (group_list r))) \<and>
               length (group_number i (size_of_digits (length (group_list r)))) = (size_of_digits (length (group_list r))) \<and>
               (\<forall>c \<in> set (group_number i (size_of_digits (length (group_list r)))). is_digit c) \<and>
               map_of d (''nerve_feature_'' @ group_number i (size_of_digits (length (group_list r))))
                 = Some (DisplayName (getName (group_list r ! i)))))
       \<and> (group_paths_svg q f (calculate_bezier_control_points d) = Some (Inr ps) \<longrightarrow>
            length ps = length (calculate_bezier_control_points d) \<and>
            (\<forall>t < length ps.
               (fst (calculate_bezier_control_points d ! t) = ''ungrouped'' \<and>
                (\<exists>dd. ps ! t = ''<path d=\"'' @ dd @ ''\" stroke=\"grey\" fill=\"none\"/>'')) \<or>
               (\<exists>i < length (group_list r). getName (group_list r ! i) \<noteq> ''marker'' \<and>
                  fst (calculate_bezier_control_points d ! t) = group_label i (size_of_digits (length (group_list r))) \<and>
                  (\<exists>dd. ps ! t = ''<path d=\"'' @ dd @ ''\" stroke=\"#01136e\" fill=\"none\"><title>.centreline id(nerve_feature_'' @
                       group_number i (size_of_digits (length (group_list r))) @ '')</title></path>''))) \<and>
            (\<forall>i < length (group_list r). \<forall>c cs. getName (group_list r ! i) \<noteq> ''marker'' \<and>
               map_of d (group_label i (size_of_digits (length (group_list r)))) = Some (Samples (c # cs)) \<longrightarrow>
               (\<exists>t < length ps. \<exists>dd. ps ! t = ''<path d=\"'' @ dd @ ''\" stroke=\"#01136e\" fill=\"none\"><title>.centreline id(nerve_feature_'' @
                       group_number i (size_of_digits (length (group_list r))) @ '')</title></path>'')))
       \<and> (export_flatmapsvg_from_scene x r csv rand = Some (Inr out) \<longrightarrow>
            (mesh_elements r \<noteq> [] \<longrightarrow>
               (\<forall>i < length (group_list r). getName (group_list r ! i) \<noteq> ''marker'' \<longrightarrow>
                  (\<exists>m. map_of (properties_features out) (''nerve_feature_'' @ group_number i (size_of_digits (length (group_list r))))
                         = Some (Centreline (DisplayName (getName (group_list r ! i))) m)))) \<and>
            (\<forall>key. key \<in> fst ` set (properties_features out) \<and> is_group_svg_id key \<longrightarrow>
               (\<exists>i < length (group_list r). getName (group_list r ! i) \<noteq> ''marker'' \<and>
                  key = ''nerve_feature_'' @ group_number i (size_of_digits (length (group_list r))))))"
proof (intro conjI)
  show "\<forall>key. key \<in> dom (map_of d) \<and> is_group_svg_id key \<longrightarrow>
            (\<exists>i < length (group_list r). getName (group_list r ! i) \<noteq> ''marker'' \<and>
               key = group_svg_id (group_label i (size_of_digits (length (group_list r)))) \<and>
               key = ''nerve_feature_'' @ group_number i (size_of_digits (length (group_list r))) \<and>
               map_of d key = Some (DisplayName (getName (group_list r ! i))))"
  proof (intro allI impI)
    fix key
    assume "key \<in> dom (map_of d) \<and> is_group_svg_id key"
    then have "key \<in> dom (map_of d)" and "is_group_svg_id key" by simp_all
    from analyze_elements_svg_key [OF assms this]
    show "\<exists>i < length (group_list r). getName (group_list r ! i) \<noteq> ''marker'' \<and>
               key = group_svg_id (group_label i (size_of_digits (length (group_list r)))) \<and>
               key = ''nerve_feature_'' @ group_number i (size_of_digits (length (group_list r))) \<and>
               map_of d key = Some (DisplayName (getName (group_list r ! i)))"
      by (auto simp: group_svg_id_label)
  qed
next
  show "mesh_elements r \<noteq> [] \<longrightarrow>
            (\<forall>i < length (group_list r). getName (group_list r ! i) \<noteq> ''marker'' \<longrightarrow>
               group_svg_id (group_label i (size_of_digits (length (group_list r)))) = ''nerve_feature_'' @ group_number i (size_of_digits (length (group_list r))) \<and>
               length (group_number i (size_of_digits (length (group_list r)))) = (size_of_digits (length (group_list r))) \<and>
               (\<forall>c \<in> set (group_number i (size_of_digits (length (group_list r)))). is_digit c) \<and>
               map_of d (''nerve_feature_'' @ group_number i (size_of_digits (length (group_list r))))
                 = Some (DisplayName (getName (group_list r ! i))))"
  proof (intro conjI allI impI)
    fix i
    show "group_svg_id (group_label i (size_of_digits (length (group_list r)))) = ''nerve_feature_'' @ group_number i (size_of_digits (length (group_list r)))"
      by (rule group_svg_id_label)
  next
    fix i assume "i < length (group_list r)"
    then show "length (group_number i (size_of_digits (length (group_list r)))) = (size_of_digits (length (group_list r)))"
      by (rule group_number_length)
  next
    fix i
    show "\<forall>c \<in> set (group_number i (size_of_digits (length (group_list r)))). is_digit c"
      by (rule group_number_digits)
  next
    fix i
    assume "mesh_elements r \<noteq> []" "i < length (group_list r)" "getName (group_list r ! i) \<noteq> ''marker''"
    from analyze_elements_name [OF assms this]
    show "map_of d (''nerve_feature_'' @ group_number i (size_of_digits (length (group_list r))))
                 = Some (DisplayName (getName (group_list r ! i)))"
      by (simp only: group_svg_id_label)
  qed
next
  show "group_paths_svg q f (calculate_bezier_control_points d) = Some (Inr ps) \<longrightarrow>
            length ps = length (calculate_bezier_control_points d) \<and>
            (\<forall>t < length ps.
               (fst (calculate_bezier_control_points d ! t) = ''ungrouped'' \<and>
                (\<exists>dd. ps ! t = ''<path d=\"'' @ dd @ ''\" stroke=\"grey\" fill=\"none\"/>'')) \<or>
               (\<exists>i < length (group_list r). getName (group_list r ! i) \<noteq> ''marker'' \<and>
                  fst (calculate_bezier_control_points d ! t) = group_label i (size_of_digits (length (group_list r))) \<and>
                  (\<exists>dd. ps ! t = ''<path d=\"'' @ dd @ ''\" stroke=\"#01136e\" fill=\"none\"><title>.centreline id(nerve_feature_'' @
                       group_number i (size_of_digits (length (group_list r))) @ '')</title></path>''))) \<and>
            (\<forall>i < length (group_list r). \<forall>c cs. getName (group_list r ! i) \<noteq> ''marker'' \<and>
               map_of d (group_label i (size_of_digits (length (group_list r)))) = Some (Samples (c # cs)) \<longrightarrow>
               (\<exists>t < length ps. \<exists>dd. ps ! t = ''<path d=\"'' @ dd @ ''\" stroke=\"#01136e\" fill=\"none\"><title>.centreline id(nerve_feature_'' @
                       group_number i (size_of_digits (length (group_list r))) @ '')</title></path>''))"
  proof (intro impI conjI allI)
    assume ps: "group_paths_svg q f (calculate_bezier_control_points d) = Some (Inr ps)"
    then show len: "length ps = length (calculate_bezier_control_points d)" by (rule group_paths_svg_length)
    {
      fix t assume "t < length ps"
      with len have t: "t < length (calculate_bezier_control_points d)" by simp
      let ?key = "fst (calculate_bezier_control_points d ! t)"
      from group_paths_svg_nth [OF ps t] obtain cp where
        w: "write_connected_svg_bezier_path f cp
              (if ?key \<noteq> ''ungrouped'' then Some ?key else None) = Inr (ps ! t)"
        by blast
      have "?key \<in> fst ` set (calculate_bezier_control_points d)" using t by (simp add: nth_mem)
      then obtain c cs where s: "map_of d ?key = Some (Samples (c # cs))"
        using converted_group_sampled by blast
      show "(?key = ''ungrouped'' \<and>
                (\<exists>dd. ps ! t = ''<path d=\"'' @ dd @ ''\" stroke=\"grey\" fill=\"none\"/>'')) \<or>
               (\<exists>i < length (group_list r). getName (group_list r ! i) \<noteq> ''marker'' \<and>
                  ?key = group_label i (size_of_digits (length (group_list r))) \<and>
                  (\<exists>dd. ps ! t = ''<path d=\"'' @ dd @ ''\" stroke=\"#01136e\" fill=\"none\"><title>.centreline id(nerve_feature_'' @
                       group_number i (size_of_digits (length (group_list r))) @ '')</title></path>''))"
      proof (cases "?key = ''ungrouped''")
        case True
        with w have "write_connected_svg_bezier_path f cp None = Inr (ps ! t)" by simp
        from write_connected_untitled [OF this] True show ?thesis by blast
      next
        case False
        with analyze_elements_samples_is_label [OF assms s]
        obtain i where i: "i < length (group_list r)" "getName (group_list r ! i) \<noteq> ''marker''"
          and key: "?key = group_label i (size_of_digits (length (group_list r)))" by blast
        from False w have "write_connected_svg_bezier_path f cp (Some ?key) = Inr (ps ! t)"
          by simp
        from write_connected_titled [OF this]
        have "\<exists>dd. ps ! t = ''<path d=\"'' @ dd @ ''\" stroke=\"#01136e\" fill=\"none\"><title>.centreline id(nerve_feature_'' @
                       group_number i (size_of_digits (length (group_list r))) @ '')</title></path>''"
          unfolding key group_svg_id_label by simp
        with i key show ?thesis by blast
      qed
    }
    {
      fix i c cs
      assume a: "getName (group_list r ! i) \<noteq> ''marker'' \<and>
               map_of d (group_label i (size_of_digits (length (group_list r)))) = Some (Samples (c # cs))"
      then have "group_label i (size_of_digits (length (group_list r))) \<in> fst ` set (calculate_bezier_control_points d)"
        by (simp add: sampled_group_converted)
      then obtain t where t: "t < length (calculate_bezier_control_points d)" and key: "fst (calculate_bezier_control_points d ! t) = group_label i (size_of_digits (length (group_list r)))"
        by (auto simp: in_set_conv_nth)
      from group_paths_svg_nth [OF ps t] key obtain cp where
        "write_connected_svg_bezier_path f cp (Some (group_label i (size_of_digits (length (group_list r))))) = Inr (ps ! t)"
        by (auto simp: label_neq_ungrouped)
      from write_connected_titled [OF this]
      have "\<exists>dd. ps ! t = ''<path d=\"'' @ dd @ ''\" stroke=\"#01136e\" fill=\"none\"><title>.centreline id(nerve_feature_'' @
                       group_number i (size_of_digits (length (group_list r))) @ '')</title></path>''"
        unfolding group_svg_id_label by simp
      with t len show "\<exists>t < length ps. \<exists>dd. ps ! t = ''<path d=\"'' @ dd @ ''\" stroke=\"#01136e\" fill=\"none\"><title>.centreline id(nerve_feature_'' @
                       group_number i (size_of_digits (length (group_list r))) @ '')</title></path>''" by auto
    }
  qed
next
  show "export_flatmapsvg_from_scene x r csv rand = Some (Inr out) \<longrightarrow>
            (mesh_elements r \<noteq> [] \<longrightarrow>
               (\<forall>i < length (group_list r). getName (group_list r ! i) \<noteq> ''marker'' \<longrightarrow>
                  (\<exists>m. map_of (properties_features out) (''nerve_feature_'' @ group_number i (size_of_digits (length (group_list r))))
                         = Some (Centreline (DisplayName (getName (group_list r ! i))) m)))) \<and>
            (\<forall>key. key \<in> fst ` set (properties_features out) \<and> is_group_svg_id key \<longrightarrow>
               (\<exists>i < length (group_list r). getName (group_list r ! i) \<noteq> ''marker'' \<and>
                  key = ''nerve_feature_'' @ group_number i (size_of_digits (length (group_list r)))))"
  proof (intro impI conjI allI)
    assume e: "export_flatmapsvg_from_scene x r csv rand = Some (Inr out)"
    from export_result [OF e assms] obtain ms rm feats where
      ms: "calculate_markers (invalid_values x) r rand = Inr ms"
      and feats: "centreline_features (map fst d) d rm [] = Inr feats"
      and out: "properties_features out = marker_features ms feats"
      by blast
    {
      fix i
      assume ne: "mesh_elements r \<noteq> []" and i: "i < length (group_list r)"
        "getName (group_list r ! i) \<noteq> ''marker''"
      let ?id = "group_svg_id (group_label i (size_of_digits (length (group_list r))))"
      have name: "map_of d ?id = Some (DisplayName (getName (group_list r ! i)))"
        using assms ne i by (rule analyze_elements_name)
      then have "?id \<in> set (map fst d)"
        by (metis domI dom_map_of_conv_image_fst set_map)
      then have "?id \<in> set (map fst d) \<or>
          (\<exists>m. map_of [] ?id = Some (Centreline (DisplayName (getName (group_list r ! i))) m))"
        by simp
      from centreline_features_lookup [OF feats is_group_svg_id_label name this]
      obtain m where m: "map_of feats ?id
          = Some (Centreline (DisplayName (getName (group_list r ! i))) m)" by blast
      have "?id \<notin> fst ` set ms"
        using calculate_markers_keys [OF ms] is_group_svg_id_label [of i "(size_of_digits (length (group_list r)))"] by auto
      then have "map_of (properties_features out) ?id = map_of feats ?id"
        unfolding out by (rule marker_features_other)
      with m show "\<exists>m. map_of (properties_features out) (''nerve_feature_'' @ group_number i (size_of_digits (length (group_list r))))
                         = Some (Centreline (DisplayName (getName (group_list r ! i))) m)"
        by (simp add: group_svg_id_label)
    }
    {
      fix key
      assume a: "key \<in> fst ` set (properties_features out) \<and> is_group_svg_id key"
      then have s: "is_group_svg_id key" by simp
      from a have "key \<in> fst ` set feats \<or> key \<in> fst ` set ms"
        unfolding out by (simp add: marker_features_keys)
      moreover have "key \<notin> fst ` set ms" using calculate_markers_keys [OF ms] s by auto
      ultimately have "key \<in> fst ` set feats" by simp
      from centreline_features_keys [OF feats this] have "key \<in> set (map fst d)" by simp
      then have "key \<in> dom (map_of d)" by (simp add: dom_map_of_conv_image_fst)
      from analyze_elements_svg_key [OF assms this s]
      show "\<exists>i < length (group_list r). getName (group_list r ! i) \<noteq> ''marker'' \<and>
                  key = ''nerve_feature_'' @ group_number i (size_of_digits (length (group_list r)))"
        by (auto simp: group_svg_id_label)
    }
  qed
qed

text \<open>
  In the example scene the group \<^verbatim>\<open>branch\<close>, third in the group list of three, has
  the identifier \<^verbatim>\<open>nerve_feature_3\<close> in the sampler's output; the serializer and the
  export return on it.
\<close>

theorem svg_identifier_form_witness:
  "analyze_elements example_region = Inr example_path_points
   \<and> mesh_elements example_region \<noteq> []
   \<and> group_paths_svg exact_quantize (fmt example_ext)
         (calculate_bezier_control_points example_path_points)
       = Some (Inr [''<path d=\"M 0 0 C 1 0, 2 0, 3 0\" stroke=\"#01136e\" fill=\"none\">'' @
            ''<title>.centreline id(nerve_feature_1)</title></path>''])
   \<and> export_flatmapsvg_from_scene example_ext example_region None example_rand
       = Some (Inr example_artifacts)
   \<and> map_of example_path_points ''nerve_feature_3'' = Some (DisplayName ''branch'')
   \<and> (\<exists>m. map_of (properties_features example_artifacts) ''nerve_feature_3''
            = Some (Centreline (DisplayName ''branch'') m))"
proof -
  have h: "analyze_elements example_region = Inr example_path_points"
    by (rule example_analysis)
  have g: "mesh_elements example_region \<noteq> []" "2 < length (group_list example_region)"
    "getName (group_list example_region ! 2) \<noteq> ''marker''"
    by (simp_all add: example_region_def)
  have n: "getName (group_list example_region ! 2) = ''branch''"
    by (simp add: example_region_def)
  have p: "group_paths_svg exact_quantize (fmt example_ext)
         (calculate_bezier_control_points example_path_points)
       = Some (Inr [''<path d=\"M 0 0 C 1 0, 2 0, 3 0\" stroke=\"#01136e\" fill=\"none\">'' @
            ''<title>.centreline id(nerve_feature_1)</title></path>''])"
    unfolding example_bezier by (rule example_group_paths)
  note t = svg_identifier_form [OF h, where x = example_ext and csv = None
      and rand = example_rand and out = example_artifacts]
  from t g have "map_of example_path_points
          (''nerve_feature_'' @ group_number 2 (size_of_digits (length (group_list example_region))))
        = Some (DisplayName (getName (group_list example_region ! 2)))"
    by blast
  then have 1: "map_of example_path_points ''nerve_feature_3'' = Some (DisplayName ''branch'')"
    unfolding n example_labels by simp
  from t g example_export have "\<exists>m. map_of (properties_features example_artifacts)
          (''nerve_feature_'' @ group_number 2 (size_of_digits (length (group_list example_region))))
        = Some (Centreline (DisplayName (getName (group_list example_region ! 2))) m)"
    by blast
  then have 2: "\<exists>m. map_of (properties_features example_artifacts) ''nerve_feature_3''
            = Some (Centreline (DisplayName ''branch'') m)"
    unfolding n example_labels by simp
  from h g(1) p example_export 1 2 show ?thesis by (intro conjI)
qed

text \<open>
  Claim C2 as stated does not hold: in the example scene the identifiers are
  \<^verbatim>\<open>nerve_feature_1\<close> and \<^verbatim>\<open>nerve_feature_3\<close>, in the sampler's output, in the
  title of the path and in the features object, and none starts with
  \<^verbatim>\<open>nerve_feature_group_\<close>.
\<close>

theorem svg_identifier_form_counterexample:
  "analyze_elements example_region = Inr example_path_points
   \<and> map fst example_path_points
       = [''ungrouped'', ''group_1'', ''nerve_feature_1'', ''group_3'', ''nerve_feature_3'']
   \<and> group_svg_id ''group_1'' = ''nerve_feature_1''
   \<and> \<not> startswith ''nerve_feature_1'' ''nerve_feature_group_''
   \<and> \<not> startswith ''nerve_feature_3'' ''nerve_feature_group_''
   \<and> group_paths_svg exact_quantize (fmt example_ext)
         (calculate_bezier_control_points example_path_points)
       = Some (Inr [''<path d=\"M 0 0 C 1 0, 2 0, 3 0\" stroke=\"#01136e\" fill=\"none\">'' @
            ''<title>.centreline id(nerve_feature_1)</title></path>''])
   \<and> export_flatmapsvg_from_scene example_ext example_region None example_rand
       = Some (Inr example_artifacts)
   \<and> map fst (properties_features example_artifacts)
       = [''nerve_feature_1'', ''nerve_feature_3'', ''marker_5'']"
proof -
  have p: "group_paths_svg exact_quantize (fmt example_ext)
         (calculate_bezier_control_points example_path_points)
       = Some (Inr [''<path d=\"M 0 0 C 1 0, 2 0, 3 0\" stroke=\"#01136e\" fill=\"none\">'' @
            ''<title>.centreline id(nerve_feature_1)</title></path>''])"
    unfolding example_bezier by (rule example_group_paths)
  have a: "map fst example_path_points
       = [''ungrouped'', ''group_1'', ''nerve_feature_1'', ''group_3'', ''nerve_feature_3'']"
    by (simp add: example_path_points_def)
  have b: "group_svg_id ''group_1'' = ''nerve_feature_1''"
    by (simp add: group_svg_id_def)
  have c: "\<not> startswith ''nerve_feature_1'' ''nerve_feature_group_''"
    "\<not> startswith ''nerve_feature_3'' ''nerve_feature_group_''"
    by (simp_all add: startswith_def)
  have f: "map fst (properties_features example_artifacts)
       = [''nerve_feature_1'', ''nerve_feature_3'', ''marker_5'']"
    by (simp add: example_artifacts_def)
  from example_analysis a b c p example_export f show ?thesis by (intro conjI)
qed

text \<open>
  Claim C3. For an element sample pair \<open>((P0, T0), (P1, T1))\<close> whose vectors have at
  least two components, the converter returns \<open>b0 = P0\<close>, \<open>b1 = P0 + T0/3\<close>,
  \<open>b2 = P1 - T1/3\<close>, \<open>b3 = P1\<close> on the first two components only; the anchors are
  the sampled positions themselves. The converter is a total function: it has no failing
  branch.
\<close>

theorem bezier_control_points:
  assumes "2 \<le> length P0" and "2 \<le> length T0" and "2 \<le> length P1" and "2 \<le> length T1"
  shows "calculate_bezier_curve (P0, T0) (P1, T1) =
           ([P0 ! 0, P0 ! 1],
            [P0 ! 0 + T0 ! 0 / 3, P0 ! 1 + T0 ! 1 / 3],
            [P1 ! 0 - T1 ! 0 / 3, P1 ! 1 - T1 ! 1 / 3],
            [P1 ! 0, P1 ! 1])"
  using assms
  by (simp add: calculate_bezier_curve_def Let_def take_2_long add_def sub_def div_vec_def)

theorem bezier_control_points_witness:
  "2 \<le> length [0, 0, 0 :: real] \<and> 2 \<le> length [3, 0, 0 :: real]
   \<and> calculate_bezier_curve ([0, 0, 0], [3, 0, 0]) ([3, 0, 0], [3, 0, 0])
       = ([0, 0], [1, 0], [2, 0], [3, 0])"
proof -
  have h: "2 \<le> length [0, 0, 0 :: real]" "2 \<le> length [3, 0, 0 :: real]" by simp_all
  from bezier_control_points [OF h(1) h(2) h(2) h(2)] h show ?thesis by simp
qed

text \<open>
  Claim C4 (as amended). Let the parsed paths have the bounding box
  \<open>[min_x, max_x] \<times> [min_y, max_y]\<close> with \<open>0 \<le> min_x \<le> max_x\<close> and
  \<open>0 \<le> min_y \<le> max_y\<close>, below the initial value \<open>999999999\<close> of \<^verbatim>\<open>bbox\<close>. The
  view box is
  \<open>(int(min_x + 0.5) - 10, int(min_y + 0.5) - 10, int(max_x - min_x + 0.5) + 20,
  int(max_y - min_y + 0.5) + 20)\<close>, the sums and differences being float operations:
  the edges are rounded to whole numbers before the margin of 10 is applied, so the
  margin around the geometry is 10 only up to that rounding. When every float operation
  performed is within \<open>\<delta> \<le> 1/4\<close> of the exact result, the left edge lies in
  \<open>(min_x - 10.5 - \<delta>, min_x - 9.5 + \<delta>]\<close>, the right edge is above
  \<open>max_x + 9 - 3\<delta>\<close>, and likewise in y.
\<close>

theorem view_box_margin:
  assumes "paths \<noteq> []"
    and "min_x = Min (fst ` set paths)" and "max_x = Max ((fst \<circ> snd) ` set paths)"
    and "min_y = Min ((fst \<circ> snd \<circ> snd) ` set paths)"
    and "max_y = Max ((snd \<circ> snd \<circ> snd) ` set paths)"
    and "0 \<le> min_x" and "min_x \<le> max_x" and "max_x \<le> 999999999"
    and "0 \<le> min_y" and "min_y \<le> max_y" and "max_y \<le> 999999999"
    and "\<delta> \<le> 1/4"
    and "\<bar>fadd min_x 0.5 - (min_x + 0.5)\<bar> \<le> \<delta>"
    and "\<bar>fsub max_x min_x - (max_x - min_x)\<bar> \<le> \<delta>"
    and "\<bar>fadd (fsub max_x min_x) 0.5 - (fsub max_x min_x + 0.5)\<bar> \<le> \<delta>"
    and "\<bar>fadd min_y 0.5 - (min_y + 0.5)\<bar> \<le> \<delta>"
    and "\<bar>fsub max_y min_y - (max_y - min_y)\<bar> \<le> \<delta>"
    and "\<bar>fadd (fsub max_y min_y) 0.5 - (fsub max_y min_y + 0.5)\<bar> \<le> \<delta>"
    and "view_box_of_paths fadd fsub paths = (vx, vy, vw, vh)"
  shows "vx = py_int (fadd min_x 0.5) - 10 \<and> vw = py_int (fadd (fsub max_x min_x) 0.5) + 20
       \<and> vy = py_int (fadd min_y 0.5) - 10 \<and> vh = py_int (fadd (fsub max_y min_y) 0.5) + 20
       \<and> min_x - 10.5 - \<delta> < real_of_int vx \<and> real_of_int vx \<le> min_x - 9.5 + \<delta>
       \<and> max_x + 9 - 3 * \<delta> < real_of_int (vx + vw)
       \<and> min_y - 10.5 - \<delta> < real_of_int vy \<and> real_of_int vy \<le> min_y - 9.5 + \<delta>
       \<and> max_y + 9 - 3 * \<delta> < real_of_int (vy + vh)"
proof -
  have s: "min_x \<le> 999999999" "- 999999999 \<le> max_x" "min_y \<le> 999999999" "- 999999999 \<le> max_y"
    using assms(6-11) by linarith+
  have "fold_bbox paths (999999999, - 999999999, 999999999, - 999999999)
      = (min_x, max_x, min_y, max_y)"
    using assms(1-5) s by (simp add: fold_bbox_true)
  with assms(19) have vb: "vx = py_int (fadd min_x 0.5) - view_margin"
    "vy = py_int (fadd min_y 0.5) - view_margin"
    "vw = py_int (fadd (fsub max_x min_x) 0.5) + 2 * view_margin"
    "vh = py_int (fadd (fsub max_y min_y) 0.5) + 2 * view_margin"
    by (simp_all add: view_box_of_paths_def view_box_def)
  have sx: "0 \<le> fadd min_x 0.5" using assms(6,12,13) by linarith
  have sy: "0 \<le> fadd min_y 0.5" using assms(9,12,16) by linarith
  have tx: "0 \<le> fadd (fsub max_x min_x) 0.5"
    using assms(7,12,14,15) by linarith
  have ty: "0 \<le> fadd (fsub max_y min_y) 0.5"
    using assms(10,12,17,18) by linarith
  note lx = left_edge_bounds [OF assms(13) sx]
  note ly = left_edge_bounds [OF assms(16) sy]
  note rx = right_edge_bound [OF assms(13) sx assms(14,15) tx]
  note ry = right_edge_bound [OF assms(16) sy assms(17,18) ty]
  have v: "vx = py_int (fadd min_x 0.5) - 10" "vw = py_int (fadd (fsub max_x min_x) 0.5) + 20"
    "vy = py_int (fadd min_y 0.5) - 10" "vh = py_int (fadd (fsub max_y min_y) 0.5) + 20"
    using vb by (simp_all add: view_margin_def)
  from lx ly rx ry v show ?thesis unfolding vb by (intro conjI)
qed

text \<open>
  With exact operations and the bounding box \<open>[3/4, 19/4] \<times> [3/4, 19/4]\<close> the view
  box is \<open>(-9, -9, 24, 24)\<close>.
\<close>

theorem view_box_margin_witness:
  "([(3/4, 19/4, 3/4, 19/4)] :: bbox list) \<noteq> []
   \<and> view_box_of_paths (+) (-) [(3/4, 19/4, 3/4, 19/4)] = (- 9, - 9, 24, 24)
   \<and> 3/4 - 10.5 - 0 < real_of_int (- 9) \<and> real_of_int (- 9) \<le> 3/4 - 9.5 + 0
   \<and> 19/4 + 9 - 3 * 0 < real_of_int (- 9 + 24)"
proof -
  let ?ps = "[(3/4, 19/4, 3/4, 19/4)] :: bbox list"
  have ne: "?ps \<noteq> []" by simp
  have m: "(3/4 :: real) = Min (fst ` set ?ps)"
    "(19/4 :: real) = Max ((fst \<circ> snd) ` set ?ps)"
    "(3/4 :: real) = Min ((fst \<circ> snd \<circ> snd) ` set ?ps)"
    "(19/4 :: real) = Max ((snd \<circ> snd \<circ> snd) ` set ?ps)"
    by simp_all
  have b: "(0 :: real) \<le> 3/4" "(3/4 :: real) \<le> 19/4" "(19/4 :: real) \<le> 999999999"
    "(0 :: real) \<le> 1/4"
    by simp_all
  have e: "\<bar>3/4 + 0.5 - (3/4 + 0.5)\<bar> \<le> (0 :: real)"
    "\<bar>19/4 - 3/4 - (19/4 - 3/4)\<bar> \<le> (0 :: real)"
    "\<bar>(19/4 - 3/4) + 0.5 - ((19/4 - 3/4) + 0.5)\<bar> \<le> (0 :: real)"
    by simp_all
  note t = view_box_margin [of ?ps "3/4" "19/4" "3/4" "19/4" 0 "(+)" "(-)" "- 9" "- 9" 24 24,
      OF ne m b(1) b(2) b(3) b(1) b(2) b(3) b(4) e e example_view_box]
  from t have "3/4 - 10.5 - 0 < real_of_int (- 9)" "real_of_int (- 9) \<le> 3/4 - 9.5 + 0"
    "19/4 + 9 - 3 * 0 < real_of_int (- 9 + 24)"
    by blast+
  with ne example_view_box show ?thesis by (intro conjI)
qed

text \<open>
  Claim C4 as stated does not hold. With the bounding box \<open>[3/4, 19/4]\<close> the left
  edge is \<open>-9\<close>, above \<open>3/4 - 10\<close>; with \<open>[1/4, 1/2]\<close> the right edge is \<open>10\<close>,
  below \<open>1/2 + 10\<close>; with \<open>[3/8, 3/4]\<close> the right edge is \<open>10\<close>, below
  \<open>3/4 + 9.5\<close>. All numbers here are floats and all operations exact.
\<close>

theorem view_box_margin_counterexample:
  "view_box_of_paths (+) (-) [(3/4, 19/4, 3/4, 19/4)] = (- 9, - 9, 24, 24)
   \<and> \<not> real_of_int (- 9) \<le> 3/4 - 10
   \<and> view_box_of_paths (+) (-) [(1/4, 1/2, 1/4, 1/2)] = (- 10, - 10, 20, 20)
   \<and> \<not> 1/2 + 10 \<le> real_of_int (- 10 + 20)
   \<and> view_box_of_paths (+) (-) [(3/8, 3/4, 3/8, 3/4)] = (- 10, - 10, 20, 20)
   \<and> \<not> 3/4 + 9.5 \<le> real_of_int (- 10 + 20)"
  by (simp add: view_box_of_paths_def view_box_def py_int_def view_margin_def)

text \<open>
  Claim C5 (as amended). Let the scene have a marker group, let the field
  \<^verbatim>\<open>marker_data_coordinates\<close> be absent, and let evaluating it yield a list of fewer
  than two values. Then the export does not fail on that account. The extractor returns
  one tuple for each marker point, in order, with the identifier
  \<^verbatim>\<open>marker_\<close> and the point's number and with the values it was given. If the
  sampler and the serializer of the paths succeed, the export returns its artifacts: the
  \<^verbatim>\<open>IndexError\<close> of each marker is caught, so no \<^verbatim>\<open><circle>\<close> is written and the
  SVG text is the text written for the paths alone, while every marker has its feature
  in \<^verbatim>\<open>properties.json\<close>, with the name and the ontology identifier of its tuple
  when the marker points have distinct numbers.
\<close>

theorem missing_marker_coordinates_not_fatal:
  assumes "analyze_elements r = Inr d"
    and "group_paths_svg (quantize x) (fmt x) (calculate_bezier_control_points d) = Some (Inr ps)"
    and "find_markers_group r = Some g"
    and "marker_data_coordinates r = None"
    and "invalid_values x = Components v" and "length v < 2"
  shows "\<exists>ms out. calculate_markers (invalid_values x) r rand = Inr ms
         \<and> length ms = length (datapoints g)
         \<and> (\<forall>k < length (datapoints g).
               fst (ms ! k) = ''marker_'' @ str_int (datapoints g ! k)
             \<and> fst (snd (ms ! k)) = take 2 v
             \<and> marker_svg (fmt x) (ms ! k) = []
             \<and> (\<exists>n mo. map_of (properties_features out) (fst (ms ! k))
                          = Some (MarkerFeature n mo ''orange''))
             \<and> (distinct (datapoints g) \<longrightarrow>
                  map_of (properties_features out) (fst (ms ! k))
                    = Some (MarkerFeature (fst (snd (snd (ms ! k)))) (snd (snd (snd (ms ! k))))
                              ''orange'')))
         \<and> export_flatmapsvg_from_scene x r csv rand = Some (Inr out)
         \<and> svg_file out =
             toprettyxml x
               (replace (svg_open @ concat ps @ ''</svg>'') ''viewBox=\"WWW XXX YYY ZZZ\"''
                  (view_box_attribute (view_box_of_paths (float_add x) (float_sub x)
                     (svg2paths_bbox x (svg_open @ concat ps @ ''</svg>'')))))"
proof -
  let ?dp = "datapoints g"
  have ev: "evaluateReal (Components v) (marker_data_coordinates r) p = Components v" for p
    using assms(4) by (simp add: evaluateReal_def)
  then have "\<forall>p \<in> set ?dp. \<exists>xs. evaluateReal (Components v) (marker_data_coordinates r) p
      = Components xs" by simp
  from marker_loop_returns [OF this, of rand 0]
  obtain ms where ml: "marker_loop (Components v) r rand 0 ?dp = Inr ms" by blast
  then have ms: "calculate_markers (invalid_values x) r rand = Inr ms"
    using assms(3,5) by (simp add: calculate_markers_def)
  have len: "length ms = length ?dp" using ml by (rule marker_loop_length)
  have nil: "concat (map (marker_svg (fmt x)) ms) = []"
    using assms(6,4) ml by (rule marker_loop_short)
  from export_succeeds [OF assms(1,2) ms, of csv] obtain out where
    out: "export_flatmapsvg_from_scene x r csv rand = Some (Inr out)"
    and svg: "svg_file out =
             toprettyxml x
               (replace (svg_open @ concat ps @ concat (map (marker_svg (fmt x)) ms) @ ''</svg>'')
                  ''viewBox=\"WWW XXX YYY ZZZ\"''
                  (view_box_attribute (view_box_of_paths (float_add x) (float_sub x)
                     (svg2paths_bbox x
                        (svg_open @ concat ps @ concat (map (marker_svg (fmt x)) ms) @
                         ''</svg>'')))))"
    by blast
  from export_result [OF out assms(1)] ms obtain feats where
    f: "properties_features out = marker_features ms feats" by auto
  have each: "fst (ms ! k) = ''marker_'' @ str_int (?dp ! k)
             \<and> fst (snd (ms ! k)) = take 2 v
             \<and> marker_svg (fmt x) (ms ! k) = []
             \<and> (\<exists>n mo. map_of (properties_features out) (fst (ms ! k))
                          = Some (MarkerFeature n mo ''orange''))
             \<and> (distinct ?dp \<longrightarrow>
                  map_of (properties_features out) (fst (ms ! k))
                    = Some (MarkerFeature (fst (snd (snd (ms ! k)))) (snd (snd (snd (ms ! k))))
                              ''orange''))"
    if k: "k < length ?dp" for k
  proof -
    from marker_loop_nth [OF ml k] ev obtain n o' where
      t: "ms ! k = (''marker_'' @ str_int (?dp ! k), take 2 v, n, o')" by auto
    have 1: "fst (ms ! k) = ''marker_'' @ str_int (?dp ! k)" using t by simp
    have 2: "fst (snd (ms ! k)) = take 2 v" using t by simp
    have 3: "marker_svg (fmt x) (ms ! k) = []"
      unfolding t using assms(6) by (intro marker_svg_short) simp
    have km: "k < length ms" using k len by simp
    have 4: "\<exists>n mo. map_of (properties_features out) (fst (ms ! k))
                          = Some (MarkerFeature n mo ''orange'')"
      unfolding f using km by (rule marker_features_present)
    have 5: "distinct ?dp \<longrightarrow>
                  map_of (properties_features out) (fst (ms ! k))
                    = Some (MarkerFeature (fst (snd (snd (ms ! k)))) (snd (snd (snd (ms ! k))))
                              ''orange'')"
    proof
      assume "distinct ?dp"
      with ml have "distinct (map fst ms)" by (rule marker_loop_distinct)
      then show "map_of (properties_features out) (fst (ms ! k))
                    = Some (MarkerFeature (fst (snd (snd (ms ! k)))) (snd (snd (snd (ms ! k))))
                              ''orange'')"
        unfolding f using km by (rule marker_features_distinct)
    qed
    from 1 2 3 4 5 show ?thesis by (intro conjI)
  qed
  from svg have svg': "svg_file out =
             toprettyxml x
               (replace (svg_open @ concat ps @ ''</svg>'') ''viewBox=\"WWW XXX YYY ZZZ\"''
                  (view_box_attribute (view_box_of_paths (float_add x) (float_sub x)
                     (svg2paths_bbox x (svg_open @ concat ps @ ''</svg>'')))))"
    unfolding nil by simp
  from ms len each out svg' show ?thesis by blast
qed

text \<open>
  The example scene has the marker group with the marker point 5 and no field
  \<^verbatim>\<open>marker_data_coordinates\<close>; evaluating it yields the empty list.
\<close>

theorem missing_marker_coordinates_not_fatal_witness:
  "analyze_elements example_region = Inr example_path_points
   \<and> find_markers_group example_region
       = Some \<lparr>getName = ''marker'', mesh_group = [], datapoints = [5]\<rparr>
   \<and> marker_data_coordinates example_region = None
   \<and> invalid_values example_ext = Components []
   \<and> (\<exists>ms out. calculate_markers (invalid_values example_ext) example_region example_rand = Inr ms
         \<and> length ms = 1
         \<and> fst (ms ! 0) = ''marker_'' @ str_int 5
         \<and> marker_svg (fmt example_ext) (ms ! 0) = []
         \<and> export_flatmapsvg_from_scene example_ext example_region None example_rand
             = Some (Inr out)
         \<and> (\<exists>n mo. map_of (properties_features out) (fst (ms ! 0))
                      = Some (MarkerFeature n mo ''orange'')))"
proof -
  let ?g = "\<lparr>getName = ''marker'', mesh_group = [], datapoints = [5]\<rparr> :: zgroup"
  have c: "marker_data_coordinates example_region = None"
    by (simp add: example_region_def)
  have v: "invalid_values example_ext = Components []" by (simp add: example_ext_def)
  have l: "length ([] :: real list) < 2" by simp
  have p: "group_paths_svg (quantize example_ext) (fmt example_ext)
       (calculate_bezier_control_points example_path_points)
     = Some (Inr [''<path d=\"M 0 0 C 1 0, 2 0, 3 0\" stroke=\"#01136e\" fill=\"none\">'' @
        ''<title>.centreline id(nerve_feature_1)</title></path>''])"
    unfolding example_bezier example_quantize by (rule example_group_paths)
  from missing_marker_coordinates_not_fatal [OF example_analysis p example_markers_group c v l,
      of example_rand None]
  obtain ms out where ms: "calculate_markers (invalid_values example_ext) example_region example_rand
        = Inr ms"
    and len: "length ms = length (datapoints ?g)"
    and each: "\<forall>k < length (datapoints ?g).
               fst (ms ! k) = ''marker_'' @ str_int (datapoints ?g ! k)
             \<and> fst (snd (ms ! k)) = take 2 []
             \<and> marker_svg (fmt example_ext) (ms ! k) = []
             \<and> (\<exists>n mo. map_of (properties_features out) (fst (ms ! k))
                          = Some (MarkerFeature n mo ''orange''))
             \<and> (distinct (datapoints ?g) \<longrightarrow>
                  map_of (properties_features out) (fst (ms ! k))
                    = Some (MarkerFeature (fst (snd (snd (ms ! k)))) (snd (snd (snd (ms ! k))))
                              ''orange''))"
    and out: "export_flatmapsvg_from_scene example_ext example_region None example_rand
               = Some (Inr out)"
    by blast
  from len have len': "length ms = 1" by simp
  have "(0 :: nat) < length (datapoints ?g)" by simp
  with each have e0: "fst (ms ! 0) = ''marker_'' @ str_int (datapoints ?g ! 0)
             \<and> marker_svg (fmt example_ext) (ms ! 0) = []
             \<and> (\<exists>n mo. map_of (properties_features out) (fst (ms ! 0))
                          = Some (MarkerFeature n mo ''orange''))"
    by blast
  have d0: "datapoints ?g ! 0 = 5" by simp
  from e0 have e1: "fst (ms ! 0) = ''marker_'' @ str_int 5"
    unfolding d0 by (rule conjunct1)
  from e0 have e2: "marker_svg (fmt example_ext) (ms ! 0) = []"
    by (rule conjunct1 [OF conjunct2])
  from e0 have e3: "\<exists>n mo. map_of (properties_features out) (fst (ms ! 0))
                          = Some (MarkerFeature n mo ''orange'')"
    by (rule conjunct2 [OF conjunct2])
  from ms len' e1 e2 out e3
  have "\<exists>ms out. calculate_markers (invalid_values example_ext) example_region example_rand = Inr ms
         \<and> length ms = 1
         \<and> fst (ms ! 0) = ''marker_'' @ str_int 5
         \<and> marker_svg (fmt example_ext) (ms ! 0) = []
         \<and> export_flatmapsvg_from_scene example_ext example_region None example_rand
             = Some (Inr out)
         \<and> (\<exists>n mo. map_of (properties_features out) (fst (ms ! 0))
                      = Some (MarkerFeature n mo ''orange''))"
    by blast
  with example_analysis example_markers_group c v show ?thesis by (intro conjI)
qed

text \<open>
  Claim C5 as stated does not hold: the example scene has a marker group and no field
  \<^verbatim>\<open>marker_data_coordinates\<close>, and the export returns its artifacts, with the
  marker's feature and without a \<^verbatim>\<open><circle>\<close>.
\<close>

theorem missing_marker_coordinates_counterexample:
  "marker_data_coordinates example_region = None
   \<and> find_markers_group example_region
       = Some \<lparr>getName = ''marker'', mesh_group = [], datapoints = [5]\<rparr>
   \<and> calculate_markers (invalid_values example_ext) example_region example_rand
       = Inr [(''marker_5'', [], ''Unnamed marker 1'', ''UBERON:9900042'')]
   \<and> export_flatmapsvg_from_scene example_ext example_region None example_rand
       = Some (Inr example_artifacts)"
proof -
  have "marker_data_coordinates example_region = None" by (simp add: example_region_def)
  with example_markers_group example_export_markers example_export show ?thesis
    by (intro conjI)
qed

text \<open>
  Claim C6 (as amended). An annotation CSV file with at least one row is accepted if and
  only if its first row is exactly \<^verbatim>\<open>Term ID\<close>, \<^verbatim>\<open>Group name\<close> and every later
  row has exactly two columns. A file that is not accepted is ignored as a whole: the
  reverse map stays \<^verbatim>\<open>None\<close> and a centreline feature gets no \<^verbatim>\<open>models\<close>. An
  accepted file yields the reverse map in which a later row overrides an earlier row with
  the same second column: it takes a second column to the first column of the last row
  that has it. A centreline whose display name is in that map with a non-empty value gets
  the value as \<^verbatim>\<open>models\<close>, and no \<^verbatim>\<open>models\<close> otherwise.
\<close>

theorem annotation_csv_acceptance:
  "(rows \<noteq> [] \<longrightarrow>
      is_annotation_csv_file rows =
        (hd rows = [''Term ID'', ''Group name''] \<and> (\<forall>row \<in> set (tl rows). length row = 2)))
   \<and> (\<not> is_annotation_csv_file rows \<longrightarrow>
        load_reversed_map (Some rows) = Inr None
        \<and> (\<forall>name. centreline_feature (DisplayName name) None
                     = Inr (Centreline (DisplayName name) None)))
   \<and> (is_annotation_csv_file rows \<longrightarrow>
        (\<exists>m. load_reversed_map (Some rows) = Inr (Some m)
            \<and> map_of m = map_of (rev (map (\<lambda>row. (row ! 1, row ! 0)) (tl rows)))
            \<and> (\<forall>name v. map_of m name = Some v \<and> v \<noteq> [] \<longrightarrow>
                  centreline_feature (DisplayName name) (Some m)
                    = Inr (Centreline (DisplayName name) (Some v)))
            \<and> (\<forall>name. map_of m name = None \<or> map_of m name = Some [] \<longrightarrow>
                  centreline_feature (DisplayName name) (Some m)
                    = Inr (Centreline (DisplayName name) None))))"
proof (intro conjI impI)
  assume "rows \<noteq> []"
  then show "is_annotation_csv_file rows =
        (hd rows = [''Term ID'', ''Group name''] \<and> (\<forall>row \<in> set (tl rows). length row = 2))"
    by (rule is_annotation_csv_file_iff)
next
  assume "\<not> is_annotation_csv_file rows"
  then show "load_reversed_map (Some rows) = Inr None" by (simp add: load_reversed_map_def)
next
  show "\<forall>name. centreline_feature (DisplayName name) None
                     = Inr (Centreline (DisplayName name) None)"
    by (simp add: centreline_feature_def)
next
  assume "is_annotation_csv_file rows"
  from load_reversed_map_accepted [OF this]
  obtain m where 1: "load_reversed_map (Some rows) = Inr (Some m)"
    and 2: "map_of m = map_of (rev (map (\<lambda>row. (row ! 1, row ! 0)) (tl rows)))" by blast
  have 3: "\<forall>name v. map_of m name = Some v \<and> v \<noteq> [] \<longrightarrow>
                  centreline_feature (DisplayName name) (Some m)
                    = Inr (Centreline (DisplayName name) (Some v))"
    by (simp add: centreline_feature_def label_has_annotations_def)
  have 4: "\<forall>name. map_of m name = None \<or> map_of m name = Some [] \<longrightarrow>
                  centreline_feature (DisplayName name) (Some m)
                    = Inr (Centreline (DisplayName name) None)"
    by (auto simp: centreline_feature_def label_has_annotations_def)
  from 1 2 3 4
  show "\<exists>m. load_reversed_map (Some rows) = Inr (Some m)
            \<and> map_of m = map_of (rev (map (\<lambda>row. (row ! 1, row ! 0)) (tl rows)))
            \<and> (\<forall>name v. map_of m name = Some v \<and> v \<noteq> [] \<longrightarrow>
                  centreline_feature (DisplayName name) (Some m)
                    = Inr (Centreline (DisplayName name) (Some v)))
            \<and> (\<forall>name. map_of m name = None \<or> map_of m name = Some [] \<longrightarrow>
                  centreline_feature (DisplayName name) (Some m)
                    = Inr (Centreline (DisplayName name) None))"
    by blast
qed

theorem annotation_csv_acceptance_witness:
  "example_csv \<noteq> [] \<and> is_annotation_csv_file example_csv
   \<and> hd example_csv = [''Term ID'', ''Group name'']
   \<and> load_reversed_map (Some example_csv) = Inr (Some [(''ureter'', ''UBERON:0001255'')])
   \<and> centreline_feature (DisplayName ''ureter'') (Some [(''ureter'', ''UBERON:0001255'')])
       = Inr (Centreline (DisplayName ''ureter'') (Some ''UBERON:0001255''))
   \<and> \<not> is_annotation_csv_file [[''Term'', ''Group name''], [''UBERON:0001255'', ''ureter'']]
   \<and> load_reversed_map (Some [[''Term'', ''Group name''], [''UBERON:0001255'', ''ureter'']]) = Inr None"
proof -
  have a: "is_annotation_csv_file example_csv" by (rule example_csv_accepted)
  have n: "example_csv \<noteq> []" by (simp add: example_csv_def)
  from annotation_csv_acceptance [of example_csv] a n
  have "hd example_csv = [''Term ID'', ''Group name'']" by blast
  moreover from annotation_csv_acceptance [of example_csv] a
  obtain m where m: "load_reversed_map (Some example_csv) = Inr (Some m)"
    and f: "\<forall>name v. map_of m name = Some v \<and> v \<noteq> [] \<longrightarrow>
                  centreline_feature (DisplayName name) (Some m)
                    = Inr (Centreline (DisplayName name) (Some v))" by blast
  from m have m': "m = [(''ureter'', ''UBERON:0001255'')]" by (simp add: example_csv_map)
  have "map_of m ''ureter'' = Some ''UBERON:0001255'' \<and> ''UBERON:0001255'' \<noteq> []"
    unfolding m' by simp
  with f have "centreline_feature (DisplayName ''ureter'') (Some m)
       = Inr (Centreline (DisplayName ''ureter'') (Some ''UBERON:0001255''))" by blast
  then have "centreline_feature (DisplayName ''ureter'') (Some [(''ureter'', ''UBERON:0001255'')])
       = Inr (Centreline (DisplayName ''ureter'') (Some ''UBERON:0001255''))"
    unfolding m' .
  moreover have r: "\<not> is_annotation_csv_file [[''Term'', ''Group name''], [''UBERON:0001255'', ''ureter'']]"
    by (simp add: is_annotation_csv_file_def)
  moreover from annotation_csv_acceptance [of "[[''Term'', ''Group name''], [''UBERON:0001255'', ''ureter'']]"] r
  have "load_reversed_map (Some [[''Term'', ''Group name''], [''UBERON:0001255'', ''ureter'']]) = Inr None"
    by blast
  ultimately show ?thesis using a n by (simp add: example_csv_map)
qed

theorem annotation_csv_acceptance_counterexample:
  "is_annotation_csv_file []
   \<and> load_reversed_map (Some []) = Inr (Some [])
   \<and> is_annotation_csv_file [[''Term ID'', ''Group name''], [''A'', ''x''], [''B'', ''x'']]
   \<and> load_reversed_map (Some [[''Term ID'', ''Group name''], [''A'', ''x''], [''B'', ''x'']])
       = Inr (Some [(''x'', ''B'')])
   \<and> map_of [(''x'', ''B'')] ''x'' \<noteq> Some ''A''"
  by (simp add: load_reversed_map_def is_annotation_csv_file_def reverse_map_annotations_def)

text \<open>
  Claim C7. Let the sampler return its dictionary for a scene whose mesh is not empty.
  Then the group list is not empty; with \<open>n\<close> its length, the digit width used in the
  labels \<^verbatim>\<open>group_NNN\<close> is \<open>\<lceil>log\<^sub>1\<^sub>0 (n + 1)\<rceil>\<close>, computed once from \<open>n\<close>. The
  keys of the dictionary are, in insertion order, \<^verbatim>\<open>ungrouped\<close> and then, for each
  group not named \<^verbatim>\<open>marker\<close> in the order of the group list, its label and its SVG
  identifier. The label of the group at position \<open>i\<close> holds the group's list of
  samples; it is \<^verbatim>\<open>group_\<close> followed by exactly that many decimal digits, whose
  value is \<open>i + 1\<close> (the number is zero-padded to the width). The labels compare, as
  strings, in the order of the groups' positions.
\<close>

theorem group_label_width:
  assumes "analyze_elements r = Inr d" and "mesh_elements r \<noteq> []"
  shows "0 < length (group_list r)
       \<and> int (size_of_digits (length (group_list r))) = \<lceil>log 10 (real (length (group_list r) + 1))\<rceil>
       \<and> map fst d = ''ungrouped'' #
           concat (map (\<lambda>i. [group_label i (size_of_digits (length (group_list r))), group_svg_id (group_label i (size_of_digits (length (group_list r))))])
             (filter (\<lambda>i. getName (group_list r ! i) \<noteq> ''marker'') [0..<length (group_list r)]))
       \<and> (\<forall>i < length (group_list r). getName (group_list r ! i) \<noteq> ''marker'' \<longrightarrow>
             (\<exists>xs. map_of d (group_label i (size_of_digits (length (group_list r)))) = Some (Samples xs))
           \<and> group_label i (size_of_digits (length (group_list r))) = ''group_'' @ group_number i (size_of_digits (length (group_list r)))
           \<and> length (group_number i (size_of_digits (length (group_list r)))) = (size_of_digits (length (group_list r)))
           \<and> (\<forall>c \<in> set (group_number i (size_of_digits (length (group_list r)))). is_digit c)
           \<and> nat_of_digits (group_number i (size_of_digits (length (group_list r)))) = i + 1)
       \<and> (\<forall>i j. i < j \<and> j < length (group_list r) \<longrightarrow> str_less (group_label i (size_of_digits (length (group_list r)))) (group_label j (size_of_digits (length (group_list r)))))"
proof (intro conjI allI impI)
  from analyze_elements_groups [OF assms] show n: "0 < length (group_list r)" by simp
  then show "int (size_of_digits (length (group_list r))) = \<lceil>log 10 (real (length (group_list r) + 1))\<rceil>"
    by (rule size_of_digits_log)
next
  from assms show "map fst d = ''ungrouped'' #
           concat (map (\<lambda>i. [group_label i (size_of_digits (length (group_list r))), group_svg_id (group_label i (size_of_digits (length (group_list r))))])
             (filter (\<lambda>i. getName (group_list r ! i) \<noteq> ''marker'') [0..<length (group_list r)]))"
    by (rule analyze_elements_key_order)
next
  fix i assume "i < length (group_list r)" and "getName (group_list r ! i) \<noteq> ''marker''"
  with assms show "\<exists>xs. map_of d (group_label i (size_of_digits (length (group_list r)))) = Some (Samples xs)"
    by (rule analyze_elements_samples_key)
next
  fix i
  show "group_label i (size_of_digits (length (group_list r))) = ''group_'' @ group_number i (size_of_digits (length (group_list r)))"
    by (rule group_label_def)
next
  fix i assume "i < length (group_list r)"
  then show "length (group_number i (size_of_digits (length (group_list r)))) = (size_of_digits (length (group_list r)))"
    by (rule group_number_length)
next
  fix i
  show "\<forall>c \<in> set (group_number i (size_of_digits (length (group_list r)))). is_digit c"
    by (rule group_number_digits)
next
  fix i
  show "nat_of_digits (group_number i (size_of_digits (length (group_list r)))) = i + 1"
    by (rule group_number_value)
next
  fix i j assume "i < j \<and> j < length (group_list r)"
  then have "i < j" and "j < length (group_list r)" by simp_all
  then show "str_less (group_label i (size_of_digits (length (group_list r)))) (group_label j (size_of_digits (length (group_list r))))"
    by (rule group_labels_sorted)
qed

text \<open>
  The example scene has three groups, the second named \<^verbatim>\<open>marker\<close>: the width is 1
  and the keys are those of the first and the third group.
\<close>

theorem group_label_width_witness:
  "analyze_elements example_region = Inr example_path_points
   \<and> mesh_elements example_region \<noteq> []
   \<and> length (group_list example_region) = 3
   \<and> int (size_of_digits 3) = \<lceil>log 10 (real (3 + 1))\<rceil>
   \<and> size_of_digits 3 = 1
   \<and> map fst example_path_points
       = [''ungrouped'', ''group_1'', ''nerve_feature_1'', ''group_3'', ''nerve_feature_3'']
   \<and> str_less (group_label 0 (size_of_digits 3)) (group_label 2 (size_of_digits 3))
   \<and> group_label 0 (size_of_digits 3) = ''group_1''
   \<and> group_label 2 (size_of_digits 3) = ''group_3''"
proof -
  have g: "mesh_elements example_region \<noteq> []" by (simp add: example_region_def)
  have n: "length (group_list example_region) = 3" by (simp add: example_region_def)
  note t = group_label_width [OF example_analysis g, unfolded n]
  from t have 1: "int (size_of_digits 3) = \<lceil>log 10 (real (3 + 1))\<rceil>" by blast
  have o: "(0 :: nat) < 2 \<and> (2 :: nat) < 3" by simp
  from t have "\<forall>i j. i < j \<and> j < 3 \<longrightarrow>
      str_less (group_label i (size_of_digits 3)) (group_label j (size_of_digits 3))"
    by blast
  with o have 2: "str_less (group_label 0 (size_of_digits 3)) (group_label 2 (size_of_digits 3))"
    by blast
  have w: "size_of_digits 3 = 1" by (simp add: size_of_digits_def str_nat_small)
  have k: "map fst example_path_points
       = [''ungrouped'', ''group_1'', ''nerve_feature_1'', ''group_3'', ''nerve_feature_3'']"
    by (simp add: example_path_points_def)
  have l: "group_label 0 (size_of_digits 3) = ''group_1''"
    "group_label 2 (size_of_digits 3) = ''group_3''"
    unfolding w
    by (simp_all add: group_label_def group_number_def rjust_def str_nat_small digit_char_def)
  from example_analysis g n 1 w k 2 l show ?thesis by (intro conjI)
qed

text \<open>
  Claim C8. Let the scene have a marker group, and let \<open>k\<close> be the position of a
  point in it (counting from 0) whose draw of \<^verbatim>\<open>random.randint(1, 99999)\<close> lies in
  that range. If evaluating the coordinate field yields a list for every marker point,
  the extractor returns one tuple for each point, and in the tuple at position \<open>k\<close>:
  the SVG element identifier is \<^verbatim>\<open>marker_\<close> followed by the point's identifier; the
  coordinates are the first two values; the name is the value of the name field, or
  \<^verbatim>\<open>Unnamed marker\<close> followed by \<open>k + 1\<close> when that field is absent; the ontology
  identifier is the value of the identifier field, or, when that field is absent,
  \<^verbatim>\<open>UBERON:99\<close> followed by the draw written with five decimal digits. If
  evaluating the coordinate field yields a bare float for some marker point (a field of
  one component), the extractor raises \<^verbatim>\<open>TypeError\<close>.
\<close>

theorem marker_defaults:
  assumes "find_markers_group r = Some g" and "k < length (datapoints g)"
    and "1 \<le> rand k" and "rand k \<le> 99999"
  shows "((\<forall>p \<in> set (datapoints g).
             \<exists>xs. evaluateReal iv (marker_data_coordinates r) p = Components xs) \<longrightarrow>
          (\<exists>ms. calculate_markers iv r rand = Inr ms
             \<and> length ms = length (datapoints g)
             \<and> fst (ms ! k) = ''marker_'' @ str_int (datapoints g ! k)
             \<and> (\<exists>xs. evaluateReal iv (marker_data_coordinates r) (datapoints g ! k) = Components xs
                   \<and> fst (snd (ms ! k)) = take 2 xs)
             \<and> (marker_data_name r = None \<longrightarrow>
                  fst (snd (snd (ms ! k))) = ''Unnamed marker '' @ str_nat (k + 1))
             \<and> (\<forall>f. marker_data_name r = Some f \<longrightarrow>
                  fst (snd (snd (ms ! k))) = f (datapoints g ! k))
             \<and> (marker_data_id r = None \<longrightarrow>
                  snd (snd (snd (ms ! k))) = ''UBERON:99'' @ format_0eq5 (rand k)
                  \<and> length (format_0eq5 (rand k)) = 5
                  \<and> (\<forall>c \<in> set (format_0eq5 (rand k)). is_digit c)
                  \<and> int (nat_of_digits (format_0eq5 (rand k))) = rand k)
             \<and> (\<forall>f. marker_data_id r = Some f \<longrightarrow>
                  snd (snd (snd (ms ! k))) = f (datapoints g ! k))))
       \<and> ((\<exists>p \<in> set (datapoints g).
             \<exists>v. evaluateReal iv (marker_data_coordinates r) p = Scalar v) \<longrightarrow>
          calculate_markers iv r rand = Inl TypeError)"
proof (intro conjI impI)
  have cm: "calculate_markers iv r rand = marker_loop iv r rand 0 (datapoints g)"
    using assms(1) by (simp add: calculate_markers_def)
  {
    assume "\<exists>p \<in> set (datapoints g). \<exists>v. evaluateReal iv (marker_data_coordinates r) p = Scalar v"
    then obtain p v where "p \<in> set (datapoints g)"
      "evaluateReal iv (marker_data_coordinates r) p = Scalar v" by blast
    then show "calculate_markers iv r rand = Inl TypeError"
      unfolding cm by (rule marker_loop_raises)
  }
  assume "\<forall>p \<in> set (datapoints g).
             \<exists>xs. evaluateReal iv (marker_data_coordinates r) p = Components xs"
  from marker_loop_returns [OF this, of rand 0]
  obtain ms where ml: "marker_loop iv r rand 0 (datapoints g) = Inr ms" by blast
  have len: "length ms = length (datapoints g)" using ml by (rule marker_loop_length)
  from marker_loop_nth [OF ml assms(2)] obtain xs where
    xs: "evaluateReal iv (marker_data_coordinates r) (datapoints g ! k) = Components xs"
    and t: "ms ! k =
       (''marker_'' @ str_int (datapoints g ! k), take 2 xs,
        (case marker_data_name r of
           Some f \<Rightarrow> f (datapoints g ! k)
         | None \<Rightarrow> ''Unnamed marker '' @ str_nat (0 + k + 1)),
        (case marker_data_id r of
           Some f \<Rightarrow> f (datapoints g ! k)
         | None \<Rightarrow> ''UBERON:99'' @ format_0eq5 (rand (0 + k))))"
    by blast
  note d = format_0eq5_digits [OF assms(3,4)]
  have v: "int (nat_of_digits (format_0eq5 (rand k))) = rand k"
    using d assms(3) by simp
  have 1: "fst (ms ! k) = ''marker_'' @ str_int (datapoints g ! k)" unfolding t by simp
  have 2: "\<exists>xs. evaluateReal iv (marker_data_coordinates r) (datapoints g ! k) = Components xs
                   \<and> fst (snd (ms ! k)) = take 2 xs"
    using xs t by simp
  have 3: "marker_data_name r = None \<longrightarrow>
                  fst (snd (snd (ms ! k))) = ''Unnamed marker '' @ str_nat (k + 1)"
    unfolding t by simp
  have 4: "\<forall>f. marker_data_name r = Some f \<longrightarrow>
                  fst (snd (snd (ms ! k))) = f (datapoints g ! k)"
    unfolding t by simp
  have 5: "marker_data_id r = None \<longrightarrow>
                  snd (snd (snd (ms ! k))) = ''UBERON:99'' @ format_0eq5 (rand k)
                  \<and> length (format_0eq5 (rand k)) = 5
                  \<and> (\<forall>c \<in> set (format_0eq5 (rand k)). is_digit c)
                  \<and> int (nat_of_digits (format_0eq5 (rand k))) = rand k"
    unfolding t using d v by simp
  have 6: "\<forall>f. marker_data_id r = Some f \<longrightarrow>
                  snd (snd (snd (ms ! k))) = f (datapoints g ! k)"
    unfolding t by simp
  from ml len 1 2 3 4 5 6
  show "\<exists>ms. calculate_markers iv r rand = Inr ms
             \<and> length ms = length (datapoints g)
             \<and> fst (ms ! k) = ''marker_'' @ str_int (datapoints g ! k)
             \<and> (\<exists>xs. evaluateReal iv (marker_data_coordinates r) (datapoints g ! k) = Components xs
                   \<and> fst (snd (ms ! k)) = take 2 xs)
             \<and> (marker_data_name r = None \<longrightarrow>
                  fst (snd (snd (ms ! k))) = ''Unnamed marker '' @ str_nat (k + 1))
             \<and> (\<forall>f. marker_data_name r = Some f \<longrightarrow>
                  fst (snd (snd (ms ! k))) = f (datapoints g ! k))
             \<and> (marker_data_id r = None \<longrightarrow>
                  snd (snd (snd (ms ! k))) = ''UBERON:99'' @ format_0eq5 (rand k)
                  \<and> length (format_0eq5 (rand k)) = 5
                  \<and> (\<forall>c \<in> set (format_0eq5 (rand k)). is_digit c)
                  \<and> int (nat_of_digits (format_0eq5 (rand k))) = rand k)
             \<and> (\<forall>f. marker_data_id r = Some f \<longrightarrow>
                  snd (snd (snd (ms ! k))) = f (datapoints g ! k))"
    unfolding cm by (intro exI [of _ ms] conjI)
qed

text \<open>
  In the example scene the marker point 5 has neither a name nor an identifier, and the
  draw is 42. With a coordinate field of one component the extractor raises
  \<^verbatim>\<open>TypeError\<close>.
\<close>

theorem marker_defaults_witness:
  "find_markers_group example_region
     = Some \<lparr>getName = ''marker'', mesh_group = [], datapoints = [5]\<rparr>
   \<and> marker_data_name example_region = None \<and> marker_data_id example_region = None
   \<and> (1::int) \<le> 42 \<and> (42::int) \<le> 99999
   \<and> evaluateReal (Components []) (marker_data_coordinates example_region) 5 = Components []
   \<and> calculate_markers (Components []) example_region (\<lambda>j. 42)
       = Inr [(''marker_5'', [], ''Unnamed marker 1'', ''UBERON:9900042'')]
   \<and> int (nat_of_digits (format_0eq5 42)) = 42
   \<and> find_markers_group scalar_region
     = Some \<lparr>getName = ''marker'', mesh_group = [], datapoints = [5]\<rparr>
   \<and> evaluateReal (Components []) (marker_data_coordinates scalar_region) 5 = Scalar 1
   \<and> calculate_markers (Components []) scalar_region (\<lambda>j. 42) = Inl TypeError"
proof -
  let ?g = "\<lparr>getName = ''marker'', mesh_group = [], datapoints = [5]\<rparr> :: zgroup"
  have g: "find_markers_group example_region = Some ?g"
    by (rule example_markers_group)
  have gs: "find_markers_group scalar_region = Some ?g"
    by (simp add: find_markers_group_def scalar_region_def example_region_def)
  have k: "0 < length (datapoints ?g)" by simp
  have rnd: "1 \<le> (\<lambda>j :: nat. 42 :: int) 0" "(\<lambda>j :: nat. 42 :: int) 0 \<le> 99999" by simp_all
  have n: "marker_data_name example_region = None" "marker_data_id example_region = None"
    by (simp_all add: example_region_def)
  have e: "evaluateReal (Components []) (marker_data_coordinates example_region) 5 = Components []"
    by (simp add: evaluateReal_def example_region_def)
  have es: "evaluateReal (Components []) (marker_data_coordinates scalar_region) 5 = Scalar 1"
    by (simp add: evaluateReal_def scalar_region_def)
  have all: "\<forall>p \<in> set (datapoints ?g).
      \<exists>xs. evaluateReal (Components []) (marker_data_coordinates example_region) p = Components xs"
    using e by simp
  have some: "\<exists>p \<in> set (datapoints ?g).
      \<exists>v. evaluateReal (Components []) (marker_data_coordinates scalar_region) p = Scalar v"
    using es by simp
  note t = marker_defaults [OF g k rnd, of "Components []"]
  from t all n(2) have "int (nat_of_digits (format_0eq5 ((\<lambda>j :: nat. 42 :: int) 0)))
      = (\<lambda>j :: nat. 42 :: int) 0"
    by blast
  then have v: "int (nat_of_digits (format_0eq5 42)) = 42" by simp
  note u = marker_defaults [OF gs k rnd, of "Components []"]
  from u some have r: "calculate_markers (Components []) scalar_region (\<lambda>j. 42) = Inl TypeError"
    by blast
  have b: "(1::int) \<le> 42" "(42::int) \<le> 99999" by simp_all
  from g n b e example_markers v gs es r show ?thesis by (intro conjI)
qed

text \<open>
  Claim C9. Let the export return its artifacts, and let a group that is not named
  \<^verbatim>\<open>marker\<close> have an empty sample list in the sampler's output. Then the group's
  label is not a key of the converted data (empty groups are left out before the
  conversion), the serializer writes exactly one \<^verbatim>\<open><path>\<close> for each key of the
  converted data and so none for this group, and the features of
  \<^verbatim>\<open>properties.json\<close> hold a centreline entry under the group's SVG identifier whose
  label is the display name.
\<close>

theorem empty_group_feature_without_path:
  assumes "export_flatmapsvg_from_scene x r csv rand = Some (Inr out)"
    and "analyze_elements r = Inr d"
    and "i < length (group_list r)" and "getName (group_list r ! i) \<noteq> ''marker''"
    and "map_of d (group_label i (size_of_digits (length (group_list r)))) = Some (Samples [])"
  shows "group_label i (size_of_digits (length (group_list r)))
           \<notin> fst ` set (calculate_bezier_control_points d)
       \<and> (\<exists>ps. group_paths_svg (quantize x) (fmt x) (calculate_bezier_control_points d) = Some (Inr ps)
               \<and> length ps = length (calculate_bezier_control_points d))
       \<and> (\<exists>m. map_of (properties_features out)
                  (group_svg_id (group_label i (size_of_digits (length (group_list r)))))
                = Some (Centreline (DisplayName (getName (group_list r ! i))) m))"
proof -
  let ?w = "size_of_digits (length (group_list r))"
  let ?id = "group_svg_id (group_label i ?w)"
  have ne: "mesh_elements r \<noteq> []"
  proof
    assume "mesh_elements r = []"
    with assms(2) have "d = []" by (simp add: analyze_elements_def)
    with assms(5) show False by simp
  qed
  from export_result [OF assms(1,2)] obtain ps ms rm feats where
    ps: "group_paths_svg (quantize x) (fmt x) (calculate_bezier_control_points d) = Some (Inr ps)"
    and ms: "calculate_markers (invalid_values x) r rand = Inr ms"
    and feats: "centreline_features (map fst d) d rm [] = Inr feats"
    and out: "properties_features out = marker_features ms feats"
    by blast
  have name: "map_of d ?id = Some (DisplayName (getName (group_list r ! i)))"
    using assms(2) ne assms(3,4) by (rule analyze_elements_name)
  then have "?id \<in> set (map fst d)"
    by (metis domI dom_map_of_conv_image_fst set_map)
  then have "?id \<in> set (map fst d) \<or>
      (\<exists>m. map_of [] ?id = Some (Centreline (DisplayName (getName (group_list r ! i))) m))"
    by simp
  from centreline_features_lookup [OF feats is_group_svg_id_label name this]
  obtain m where m: "map_of feats ?id = Some (Centreline (DisplayName (getName (group_list r ! i))) m)"
    by blast
  have "?id \<notin> fst ` set ms"
    using calculate_markers_keys [OF ms] is_group_svg_id_label [of i ?w]
    by auto
  then have "map_of (properties_features out) ?id = map_of feats ?id"
    unfolding out by (rule marker_features_other)
  with m have 3: "\<exists>m. map_of (properties_features out) ?id
                = Some (Centreline (DisplayName (getName (group_list r ! i))) m)" by simp
  have 1: "group_label i ?w \<notin> fst ` set (calculate_bezier_control_points d)"
    using assms(5) by (rule empty_group_not_converted)
  have 2: "\<exists>ps. group_paths_svg (quantize x) (fmt x) (calculate_bezier_control_points d) = Some (Inr ps)
               \<and> length ps = length (calculate_bezier_control_points d)"
    using ps group_paths_svg_length [OF ps] by blast
  from 1 2 3 show ?thesis by blast
qed

theorem empty_group_feature_without_path_witness:
  "export_flatmapsvg_from_scene example_ext example_region None example_rand
     = Some (Inr example_artifacts)
   \<and> getName (group_list example_region ! 2) = ''branch''
   \<and> map_of example_path_points ''group_3'' = Some (Samples [])
   \<and> ''group_3'' \<notin> fst ` set (calculate_bezier_control_points example_path_points)
   \<and> (\<exists>m. map_of (properties_features example_artifacts) ''nerve_feature_3''
            = Some (Centreline (DisplayName ''branch'') m))"
proof -
  have l: "group_label 2 (size_of_digits (length (group_list example_region))) = ''group_3''"
    by (simp add: example_width group_label_def group_number_def rjust_def str_nat_small digit_char_def)
  have g: "2 < length (group_list example_region)"
    "getName (group_list example_region ! 2) \<noteq> ''marker''"
    "getName (group_list example_region ! 2) = ''branch''"
    by (simp_all add: example_region_def)
  have s: "map_of example_path_points ''group_3'' = Some (Samples [])"
    by (simp add: example_path_points_def)
  have s': "map_of example_path_points
      (group_label 2 (size_of_digits (length (group_list example_region)))) = Some (Samples [])"
    unfolding l by (rule s)
  note t = empty_group_feature_without_path [OF example_export example_analysis g(1) g(2) s']
  from t have "''group_3'' \<notin> fst ` set (calculate_bezier_control_points example_path_points)"
    unfolding l by blast
  moreover from t have "\<exists>m. map_of (properties_features example_artifacts) ''nerve_feature_3''
            = Some (Centreline (DisplayName ''branch'') m)"
    unfolding example_labels g(3) by blast
  ultimately show ?thesis using example_export g(3) s by blast
qed

text \<open>
  Claim C10. A group named \<^verbatim>\<open>marker\<close> at position \<open>i\<close> of the group list gets
  neither the key \<^verbatim>\<open>group_NNN\<close> nor the key of a centreline in the sampler's
  output, yet its index is consumed: every later group that is not named
  \<^verbatim>\<open>marker\<close> has its label and its display name in the output, the number in its
  label is its 1-based position in the whole group list, and no label carries the
  marker group's number.
\<close>

theorem marker_group_consumes_index:
  assumes "analyze_elements r = Inr d" and "mesh_elements r \<noteq> []"
    and "i < length (group_list r)" and "getName (group_list r ! i) = ''marker''"
  shows "map_of d (group_label i (size_of_digits (length (group_list r)))) = None
       \<and> map_of d (group_svg_id (group_label i (size_of_digits (length (group_list r))))) = None
       \<and> (\<forall>j. i < j \<and> j < length (group_list r) \<and> getName (group_list r ! j) \<noteq> ''marker'' \<longrightarrow>
             (\<exists>xs. map_of d (group_label j (size_of_digits (length (group_list r)))) = Some (Samples xs)) \<and>
             map_of d (group_svg_id (group_label j (size_of_digits (length (group_list r)))))
               = Some (DisplayName (getName (group_list r ! j))) \<and>
             group_label j (size_of_digits (length (group_list r)))
               = ''group_'' @ group_number j (size_of_digits (length (group_list r))) \<and>
             nat_of_digits (group_number j (size_of_digits (length (group_list r)))) = j + 1 \<and>
             nat_of_digits (group_number j (size_of_digits (length (group_list r)))) \<noteq> i + 1)"
proof (intro conjI allI impI)
  show "map_of d (group_label i (size_of_digits (length (group_list r)))) = None"
    using analyze_elements_marker [OF assms(1,3,4)] by simp
next
  show "map_of d (group_svg_id (group_label i (size_of_digits (length (group_list r))))) = None"
    using analyze_elements_marker [OF assms(1,3,4)] by simp
next
  fix j
  assume "i < j \<and> j < length (group_list r) \<and> getName (group_list r ! j) \<noteq> ''marker''"
  then have j: "j < length (group_list r)" "getName (group_list r ! j) \<noteq> ''marker''" by simp_all
  from analyze_elements_samples_key [OF assms(1,2) j]
  show "\<exists>xs. map_of d (group_label j (size_of_digits (length (group_list r)))) = Some (Samples xs)" .
next
  fix j
  assume "i < j \<and> j < length (group_list r) \<and> getName (group_list r ! j) \<noteq> ''marker''"
  then have j: "j < length (group_list r)" "getName (group_list r ! j) \<noteq> ''marker''" by simp_all
  from analyze_elements_name [OF assms(1,2) j]
  show "map_of d (group_svg_id (group_label j (size_of_digits (length (group_list r)))))
               = Some (DisplayName (getName (group_list r ! j)))" .
next
  fix j
  show "group_label j (size_of_digits (length (group_list r)))
               = ''group_'' @ group_number j (size_of_digits (length (group_list r)))"
    by (rule group_label_def)
next
  fix j
  show "nat_of_digits (group_number j (size_of_digits (length (group_list r)))) = j + 1"
    by (rule group_number_value)
next
  fix j
  assume "i < j \<and> j < length (group_list r) \<and> getName (group_list r ! j) \<noteq> ''marker''"
  then show "nat_of_digits (group_number j (size_of_digits (length (group_list r)))) \<noteq> i + 1"
    by (simp add: group_number_value)
qed

theorem marker_group_consumes_index_witness:
  "analyze_elements example_region = Inr example_path_points
   \<and> getName (group_list example_region ! 1) = ''marker''
   \<and> map_of example_path_points ''group_2'' = None
   \<and> map_of example_path_points ''nerve_feature_2'' = None
   \<and> getName (group_list example_region ! 2) = ''branch''
   \<and> map_of example_path_points ''nerve_feature_3'' = Some (DisplayName ''branch'')
   \<and> nat_of_digits ''3'' = 3"
proof -
  have h: "analyze_elements example_region = Inr example_path_points"
    by (rule example_analysis)
  have g: "mesh_elements example_region \<noteq> []" "1 < length (group_list example_region)"
    "getName (group_list example_region ! 1) = ''marker''"
    by (simp_all add: example_region_def)
  have b: "(1::nat) < 2 \<and> 2 < length (group_list example_region)
       \<and> getName (group_list example_region ! 2) \<noteq> ''marker''"
    by (simp add: example_region_def)
  note t = marker_group_consumes_index [OF h g]
  from t have 1: "map_of example_path_points (group_label 1 (size_of_digits (length (group_list example_region)))) = None"
    and 2: "map_of example_path_points (group_svg_id (group_label 1 (size_of_digits (length (group_list example_region))))) = None"
    by simp_all
  from t b have 3: "map_of example_path_points (group_svg_id (group_label 2 (size_of_digits (length (group_list example_region)))))
               = Some (DisplayName (getName (group_list example_region ! 2)))"
    and 4: "nat_of_digits (group_number 2 (size_of_digits (length (group_list example_region)))) = 2 + 1"
    by blast+
  have n: "getName (group_list example_region ! 2) = ''branch''"
    by (simp add: example_region_def)
  from 1 2 3 4 h g n show ?thesis
    by (simp add: example_labels)
qed

end
